theory Spec2Isabelle
  imports Complex_Main "HOL-Library.Multiset"
begin

section \<open>Values and errors\<close>

text \<open>
  The values that flow through the modelled code as data: the cart object of the
  front store, the payloads of the reducer's actions, a product's name, a schema literal.
  A JavaScript number is a double; the model only stores and copies numbers, so they are
  carried as reals.
\<close>

datatype jsvalue =
    JUndefined
  | JNull
  | JBool bool
  | JNum real
  | JStr string
  | JArr "jsvalue list"
  | JObj "(string \<times> jsvalue) list"

text \<open>An object used as a record of named fields: a finite map from property names.\<close>

type_synonym jsobject = "string \<rightharpoonup> jsvalue"

text \<open>
  What a \<open>throw\<close> or a rejected promise carries. The two locked-state errors are the ones
  the specification names for the registry and the hook table; every other exception is
  \<open>Thrown\<close> with its message.
\<close>

datatype error = LockedRegistryError | LockedHooksError | Thrown string

section \<open>The cart reducer (components/frontStore/cart/cartContext.tsx)\<close>

subsection \<open>State and actions\<close>

record loadingStates =
  addingItem :: bool
  removingItem :: "string option"
  updatingItem :: "string option"
  addingPaymentMethod :: bool
  addingShippingMethod :: bool
  addingShippingAddress :: bool
  addingBillingAddress :: bool
  addingContactInfo :: bool
  applyingCoupon :: bool
  removingCoupon :: bool
  fetchingShippingMethods :: bool

record syncStatus =
  syncing :: bool
  synced :: bool
  trigger :: "string option"

text \<open>
  \<open>CartState\<close>. The cart data is an open record (\<open>[extendedFields: string]: any\<close>)
  that the reducer tests for presence (\<open>if (draft.data)\<close>); \<open>setting\<close> has the one
  field \<open>priceIncludingTax\<close>.
\<close>

record cartState =
  data :: "jsobject option"
  loading :: bool
  priceIncludingTax :: bool
  loadingStates :: loadingStates
  syncStatus :: syncStatus

text \<open>\<open>keyof CartState['loadingStates']\<close>: the eleven operations.\<close>

datatype operation =
    AddingItem
  | RemovingItem
  | UpdatingItem
  | AddingPaymentMethod
  | AddingShippingMethod
  | AddingShippingAddress
  | AddingBillingAddress
  | AddingContactInfo
  | ApplyingCoupon
  | RemovingCoupon
  | FetchingShippingMethods

text \<open>
  The payload of \<open>SET_SYNC_STATUS\<close> has three optional keys. A key that is present
  is copied by \<open>Object.assign\<close> even when its value is \<open>undefined\<close> (the provider
  dispatches \<open>{ syncing, synced, trigger }\<close> with \<open>trigger\<close> possibly undefined), so
  the trigger is an optional key holding an optional string.
\<close>

record syncPayload =
  p_syncing :: "bool option"
  p_synced :: "bool option"
  p_trigger :: "string option option"

text \<open>
  \<open>CartAction\<close>. \<open>SET_SPECIFIC_LOADING\<close> carries the operation, the flag and the
  optional item id.
\<close>

datatype cartAction =
    SET_CART jsobject
  | SET_SPECIFIC_LOADING operation bool "string option"
  | SET_ERROR "string option"
  | CLEAR_ERROR
  | SET_SYNC_STATUS syncPayload

subsection \<open>The reducer\<close>

text \<open>The object literal that \<open>SET_CART\<close>, \<open>SET_ERROR\<close> and the initial state write.\<close>

definition idleLoadingStates :: loadingStates where
  "idleLoadingStates =
     \<lparr> addingItem = False, removingItem = None, updatingItem = None,
       addingPaymentMethod = False, addingShippingMethod = False,
       addingShippingAddress = False, addingBillingAddress = False,
       addingContactInfo = False, applyingCoupon = False, removingCoupon = False,
       fetchingShippingMethods = False \<rparr>"

text \<open>\<open>loading ? itemId || null : null\<close>: an absent or empty item id becomes null.\<close>

definition itemLoadingValue :: "bool \<Rightarrow> string option \<Rightarrow> string option" where
  "itemLoadingValue ld itemId =
     (if ld then (case itemId of None \<Rightarrow> None | Some i \<Rightarrow> if i = [] then None else Some i)
      else None)"

text \<open>
  \<open>draft.loadingStates[operation] = ...\<close>: the two item operations store an item id or
  null, every other operation stores the flag.
\<close>

fun setLoadingState :: "operation \<Rightarrow> bool \<Rightarrow> string option \<Rightarrow> loadingStates \<Rightarrow> loadingStates" where
  "setLoadingState RemovingItem ld itemId ls = ls\<lparr>removingItem := itemLoadingValue ld itemId\<rparr>"
| "setLoadingState UpdatingItem ld itemId ls = ls\<lparr>updatingItem := itemLoadingValue ld itemId\<rparr>"
| "setLoadingState AddingItem ld itemId ls = ls\<lparr>addingItem := ld\<rparr>"
| "setLoadingState AddingPaymentMethod ld itemId ls = ls\<lparr>addingPaymentMethod := ld\<rparr>"
| "setLoadingState AddingShippingMethod ld itemId ls = ls\<lparr>addingShippingMethod := ld\<rparr>"
| "setLoadingState AddingShippingAddress ld itemId ls = ls\<lparr>addingShippingAddress := ld\<rparr>"
| "setLoadingState AddingBillingAddress ld itemId ls = ls\<lparr>addingBillingAddress := ld\<rparr>"
| "setLoadingState AddingContactInfo ld itemId ls = ls\<lparr>addingContactInfo := ld\<rparr>"
| "setLoadingState ApplyingCoupon ld itemId ls = ls\<lparr>applyingCoupon := ld\<rparr>"
| "setLoadingState RemovingCoupon ld itemId ls = ls\<lparr>removingCoupon := ld\<rparr>"
| "setLoadingState FetchingShippingMethods ld itemId ls = ls\<lparr>fetchingShippingMethods := ld\<rparr>"

text \<open>\<open>Object.values(draft.loadingStates)\<close>, in the order of the keys.\<close>

definition itemValue :: "string option \<Rightarrow> jsvalue" where
  "itemValue x = (case x of None \<Rightarrow> JNull | Some i \<Rightarrow> JStr i)"

definition loadingStateValues :: "loadingStates \<Rightarrow> jsvalue list" where
  "loadingStateValues ls =
     [ JBool (addingItem ls), itemValue (removingItem ls), itemValue (updatingItem ls),
       JBool (addingPaymentMethod ls), JBool (addingShippingMethod ls),
       JBool (addingShippingAddress ls), JBool (addingBillingAddress ls),
       JBool (addingContactInfo ls), JBool (applyingCoupon ls), JBool (removingCoupon ls),
       JBool (fetchingShippingMethods ls) ]"

text \<open>\<open>state === true || (typeof state === 'string' && state !== null)\<close>.\<close>

fun isString :: "jsvalue \<Rightarrow> bool" where
  "isString (JStr s) = True"
| "isString v = False"

definition isActive :: "jsvalue \<Rightarrow> bool" where
  "isActive v = (v = JBool True \<or> (isString v \<and> v \<noteq> JNull))"

definition anyLoading :: "loadingStates \<Rightarrow> bool" where
  "anyLoading ls = list_ex isActive (loadingStateValues ls)"

text \<open>\<open>Object.assign(draft.syncStatus, action.payload)\<close>.\<close>

definition assignSyncStatus :: "syncStatus \<Rightarrow> syncPayload \<Rightarrow> syncStatus" where
  "assignSyncStatus st p =
     \<lparr> syncing = (case p_syncing p of None \<Rightarrow> syncing st | Some b \<Rightarrow> b),
       synced = (case p_synced p of None \<Rightarrow> synced st | Some b \<Rightarrow> b),
       trigger = (case p_trigger p of None \<Rightarrow> trigger st | Some t \<Rightarrow> t) \<rparr>"

definition errorValue :: "string option \<Rightarrow> jsvalue" where
  "errorValue e = (case e of None \<Rightarrow> JNull | Some m \<Rightarrow> JStr m)"

text \<open>
  \<open>produce(state, draft => { switch (action.type) ... })\<close>: the recipe's assignments,
  applied to a copy of the state.
\<close>

fun cartReducer :: "cartState \<Rightarrow> cartAction \<Rightarrow> cartState" where
  "cartReducer s (SET_CART payload) =
     s\<lparr> data := (case data s of
                   Some d \<Rightarrow> Some ((d ++ payload)(''error'' \<mapsto> JNull))
                 | None \<Rightarrow> Some payload),
        loadingStates := idleLoadingStates,
        loading := False \<rparr>"
| "cartReducer s (SET_SPECIFIC_LOADING op ld itemId) =
     (let ls = setLoadingState op ld itemId (loadingStates s)
      in s\<lparr> loadingStates := ls, loading := anyLoading ls \<rparr>)"
| "cartReducer s (SET_ERROR payload) =
     s\<lparr> data := (case data s of
                   Some d \<Rightarrow> Some (d(''error'' \<mapsto> errorValue payload))
                 | None \<Rightarrow> None),
        loadingStates := idleLoadingStates,
        loading := False \<rparr>"
| "cartReducer s CLEAR_ERROR =
     s\<lparr> data := (case data s of
                   Some d \<Rightarrow> Some (d(''error'' \<mapsto> JNull, ''errors'' \<mapsto> JArr []))
                 | None \<Rightarrow> None) \<rparr>"
| "cartReducer s (SET_SYNC_STATUS payload) =
     s\<lparr> syncStatus := assignSyncStatus (syncStatus s) payload \<rparr>"

subsection \<open>The initial state of the provider\<close>

definition money0 :: jsvalue where
  "money0 = JObj [(''value'', JNum 0), (''text'', JStr ''0.00'')]"

definition emptyCartData :: "string \<Rightarrow> jsobject" where
  "emptyCartData addMineCartItemApi = map_of
     [ (''currency'', JStr ''USD''),
       (''items'', JArr []),
       (''totalQty'', JNum 0),
       (''billingAddress'', JUndefined),
       (''shippingAddress'', JUndefined),
       (''errors'', JArr []),
       (''error'', JNull),
       (''subTotal'', money0),
       (''subTotalInclTax'', money0),
       (''shippingFeeExclTax'', money0),
       (''shippingFeeInclTax'', money0),
       (''grandTotal'', money0),
       (''taxAmount'', money0),
       (''discountAmount'', money0),
       (''coupon'', JStr ''''),
       (''addItemApi'', JStr addMineCartItemApi),
       (''addPaymentMethodApi'', JStr ''''),
       (''addShippingMethodApi'', JStr ''''),
       (''addAddressApi'', JStr ''''),
       (''applyCouponApi'', JStr ''''),
       (''addNoteApi'', JStr ''''),
       (''addContactInfoApi'', JStr ''''),
       (''checkoutApi'', JStr ''''),
       (''availablePaymentMethods'', JArr []),
       (''availableShippingMethods'', JArr []) ]"

definition hydratedInitialState :: "jsobject option \<Rightarrow> string \<Rightarrow> cartState" where
  "hydratedInitialState cart addMineCartItemApi =
     \<lparr> data = (case cart of Some c \<Rightarrow> Some c | None \<Rightarrow> Some (emptyCartData addMineCartItemApi)),
       loading = False,
       priceIncludingTax = False,
       loadingStates = idleLoadingStates,
       syncStatus = \<lparr> syncing = False, synced = False, trigger = None \<rparr> \<rparr>"

subsection \<open>The loading invariant, in the words of the claim\<close>

text \<open>Some entry of the loading states is active: \<open>true\<close>, or a non-null string.\<close>

definition someEntryActive :: "loadingStates \<Rightarrow> bool" where
  "someEntryActive ls =
     (addingItem ls \<or> removingItem ls \<noteq> None \<or> updatingItem ls \<noteq> None \<or>
      addingPaymentMethod ls \<or> addingShippingMethod ls \<or> addingShippingAddress ls \<or>
      addingBillingAddress ls \<or> addingContactInfo ls \<or> applyingCoupon ls \<or>
      removingCoupon ls \<or> fetchingShippingMethods ls)"

definition loadingInvariant :: "cartState \<Rightarrow> bool" where
  "loadingInvariant s = (loading s = someEntryActive (loadingStates s))"

section \<open>The product image resolver (Product/Image/ProductImage.resolvers.ts)\<close>

text \<open>
  \<open>getConfig(key, default)\<close> is imported from \<open>lib/util/getConfig.js\<close>, whose code
  is not available, so it is a parameter: the configured value as a template literal
  renders it, given the key and the default.
\<close>

record configEnv =
  getConfig :: "string \<Rightarrow> string \<Rightarrow> string"

text \<open>
  What else the resolver reads from its surroundings: the port \<open>normalizePort()\<close>
  returns, as the template literal renders it, and the identifier \<open>uuidv4()\<close> returns
  for this call.
\<close>

record resolverEnv = configEnv +
  normalizePort :: string
  uuidv4 :: string

text \<open>
  \<open>product.originImage\<close> comes from a text column: a string, \<open>null\<close>, or
  \<open>undefined\<close> when the row has no such field.
\<close>

datatype textField = FUndefined | FNull | FStr string

record product =
  name :: jsvalue
  originImage :: textField

record image =
  alt :: jsvalue
  url :: string
  uuid :: string
  origin :: string

text \<open>\<open>`${x}`\<close>: how a template literal renders the field.\<close>

fun templateString :: "textField \<Rightarrow> string" where
  "templateString FUndefined = ''undefined''"
| "templateString FNull = ''null''"
| "templateString (FStr s) = s"

definition startsWith :: "string \<Rightarrow> string \<Rightarrow> bool" where
  "startsWith s p = (take (length p) s = p)"

text \<open>\<open>product.originImage && product.originImage.startsWith('http')\<close>.\<close>

fun startsWithHttp :: "textField \<Rightarrow> bool" where
  "startsWithHttp (FStr s) = (s \<noteq> [] \<and> startsWith s ''http'')"
| "startsWithHttp FUndefined = False"
| "startsWithHttp FNull = False"

text \<open>
  \<open>Product.image\<close>. A string is truthy exactly when it is not empty; \<open>None\<close> is the
  resolver's \<open>null\<close>.
\<close>

definition productImage :: "resolverEnv \<Rightarrow> product \<Rightarrow> image option" where
  "productImage env product =
     (let port = normalizePort env;
          baseUrl = getConfig env ''shop.homeUrl'' (''http://localhost:'' @ port);
          mainImage = baseUrl @ templateString (originImage product)
      in if mainImage \<noteq> []
         then Some \<lparr> alt = name product,
                     url = (if startsWithHttp (originImage product)
                            then templateString (originImage product) else mainImage),
                     uuid = uuidv4 env,
                     origin = mainImage \<rparr>
         else None)"

definition demoResolverEnv :: resolverEnv where
  "demoResolverEnv =
     \<lparr> getConfig = (\<lambda>key dflt. if key = ''shop.homeUrl'' then ''https://shop.example'' else dflt),
       normalizePort = ''3000'',
       uuidv4 = ''0b6f1c9e'' \<rparr>"

section \<open>Loading translations (lib/webpack/loaders/loadTranslationFromCsv.js)\<close>


















section \<open>The registry and the hook table\<close>

text \<open>
  \<open>lib/util/registry.js\<close> and \<open>lib/util/hookable.js\<close> are imported by the build
  command and by the checkout bootstrap but their code is not available. Their operations
  are modelled from the specification (sections 3, 4.1, 4.2 and 4.5).
\<close>

text \<open>
  Modelled from the spec: a processor (\<open>registry.js\<close> is missing) receives the previous
  result and returns the next, or throws; it may also log, so its result carries the errors
  it passed to the logger.
\<close>

type_synonym 'v processor = "'v \<Rightarrow> (error + 'v) \<times> error list"

text \<open>
  Modelled from the spec: an extension point (\<open>registry.js\<close> is missing) owns an ordered
  sequence of (processor, priority) pairs, kept here in registration order, and at most
  one final processor.
\<close>

record 'v extensionPoint =
  processors :: "('v processor \<times> int) list"
  finalProcessor :: "'v processor option"

text \<open>
  Modelled from the spec: the registry (\<open>registry.js\<close> is missing) is a process-wide
  mapping from extension-point name to extension point, with a phase tag.
\<close>

record 'v registry =
  registryLocked :: bool
  points :: "string \<rightharpoonup> 'v extensionPoint"

text \<open>
  Modelled from the spec: at process start (\<open>registry.js\<close> is missing) the registry is
  mutable and no extension point has been referenced.
\<close>

definition emptyRegistry :: "'v registry" where
  "emptyRegistry = \<lparr> registryLocked = False, points = Map.empty \<rparr>"

text \<open>
  Modelled from the spec: an extension point is created on first reference
  (\<open>registry.js\<close> is missing); until then it has no processor and no final processor.
\<close>

definition pointOf :: "'v registry \<Rightarrow> string \<Rightarrow> 'v extensionPoint" where
  "pointOf reg pointName =
     (case points reg pointName of
        None \<Rightarrow> \<lparr> processors = [], finalProcessor = None \<rparr>
      | Some pt \<Rightarrow> pt)"

text \<open>
  Modelled from the spec: \<open>addProcessor(pointName, fn, priority)\<close> (\<open>registry.js\<close> is
  missing) registers \<open>fn\<close> at \<open>pointName\<close> with the given priority and fails with
  \<open>LockedRegistryError\<close> after the lock. The result is the exception thrown, if any,
  and the registry after the call.
\<close>

definition addProcessor ::
  "string \<Rightarrow> 'v processor \<Rightarrow> int \<Rightarrow> 'v registry \<Rightarrow> error option \<times> 'v registry" where
  "addProcessor pointName fn priority reg =
     (if registryLocked reg then (Some LockedRegistryError, reg)
      else (None,
            reg\<lparr> points := (points reg)(pointName \<mapsto>
                    (pointOf reg pointName)
                      \<lparr> processors := processors (pointOf reg pointName) @ [(fn, priority)] \<rparr>) \<rparr>))"

text \<open>
  Modelled from the spec: \<open>addFinalProcessor(pointName, fn)\<close> (\<open>registry.js\<close> is
  missing) registers the single final function of the point; a second call replaces the
  first (the behaviour the specification reports for the source); mutation after the lock
  fails.
\<close>

definition addFinalProcessor ::
  "string \<Rightarrow> 'v processor \<Rightarrow> 'v registry \<Rightarrow> error option \<times> 'v registry" where
  "addFinalProcessor pointName fn reg =
     (if registryLocked reg then (Some LockedRegistryError, reg)
      else (None,
            reg\<lparr> points := (points reg)(pointName \<mapsto>
                    (pointOf reg pointName)\<lparr> finalProcessor := Some fn \<rparr>) \<rparr>))"

text \<open>
  Modelled from the spec: the lock (\<open>registry.js\<close> is missing) is a one-shot transition;
  locking a locked registry changes nothing.
\<close>

definition lockRegistry :: "'v registry \<Rightarrow> 'v registry" where
  "lockRegistry reg = reg\<lparr> registryLocked := True \<rparr>"

text \<open>
  Modelled from the spec: execution order (\<open>registry.js\<close> is missing) is ascending
  priority, ties broken by registration order: a stable sort by priority.
\<close>

definition orderedProcessors :: "'v extensionPoint \<Rightarrow> 'v processor list" where
  "orderedProcessors pt = map fst (sort_key snd (processors pt))"

text \<open>
  Modelled from the spec: the fold (\<open>registry.js\<close> is missing) is strictly sequential;
  each processor receives the result of the previous one, and an exception ends the fold.
\<close>

fun foldProcessors :: "'v processor list \<Rightarrow> 'v \<Rightarrow> (error + 'v) \<times> error list" where
  "foldProcessors [] v = (Inr v, [])"
| "foldProcessors (p # ps) v =
     (case p v of
        (Inl e, logged) \<Rightarrow> (Inl e, logged)
      | (Inr v', logged) \<Rightarrow>
          (case foldProcessors ps v' of (r, logged') \<Rightarrow> (r, logged @ logged')))"

text \<open>
  Modelled from the spec: the final processor (\<open>registry.js\<close> is missing), if present,
  is applied once to the result of the fold.
\<close>

definition applyFinal ::
  "'v processor option \<Rightarrow> (error + 'v) \<times> error list \<Rightarrow> (error + 'v) \<times> error list" where
  "applyFinal final folded =
     (case folded of
        (Inl e, logged) \<Rightarrow> (Inl e, logged)
      | (Inr v, logged) \<Rightarrow>
          (case final of
             None \<Rightarrow> (Inr v, logged)
           | Some fn \<Rightarrow> (case fn v of (r, logged') \<Rightarrow> (r, logged @ logged'))))"

text \<open>
  Modelled from the spec: \<open>runProcessors(pointName, initialValue)\<close> (\<open>registry.js\<close> is
  missing) folds the ordered processors over the initial value, then applies the final
  processor.
\<close>

definition runProcessors :: "string \<Rightarrow> 'v \<Rightarrow> 'v registry \<Rightarrow> (error + 'v) \<times> error list" where
  "runProcessors pointName initialValue reg =
     applyFinal (finalProcessor (pointOf reg pointName))
       (foldProcessors (orderedProcessors (pointOf reg pointName)) initialValue)"

text \<open>
  Modelled from the spec: a hook contribution (\<open>hookable.js\<close> is missing) is tagged
  before, after or replace and has a priority.
\<close>

datatype hookKind = Before | After | Replace

record 'h hookContribution =
  hookKind :: hookKind
  hookFn :: 'h
  hookPriority :: int

text \<open>
  Modelled from the spec: the hook table (\<open>hookable.js\<close> is missing) maps a function
  name to its contributions and has the same phase tag as the registry.
\<close>

record 'h hookTable =
  hooksLocked :: bool
  hooks :: "string \<Rightarrow> 'h hookContribution list"

text \<open>
  Modelled from the spec: at process start (\<open>hookable.js\<close> is missing) the hook table
  is mutable and has no contribution.
\<close>

definition emptyHookTable :: "'h hookTable" where
  "emptyHookTable = \<lparr> hooksLocked = False, hooks = (\<lambda>functionName. []) \<rparr>"

text \<open>
  Modelled from the spec: \<open>addHook(functionName, kind, fn, priority)\<close> (\<open>hookable.js\<close>
  is missing) adds a contribution and fails with \<open>LockedHooksError\<close> after the lock.
\<close>

definition addHook ::
  "string \<Rightarrow> hookKind \<Rightarrow> 'h \<Rightarrow> int \<Rightarrow> 'h hookTable \<Rightarrow> error option \<times> 'h hookTable" where
  "addHook functionName kind fn priority tbl =
     (if hooksLocked tbl then (Some LockedHooksError, tbl)
      else (None,
            tbl\<lparr> hooks := (hooks tbl)(functionName :=
                    hooks tbl functionName @
                      [\<lparr> hookKind = kind, hookFn = fn, hookPriority = priority \<rparr>]) \<rparr>))"

text \<open>
  Modelled from the spec: the lock of the hook table (\<open>hookable.js\<close> is missing), with
  the semantics of the registry's.
\<close>

definition lockHooks :: "'h hookTable \<Rightarrow> 'h hookTable" where
  "lockHooks tbl = tbl\<lparr> hooksLocked := True \<rparr>"

section \<open>The checkout bootstrap (modules/checkout/bootstrap.js)\<close>

text \<open>Statements in sequence: the first exception ends the sequence.\<close>

fun callsInOrder :: "('s \<Rightarrow> error option \<times> 's) list \<Rightarrow> 's \<Rightarrow> error option \<times> 's" where
  "callsInOrder [] s = (None, s)"
| "callsInOrder (c # cs) s =
     (case c s of
        (Some e, s') \<Rightarrow> (Some e, s')
      | (None, s') \<Rightarrow> callsInOrder cs s')"

text \<open>
  What the bootstrap imports and whose code is not available: the two field
  registration processors, \<open>sortFields\<close>, the loader function that the
  \<open>cartItemProductLoaderFunction\<close> processor returns, \<open>merge\<close>, and the priority the
  registry gives to a registration that names none (two of the calls pass no priority,
  and the specification does not state the default).
\<close>

record 'v checkoutDeps =
  registerCartBaseFields :: "'v processor"
  registerCartItemBaseFields :: "'v processor"
  sortFields :: "'v \<Rightarrow> error + 'v"
  cartItemProductLoader :: 'v
  merge :: "'v \<Rightarrow> jsvalue \<Rightarrow> error + 'v"
  defaultPriority :: int

text \<open>
  \<open>(fields) => { try { return sortFields(fields) } catch (e) { error(e); throw e } }\<close>:
  the final processor of both field points.
\<close>

definition sortFieldsFinal :: "'v checkoutDeps \<Rightarrow> 'v processor" where
  "sortFieldsFinal deps fieldList =
     (case sortFields deps fieldList of
        Inr sortedFields \<Rightarrow> (Inr sortedFields, [])
      | Inl e \<Rightarrow> (Inl e, [e]))"

definition checkoutSchema :: jsvalue where
  "checkoutSchema =
     JObj [(''properties'',
       JObj [(''checkout'',
         JObj [(''type'', JStr ''object''),
               (''properties'',
                 JObj [(''showShippingNote'', JObj [(''type'', JStr ''boolean'')])])])])]"

text \<open>The default export: six registrations, in the order of the source.\<close>

definition checkoutBootstrap :: "'v checkoutDeps \<Rightarrow> 'v registry \<Rightarrow> error option \<times> 'v registry" where
  "checkoutBootstrap deps =
     callsInOrder
       [ addProcessor ''cartFields'' (registerCartBaseFields deps) 0,
         addProcessor ''cartItemFields'' (registerCartItemBaseFields deps) 0,
         addFinalProcessor ''cartFields'' (sortFieldsFinal deps),
         addFinalProcessor ''cartItemFields'' (sortFieldsFinal deps),
         addProcessor ''cartItemProductLoaderFunction''
           (\<lambda>v. (Inr (cartItemProductLoader deps), [])) (defaultPriority deps),
         addProcessor ''configuratonSchema''
           (\<lambda>schema. (merge deps schema checkoutSchema, [])) (defaultPriority deps) ]"

text \<open>A processor that neither throws nor logs.\<close>

definition pureProcessor :: "('v \<Rightarrow> 'v) \<Rightarrow> 'v processor" where
  "pureProcessor f v = (Inr (f v), [])"

definition demoCheckoutDeps :: "nat list checkoutDeps" where
  "demoCheckoutDeps =
     \<lparr> registerCartBaseFields = pureProcessor (\<lambda>fs. fs @ [30, 10]),
       registerCartItemBaseFields = pureProcessor (\<lambda>fs. fs @ [7]),
       sortFields = (\<lambda>fs. Inr (sort fs)),
       cartItemProductLoader = [],
       merge = (\<lambda>schema extra. Inr schema),
       defaultPriority = 10 \<rparr>"

section \<open>The build command (src/unnamed/part_000)\<close>

subsection \<open>State, events and collaborators\<close>

text \<open>A module of the startup list; the build command reads its \<open>path\<close>.\<close>

record moduleDescriptor =
  moduleName :: string
  path :: string

text \<open>The process-wide state that bootstrap scripts write: the registry and the hook table.\<close>

record ('v, 'h) kernel =
  registry :: "'v registry"
  hookTable :: "'h hookTable"

text \<open>
  The state the command works on: the global route table that \<open>loadModuleRoutes\<close>
  fills and \<open>getRoutes\<close> reads, the kernel, and the environment variable it sets.
\<close>

record ('v, 'h, 't) world =
  routeTable :: 't
  kernel :: "('v, 'h) kernel"
  ALLOW_CONFIG_MUTATIONS :: "string option"

text \<open>
  The calls the command makes, in the order it makes them. \<open>EvError\<close> is a call of the
  logger's \<open>error\<close>, \<open>EvExit\<close> a call of \<open>process.exit\<close>; a bootstrap script has a
  start (the call) and a settlement (the end of the \<open>await\<close>).
\<close>

datatype 'r event =
    EvLoadModuleRoutes string
  | EvError error
  | EvExit int
  | EvExistsSync
  | EvRmSync
  | EvMkdirSync bool
  | EvBootstrapStart moduleDescriptor
  | EvBootstrapSettled moduleDescriptor
  | EvLockHooks
  | EvLockRegistry
  | EvValidateConfiguration
  | EvSetEnv
  | EvGetRoutes
  | EvIsBuildRequired 'r
  | EvBuildEntry "'r list"
  | EvCompile "'r list"

text \<open>
  How the command ends: the default export returns, the process exits with a status, or an
  exception (or a rejected promise) is not caught.
\<close>

datatype 'w outcome = Completed 'w | Exited int | Uncaught error

text \<open>
  The functions the command imports, as parameters: each takes the state it reads and
  returns the exception it throws, if any, and the state it leaves. \<open>buildPathExists\<close>
  is the answer of \<open>existsSync\<close> for the build path. \<open>validateConfiguration\<close> may
  read the kernel (the configuration object itself is not tracked), and only bootstrap
  scripts write it. The logger's \<open>error\<close> records its argument and does not throw.
\<close>

record ('v, 'h, 't, 'r) buildEnv =
  getCoreModules :: "moduleDescriptor list"
  getEnabledExtensions :: "moduleDescriptor list"
  loadModuleRoutes :: "string \<Rightarrow> 't \<Rightarrow> error option \<times> 't"
  buildPathExists :: bool
  rmSync :: "error option"
  mkdirSync :: "bool \<Rightarrow> error option"
  loadBootstrapScript :: "moduleDescriptor \<Rightarrow> ('v, 'h) kernel \<Rightarrow> error option \<times> ('v, 'h) kernel"
  validateConfiguration :: "('v, 'h) kernel \<Rightarrow> error option"
  getRoutes :: "'t \<Rightarrow> 'r list"
  isBuildRequired :: "'r \<Rightarrow> bool"
  buildEntry :: "'r list \<Rightarrow> error option"
  compile :: "'r list \<Rightarrow> error option"

subsection \<open>The command\<close>

text \<open>\<open>const modules = [...getCoreModules(), ...getEnabledExtensions()]\<close>.\<close>

definition modules :: "('v, 'h, 't, 'r) buildEnv \<Rightarrow> moduleDescriptor list" where
  "modules env = getCoreModules env @ getEnabledExtensions env"

text \<open>
  \<open>modules.forEach\<close> over \<open>loadModuleRoutes(module.path)\<close>: an exception is logged and
  the process exits with status 0, so no later module is loaded.
\<close>

fun loadRoutes ::
  "('v, 'h, 't, 'r) buildEnv \<Rightarrow> moduleDescriptor list \<Rightarrow> 't \<Rightarrow>
     'r event list \<times> (('v, 'h, 't) world outcome + 't)" where
  "loadRoutes env [] t = ([], Inr t)"
| "loadRoutes env (m # ms) t =
     (case loadModuleRoutes env (path m) t of
        (Some e, t') \<Rightarrow> ([EvLoadModuleRoutes (path m), EvError e, EvExit 0], Inl (Exited 0))
      | (None, t') \<Rightarrow>
          (case loadRoutes env ms t' of (evs, r) \<Rightarrow> (EvLoadModuleRoutes (path m) # evs, r)))"

text \<open>
  The clean-up of the build directory, at the top level of the module: an exception of
  \<open>rmSync\<close> or \<open>mkdirSync\<close> is not caught.
\<close>

definition cleanBuildDir ::
  "('v, 'h, 't, 'r) buildEnv \<Rightarrow> 'r event list \<times> ('v, 'h, 't) world outcome option" where
  "cleanBuildDir env =
     (if buildPathExists env then
        (case rmSync env of
           Some e \<Rightarrow> ([EvExistsSync, EvRmSync], Some (Uncaught e))
         | None \<Rightarrow>
             (case mkdirSync env False of
                Some e \<Rightarrow> ([EvExistsSync, EvRmSync, EvMkdirSync False], Some (Uncaught e))
              | None \<Rightarrow> ([EvExistsSync, EvRmSync, EvMkdirSync False], None)))
      else
        (case mkdirSync env True of
           Some e \<Rightarrow> ([EvExistsSync, EvMkdirSync True], Some (Uncaught e))
         | None \<Rightarrow> ([EvExistsSync, EvMkdirSync True], None)))"

text \<open>\<open>for (const module of modules) { await loadBootstrapScript(module) }\<close>.\<close>

fun loadBootstraps ::
  "('v, 'h, 't, 'r) buildEnv \<Rightarrow> moduleDescriptor list \<Rightarrow> ('v, 'h) kernel \<Rightarrow>
     'r event list \<times> (error + ('v, 'h) kernel)" where
  "loadBootstraps env [] k = ([], Inr k)"
| "loadBootstraps env (m # ms) k =
     (case loadBootstrapScript env m k of
        (Some e, k') \<Rightarrow> ([EvBootstrapStart m, EvBootstrapSettled m], Inl e)
      | (None, k') \<Rightarrow>
          (case loadBootstraps env ms k' of
             (evs, r) \<Rightarrow> (EvBootstrapStart m # EvBootstrapSettled m # evs, r)))"

text \<open>\<open>lockHooks(); lockRegistry();\<close>\<close>

definition lockKernel :: "('v, 'h) kernel \<Rightarrow> ('v, 'h) kernel" where
  "lockKernel k =
     (let k1 = k\<lparr> hookTable := lockHooks (hookTable k) \<rparr>
      in k1\<lparr> registry := lockRegistry (registry k1) \<rparr>)"

text \<open>The \<open>try\<close> block of the default export.\<close>

definition tryBootstrap ::
  "('v, 'h, 't, 'r) buildEnv \<Rightarrow> ('v, 'h) kernel \<Rightarrow> 'r event list \<times> (error + ('v, 'h) kernel)" where
  "tryBootstrap env k =
     (case loadBootstraps env (modules env) k of
        (evs, Inl e) \<Rightarrow> (evs, Inl e)
      | (evs, Inr k') \<Rightarrow>
          (case validateConfiguration env (lockKernel k') of
             Some e \<Rightarrow> (evs @ [EvLockHooks, EvLockRegistry, EvValidateConfiguration], Inl e)
           | None \<Rightarrow>
               (evs @ [EvLockHooks, EvLockRegistry, EvValidateConfiguration],
                Inr (lockKernel k'))))"

text \<open>
  The default export: the \<open>catch\<close> logs and exits with status 0; otherwise the
  environment variable is set, the routes are read, those that require a build go to
  \<open>buildEntry\<close> and all of them to \<open>compile\<close>.
\<close>

definition defaultExport ::
  "('v, 'h, 't, 'r) buildEnv \<Rightarrow> ('v, 'h, 't) world \<Rightarrow>
     'r event list \<times> ('v, 'h, 't) world outcome" where
  "defaultExport env w =
     (case tryBootstrap env (kernel w) of
        (evs, Inl e) \<Rightarrow> (evs @ [EvError e, EvExit 0], Exited 0)
      | (evs, Inr k) \<Rightarrow>
          (let w' = w\<lparr> kernel := k, ALLOW_CONFIG_MUTATIONS := Some ''false'' \<rparr>;
               routes = getRoutes env (routeTable w');
               required = filter (isBuildRequired env) routes;
               gate = evs @ [EvSetEnv, EvGetRoutes] @ map EvIsBuildRequired routes
           in case buildEntry env required of
                Some e \<Rightarrow> (gate @ [EvBuildEntry required], Uncaught e)
              | None \<Rightarrow>
                  (case compile env routes of
                     Some e \<Rightarrow> (gate @ [EvBuildEntry required, EvCompile routes], Uncaught e)
                   | None \<Rightarrow> (gate @ [EvBuildEntry required, EvCompile routes], Completed w'))))"

text \<open>
  A run of the command: the top level of the module (route loading, then the clean-up of
  the build directory), then the default export.
\<close>

definition build ::
  "('v, 'h, 't, 'r) buildEnv \<Rightarrow> ('v, 'h, 't) world \<Rightarrow>
     'r event list \<times> ('v, 'h, 't) world outcome" where
  "build env w =
     (case loadRoutes env (modules env) (routeTable w) of
        (evs1, Inl stopped) \<Rightarrow> (evs1, stopped)
      | (evs1, Inr t) \<Rightarrow>
          (case cleanBuildDir env of
             (evs2, Some stopped) \<Rightarrow> (evs1 @ evs2, stopped)
           | (evs2, None) \<Rightarrow>
               (case defaultExport env (w\<lparr> routeTable := t \<rparr>) of
                  (evs3, result) \<Rightarrow> (evs1 @ evs2 @ evs3, result))))"

subsection \<open>Traces and phases\<close>

definition routeTrace :: "moduleDescriptor list \<Rightarrow> 'r event list" where
  "routeTrace ms = map (\<lambda>m. EvLoadModuleRoutes (path m)) ms"

definition bootstrapTrace :: "moduleDescriptor list \<Rightarrow> 'r event list" where
  "bootstrapTrace ms = concat (map (\<lambda>m. [EvBootstrapStart m, EvBootstrapSettled m]) ms)"

definition lockTrace :: "'r event list" where
  "lockTrace = [EvLockHooks, EvLockRegistry, EvValidateConfiguration]"

definition gateTrace :: "'r list \<Rightarrow> 'r event list" where
  "gateTrace routes = [EvSetEnv, EvGetRoutes] @ map EvIsBuildRequired routes"

text \<open>The phases of the pipeline, and the phase of each call.\<close>

datatype phase =
    RouteLoading
  | BuildDirCleanup
  | BootstrapLoading
  | Lock
  | ConfigValidation
  | BuildGate
  | EntryGeneration
  | Compile

fun phaseOf :: "'r event \<Rightarrow> phase option" where
  "phaseOf (EvLoadModuleRoutes p) = Some RouteLoading"
| "phaseOf EvExistsSync = Some BuildDirCleanup"
| "phaseOf EvRmSync = Some BuildDirCleanup"
| "phaseOf (EvMkdirSync recursive) = Some BuildDirCleanup"
| "phaseOf (EvBootstrapStart m) = Some BootstrapLoading"
| "phaseOf (EvBootstrapSettled m) = Some BootstrapLoading"
| "phaseOf EvLockHooks = Some Lock"
| "phaseOf EvLockRegistry = Some Lock"
| "phaseOf EvValidateConfiguration = Some ConfigValidation"
| "phaseOf EvGetRoutes = Some BuildGate"
| "phaseOf (EvIsBuildRequired r) = Some BuildGate"
| "phaseOf (EvBuildEntry rs) = Some EntryGeneration"
| "phaseOf (EvCompile rs) = Some Compile"
| "phaseOf (EvError e) = None"
| "phaseOf (EvExit c) = None"
| "phaseOf EvSetEnv = None"

fun phasesOf :: "'r event list \<Rightarrow> phase list" where
  "phasesOf [] = []"
| "phasesOf (ev # evs) = (case phaseOf ev of None \<Rightarrow> phasesOf evs | Some p \<Rightarrow> p # phasesOf evs)"

text \<open>The order in which the command runs the phases.\<close>

fun codeOrder :: "phase \<Rightarrow> nat" where
  "codeOrder RouteLoading = 0"
| "codeOrder BuildDirCleanup = 1"
| "codeOrder BootstrapLoading = 2"
| "codeOrder Lock = 3"
| "codeOrder ConfigValidation = 4"
| "codeOrder BuildGate = 5"
| "codeOrder EntryGeneration = 6"
| "codeOrder Compile = 7"

text \<open>
  The order the specification's control flow prescribes, with the clean-up of the build
  directory as the first step of the Build Orchestrator, after the Build Gate.
\<close>

fun claimedOrder :: "phase \<Rightarrow> nat" where
  "claimedOrder RouteLoading = 0"
| "claimedOrder BootstrapLoading = 1"
| "claimedOrder Lock = 2"
| "claimedOrder ConfigValidation = 3"
| "claimedOrder BuildGate = 4"
| "claimedOrder BuildDirCleanup = 5"
| "claimedOrder EntryGeneration = 6"
| "claimedOrder Compile = 7"

definition inOrder :: "(phase \<Rightarrow> nat) \<Rightarrow> 'r event list \<Rightarrow> bool" where
  "inOrder ord evs = sorted (map ord (phasesOf evs))"

definition inPhase :: "phase \<Rightarrow> 'r event list \<Rightarrow> 'r event list" where
  "inPhase p evs = filter (\<lambda>ev. phaseOf ev = Some p) evs"

text \<open>An exit status that reports a failure: non-zero, or an abort.\<close>

definition nonZeroOrAborted :: "'w outcome \<Rightarrow> bool" where
  "nonZeroOrAborted result =
     (case result of Completed w \<Rightarrow> False | Exited c \<Rightarrow> c \<noteq> 0 | Uncaught e \<Rightarrow> True)"

subsection \<open>Sample runs\<close>

text \<open>A bootstrap script that only calls the registry.\<close>

definition onRegistry ::
  "('v registry \<Rightarrow> error option \<times> 'v registry) \<Rightarrow>
     ('v, 'h) kernel \<Rightarrow> error option \<times> ('v, 'h) kernel" where
  "onRegistry call k = (case call (registry k) of (r, reg') \<Rightarrow> (r, k\<lparr> registry := reg' \<rparr>))"

definition checkoutModule :: moduleDescriptor where
  "checkoutModule = \<lparr> moduleName = ''checkout'', path = ''/app/modules/checkout'' \<rparr>"

definition sampleExtension :: moduleDescriptor where
  "sampleExtension = \<lparr> moduleName = ''sample'', path = ''/app/extensions/sample'' \<rparr>"

definition demoBuildEnv :: "(nat list, unit, string list, string) buildEnv" where
  "demoBuildEnv =
     \<lparr> getCoreModules = [checkoutModule],
       getEnabledExtensions = [sampleExtension],
       loadModuleRoutes = (\<lambda>p t. (None, t @ [p])),
       buildPathExists = True,
       rmSync = None,
       mkdirSync = (\<lambda>recursive. None),
       loadBootstrapScript =
         (\<lambda>m. if moduleName m = ''checkout''
              then onRegistry (checkoutBootstrap demoCheckoutDeps)
              else onRegistry (addProcessor ''cartFields'' (pureProcessor (\<lambda>fs. fs @ [20])) 5)),
       validateConfiguration = (\<lambda>k. None),
       getRoutes = (\<lambda>t. t),
       isBuildRequired = (\<lambda>r. r = ''/app/modules/checkout''),
       buildEntry = (\<lambda>rs. None),
       compile = (\<lambda>rs. None) \<rparr>"

definition demoWorld :: "(nat list, unit, string list) world" where
  "demoWorld =
     \<lparr> routeTable = [],
       kernel = \<lparr> registry = emptyRegistry, hookTable = emptyHookTable \<rparr>,
       ALLOW_CONFIG_MUTATIONS = None \<rparr>"

definition demoBrokenRoutesEnv :: "(nat list, unit, string list, string) buildEnv" where
  "demoBrokenRoutesEnv =
     demoBuildEnv\<lparr> loadModuleRoutes :=
       (\<lambda>p t. if p = ''/app/extensions/sample'' then (Some (Thrown ''Invalid route''), t)
              else (None, t @ [p])) \<rparr>"

definition demoBrokenBootstrapEnv :: "(nat list, unit, string list, string) buildEnv" where
  "demoBrokenBootstrapEnv =
     demoBuildEnv\<lparr> loadBootstrapScript :=
       (\<lambda>m k. if moduleName m = ''checkout''
              then onRegistry (checkoutBootstrap demoCheckoutDeps) k
              else (Some (Thrown ''bootstrap failed''), k)) \<rparr>"

definition demoKernel :: "(nat list, unit) kernel" where
  "demoKernel =
     snd (onRegistry (addProcessor ''cartFields'' (pureProcessor (\<lambda>fs. fs @ [20])) 5)
       (snd (onRegistry (checkoutBootstrap demoCheckoutDeps) (kernel demoWorld))))"

definition demoTrace :: "string event list" where
  "demoTrace =
     [ EvLoadModuleRoutes ''/app/modules/checkout'', EvLoadModuleRoutes ''/app/extensions/sample'',
       EvExistsSync, EvRmSync, EvMkdirSync False,
       EvBootstrapStart checkoutModule, EvBootstrapSettled checkoutModule,
       EvBootstrapStart sampleExtension, EvBootstrapSettled sampleExtension,
       EvLockHooks, EvLockRegistry, EvValidateConfiguration,
       EvSetEnv, EvGetRoutes,
       EvIsBuildRequired ''/app/modules/checkout'', EvIsBuildRequired ''/app/extensions/sample'',
       EvBuildEntry [''/app/modules/checkout''],
       EvCompile [''/app/modules/checkout'', ''/app/extensions/sample''] ]"

section \<open>Properties of the cart reducer\<close>

lemma isActive_itemValue: "isActive (itemValue x) = (x \<noteq> None)"
  by (cases x) (simp_all add: isActive_def itemValue_def)

lemma isActive_JBool: "isActive (JBool b) = b"
  by (simp add: isActive_def)

text \<open>The reducer's test over \<open>Object.values\<close> is the predicate of the claim.\<close>

lemma anyLoading_eq: "anyLoading ls = someEntryActive ls"
  by (simp add: anyLoading_def loadingStateValues_def someEntryActive_def
      isActive_itemValue isActive_JBool)

lemma someEntryActive_idle: "\<not> someEntryActive idleLoadingStates"
  by (simp add: someEntryActive_def idleLoadingStates_def)

lemma reducer_loading_cases:
  "(\<forall>p. loadingStates (cartReducer s (SET_CART p)) = idleLoadingStates \<and>
        \<not> loading (cartReducer s (SET_CART p))) \<and>
   (\<forall>e. loadingStates (cartReducer s (SET_ERROR e)) = idleLoadingStates \<and>
        \<not> loading (cartReducer s (SET_ERROR e))) \<and>
   (\<forall>op ld i. loadingStates (cartReducer s (SET_SPECIFIC_LOADING op ld i)) =
                setLoadingState op ld i (loadingStates s) \<and>
              loading (cartReducer s (SET_SPECIFIC_LOADING op ld i)) =
                someEntryActive (setLoadingState op ld i (loadingStates s))) \<and>
   loading (cartReducer s CLEAR_ERROR) = loading s \<and>
   loadingStates (cartReducer s CLEAR_ERROR) = loadingStates s \<and>
   (\<forall>p. loading (cartReducer s (SET_SYNC_STATUS p)) = loading s \<and>
        loadingStates (cartReducer s (SET_SYNC_STATUS p)) = loadingStates s)"
  by (simp add: Let_def anyLoading_eq)

lemma reducer_preserves_invariant:
  "loadingInvariant s \<Longrightarrow> loadingInvariant (cartReducer s a)"
  by (cases a) (simp_all add: loadingInvariant_def Let_def anyLoading_eq someEntryActive_idle)

lemma initial_invariant: "loadingInvariant (hydratedInitialState cart api)"
  by (simp add: loadingInvariant_def hydratedInitialState_def someEntryActive_idle)

text \<open>
  C10. The cart reducer keeps \<open>state.loading\<close> equal to "some entry of
  \<open>state.loadingStates\<close> is active (true, or a non-null string)": every action maps a
  state with that property to one with it; \<open>SET_CART\<close> and \<open>SET_ERROR\<close> reset every
  entry to its idle value and set \<open>loading\<close> to false; \<open>SET_SPECIFIC_LOADING\<close>
  recomputes \<open>loading\<close> from the updated entries; \<open>CLEAR_ERROR\<close> and
  \<open>SET_SYNC_STATUS\<close> change neither \<open>loading\<close> nor \<open>loadingStates\<close>; and the
  provider's initial state has the property, whatever cart it is hydrated with.
\<close>

theorem cartReducer_loading_invariant:
  "(loadingInvariant s \<longrightarrow> loadingInvariant (cartReducer s a)) \<and>
   (\<forall>p. loadingStates (cartReducer s (SET_CART p)) = idleLoadingStates \<and>
        \<not> loading (cartReducer s (SET_CART p))) \<and>
   (\<forall>e. loadingStates (cartReducer s (SET_ERROR e)) = idleLoadingStates \<and>
        \<not> loading (cartReducer s (SET_ERROR e))) \<and>
   (\<forall>op ld i. loadingStates (cartReducer s (SET_SPECIFIC_LOADING op ld i)) =
                setLoadingState op ld i (loadingStates s) \<and>
              loading (cartReducer s (SET_SPECIFIC_LOADING op ld i)) =
                someEntryActive (loadingStates (cartReducer s (SET_SPECIFIC_LOADING op ld i)))) \<and>
   loading (cartReducer s CLEAR_ERROR) = loading s \<and>
   loadingStates (cartReducer s CLEAR_ERROR) = loadingStates s \<and>
   (\<forall>p. loading (cartReducer s (SET_SYNC_STATUS p)) = loading s \<and>
        loadingStates (cartReducer s (SET_SYNC_STATUS p)) = loadingStates s) \<and>
   \<not> someEntryActive idleLoadingStates \<and>
   loadingInvariant (hydratedInitialState cart api)"
  using reducer_loading_cases [of s] reducer_preserves_invariant [of s a]
    initial_invariant [of cart api] someEntryActive_idle
  by simp

theorem cartReducer_loading_invariant_witness:
  "loadingInvariant (hydratedInitialState None ''/api/cart/items'') \<and>
   loadingInvariant (cartReducer (hydratedInitialState None ''/api/cart/items'')
                       (SET_SPECIFIC_LOADING RemovingItem True (Some ''42''))) \<and>
   loading (cartReducer (hydratedInitialState None ''/api/cart/items'')
              (SET_SPECIFIC_LOADING RemovingItem True (Some ''42'')))"
  using cartReducer_loading_invariant
    [of "hydratedInitialState None ''/api/cart/items''"
        "SET_SPECIFIC_LOADING RemovingItem True (Some ''42'')" None "''/api/cart/items''"]
  by (simp add: loadingInvariant_def someEntryActive_def hydratedInitialState_def
      idleLoadingStates_def itemLoadingValue_def Let_def anyLoading_eq)

section \<open>Properties of the product image resolver\<close>

text \<open>
  C8, as the code has it. \<open>Product.image\<close> returns an image object and not null
  whenever the base URL that \<open>getConfig\<close> returns is not empty, which is the case
  whenever the default \<open>http://localhost:<port>\<close> is used, and whenever
  \<open>product.originImage\<close> is not the empty string, which is the case when it is
  \<open>undefined\<close> or \<open>null\<close> (they render as the non-empty strings "undefined" and
  "null"). The object has the product's name as \<open>alt\<close>, the fresh identifier as
  \<open>uuid\<close> and \<open>mainImage\<close> as \<open>origin\<close>. The resolver returns null exactly
  when the configured base URL is the empty string and \<open>product.originImage\<close> is the
  empty string.
\<close>

theorem productImage_never_null:
  "(getConfig env ''shop.homeUrl'' (''http://localhost:'' @ normalizePort env) \<noteq> [] \<longrightarrow>
      (\<exists>img. productImage env p = Some img \<and>
         alt img = name p \<and> uuid img = uuidv4 env \<and> origin img \<noteq> [] \<and> url img \<noteq> [] \<and>
         origin img =
           getConfig env ''shop.homeUrl'' (''http://localhost:'' @ normalizePort env) @
           templateString (originImage p))) \<and>
   productImage (env\<lparr> getConfig := (\<lambda>key dflt. dflt) \<rparr>) p \<noteq> None \<and>
   productImage env (p\<lparr> originImage := FUndefined \<rparr>) \<noteq> None \<and>
   productImage env (p\<lparr> originImage := FNull \<rparr>) \<noteq> None \<and>
   (originImage p \<noteq> FStr [] \<longrightarrow>
      (\<exists>img. productImage env p = Some img \<and>
         alt img = name p \<and> uuid img = uuidv4 env \<and> origin img \<noteq> [] \<and> url img \<noteq> [] \<and>
         origin img =
           getConfig env ''shop.homeUrl'' (''http://localhost:'' @ normalizePort env) @
           templateString (originImage p))) \<and>
   (productImage env p = None \<longleftrightarrow>
      getConfig env ''shop.homeUrl'' (''http://localhost:'' @ normalizePort env) = [] \<and>
      originImage p = FStr [])"
proof -
  have "url_ok": "startsWithHttp f \<Longrightarrow> templateString f \<noteq> []" for f
    by (cases f) simp_all
  have empty: "(templateString f = []) = (f = FStr [])" for f
    by (cases f) simp_all
  from url_ok show ?thesis
    by (simp add: productImage_def Let_def empty)
qed

text \<open>
  Against C8 as stated: with \<open>shop.homeUrl\<close> configured as the empty string, a product
  whose \<open>originImage\<close> is the empty string gets null, so the null branch is reachable.
\<close>

theorem productImage_never_null_counterexample:
  "getConfig (demoResolverEnv\<lparr> getConfig := (\<lambda>key dflt. if key = ''shop.homeUrl'' then [] else dflt) \<rparr>)
      ''shop.homeUrl'' (''http://localhost:'' @ normalizePort demoResolverEnv) = [] \<and>
   productImage
      (demoResolverEnv\<lparr> getConfig := (\<lambda>key dflt. if key = ''shop.homeUrl'' then [] else dflt) \<rparr>)
      \<lparr> name = JStr ''Shoe'', originImage = FStr [] \<rparr> = None"
  by (simp add: productImage_def Let_def demoResolverEnv_def)

theorem productImage_never_null_witness:
  "getConfig demoResolverEnv ''shop.homeUrl'' (''http://localhost:'' @ normalizePort demoResolverEnv)
     = ''https://shop.example'' \<and>
   productImage demoResolverEnv \<lparr> name = JStr ''Shoe'', originImage = FUndefined \<rparr> =
     Some \<lparr> alt = JStr ''Shoe'', url = ''https://shop.exampleundefined'', uuid = ''0b6f1c9e'',
            origin = ''https://shop.exampleundefined'' \<rparr> \<and>
   originImage \<lparr> name = JStr ''Shoe'', originImage = FStr ''/shoe.png'' \<rparr> \<noteq> FStr [] \<and>
   productImage demoResolverEnv \<lparr> name = JStr ''Shoe'', originImage = FStr ''/shoe.png'' \<rparr> =
     Some \<lparr> alt = JStr ''Shoe'', url = ''https://shop.example/shoe.png'', uuid = ''0b6f1c9e'',
            origin = ''https://shop.example/shoe.png'' \<rparr>"
proof -
  have h: "getConfig demoResolverEnv ''shop.homeUrl''
      (''http://localhost:'' @ normalizePort demoResolverEnv) \<noteq> []"
    by (simp add: demoResolverEnv_def)
  from productImage_never_null [of demoResolverEnv "\<lparr> name = JStr ''Shoe'', originImage = FUndefined \<rparr>",
      THEN conjunct1, THEN mp, OF h]
  obtain img where "productImage demoResolverEnv \<lparr> name = JStr ''Shoe'', originImage = FUndefined \<rparr> =
      Some img"
    by (elim exE conjE)
  then have a: "getConfig demoResolverEnv ''shop.homeUrl''
       (''http://localhost:'' @ normalizePort demoResolverEnv) = ''https://shop.example'' \<and>
     productImage demoResolverEnv \<lparr> name = JStr ''Shoe'', originImage = FUndefined \<rparr> =
     Some \<lparr> alt = JStr ''Shoe'', url = ''https://shop.exampleundefined'', uuid = ''0b6f1c9e'',
            origin = ''https://shop.exampleundefined'' \<rparr>"
    by (simp add: productImage_def Let_def demoResolverEnv_def)
  have g: "originImage \<lparr> name = JStr ''Shoe'', originImage = FStr ''/shoe.png'' \<rparr> \<noteq> FStr []"
    by simp
  from productImage_never_null [of demoResolverEnv
      "\<lparr> name = JStr ''Shoe'', originImage = FStr ''/shoe.png'' \<rparr>",
      THEN conjunct2, THEN conjunct2, THEN conjunct2, THEN conjunct2, THEN conjunct1, THEN mp, OF g]
  obtain img2 where
    "productImage demoResolverEnv \<lparr> name = JStr ''Shoe'', originImage = FStr ''/shoe.png'' \<rparr> =
      Some img2"
    by (elim exE conjE)
  then have b: "productImage demoResolverEnv
      \<lparr> name = JStr ''Shoe'', originImage = FStr ''/shoe.png'' \<rparr> =
     Some \<lparr> alt = JStr ''Shoe'', url = ''https://shop.example/shoe.png'', uuid = ''0b6f1c9e'',
            origin = ''https://shop.example/shoe.png'' \<rparr>"
    by (simp add: productImage_def Let_def demoResolverEnv_def startsWith_def)
  show ?thesis
    by (rule conjI [OF a [THEN conjunct1] conjI [OF a [THEN conjunct2] conjI [OF g b]]])
qed

section \<open>Properties of the translation loader\<close>























section \<open>Properties of the registry\<close>

lemma pointOf_addProcessor:
  "\<not> registryLocked reg \<Longrightarrow>
   pointOf (snd (addProcessor n fn pri reg)) m =
     (if m = n then (pointOf reg n)\<lparr> processors := processors (pointOf reg n) @ [(fn, pri)] \<rparr>
      else pointOf reg m)"
  by (simp add: addProcessor_def pointOf_def)

lemma pointOf_addFinalProcessor:
  "\<not> registryLocked reg \<Longrightarrow>
   pointOf (snd (addFinalProcessor n fn reg)) m =
     (if m = n then (pointOf reg n)\<lparr> finalProcessor := Some fn \<rparr> else pointOf reg m)"
  by (simp add: addFinalProcessor_def pointOf_def)

lemma addProcessor_unlocked:
  "\<not> registryLocked reg \<Longrightarrow> fst (addProcessor n fn pri reg) = None \<and>
     \<not> registryLocked (snd (addProcessor n fn pri reg))"
  by (simp add: addProcessor_def)

lemma addFinalProcessor_unlocked:
  "\<not> registryLocked reg \<Longrightarrow> fst (addFinalProcessor n fn reg) = None \<and>
     \<not> registryLocked (snd (addFinalProcessor n fn reg))"
  by (simp add: addFinalProcessor_def)

lemma pointOf_lockRegistry: "pointOf (lockRegistry reg) n = pointOf reg n"
  by (simp add: lockRegistry_def pointOf_def)

lemma callsInOrder_ok: "c s = (None, s') \<Longrightarrow> callsInOrder (c # cs) s = callsInOrder cs s'"
  by simp

lemma callsInOrder_single: "callsInOrder [c] s = c s"
  by (cases "c s") (auto split: option.splits)

lemma checkoutBootstrap_unlocked:
  assumes "\<not> registryLocked reg"
  shows "fst (checkoutBootstrap deps reg) = None"
    and "\<not> registryLocked (snd (checkoutBootstrap deps reg))"
    and "pointOf (snd (checkoutBootstrap deps reg)) ''cartFields'' =
           \<lparr> processors = processors (pointOf reg ''cartFields'') @ [(registerCartBaseFields deps, 0)],
             finalProcessor = Some (sortFieldsFinal deps) \<rparr>"
  using assms
  by (simp_all add: checkoutBootstrap_def addProcessor_def addFinalProcessor_def pointOf_def)

lemma pointOf_empty: "pointOf emptyRegistry n = \<lparr> processors = [], finalProcessor = None \<rparr>"
  by (simp add: pointOf_def emptyRegistry_def)

lemma runProcessors_lockRegistry:
  "runProcessors n v (lockRegistry reg) = runProcessors n v reg"
  by (simp add: runProcessors_def pointOf_lockRegistry)

lemma foldProcessors_pure:
  "foldProcessors (map pureProcessor gs) v = (Inr (fold (\<lambda>g acc. g acc) gs v), [])"
  by (induction gs arbitrary: v) (simp_all add: pureProcessor_def)

lemma runProcessors_ordered:
  "\<exists>ordered.
     mset ordered = mset (processors (pointOf reg P)) \<and>
     sorted (map snd ordered) \<and>
     (\<forall>k. filter (\<lambda>x. snd x = k) ordered = filter (\<lambda>x. snd x = k) (processors (pointOf reg P))) \<and>
     runProcessors P v0 reg =
       applyFinal (finalProcessor (pointOf reg P)) (foldProcessors (map fst ordered) v0)"
proof -
  let ?ordered = "sort_key snd (processors (pointOf reg P))"
  have "mset ?ordered = mset (processors (pointOf reg P))" by simp
  moreover have "sorted (map snd ?ordered)" by (rule sorted_sort_key)
  moreover have "\<forall>k. filter (\<lambda>x. snd x = k) ?ordered =
      filter (\<lambda>x. snd x = k) (processors (pointOf reg P))"
    by (simp add: sort_key_stable)
  moreover have "runProcessors P v0 reg =
      applyFinal (finalProcessor (pointOf reg P)) (foldProcessors (map fst ?ordered) v0)"
    by (simp add: runProcessors_def orderedProcessors_def)
  ultimately show ?thesis by blast
qed

lemma cartFields_checkout_then_other:
  "pointOf (snd (callsInOrder [checkoutBootstrap deps, addProcessor ''cartFields'' f2 5]
                   emptyRegistry)) ''cartFields'' =
     \<lparr> processors = [(registerCartBaseFields deps, 0), (f2, 5)],
       finalProcessor = Some (sortFieldsFinal deps) \<rparr>"
proof -
  have u: "\<not> registryLocked (emptyRegistry :: 'a registry)" by (simp add: emptyRegistry_def)
  obtain regA where a: "checkoutBootstrap deps emptyRegistry = (None, regA)"
    using checkoutBootstrap_unlocked(1) [OF u, of deps]
    by (cases "checkoutBootstrap deps (emptyRegistry :: 'a registry)") auto
  have ua: "\<not> registryLocked regA"
    using checkoutBootstrap_unlocked(2) [OF u, of deps] a by simp
  have pa: "pointOf regA ''cartFields'' =
      \<lparr> processors = [(registerCartBaseFields deps, 0)],
        finalProcessor = Some (sortFieldsFinal deps) \<rparr>"
    using checkoutBootstrap_unlocked(3) [OF u, of deps] a by (simp add: pointOf_empty)
  have eq: "callsInOrder [checkoutBootstrap deps, addProcessor ''cartFields'' f2 5] emptyRegistry =
      addProcessor ''cartFields'' f2 5 regA"
    by (simp only: callsInOrder_ok [of "checkoutBootstrap deps" emptyRegistry regA, OF a]
        callsInOrder_single)
  have "pointOf (snd (addProcessor ''cartFields'' f2 5 regA)) ''cartFields'' =
     \<lparr> processors = [(registerCartBaseFields deps, 0), (f2, 5)],
       finalProcessor = Some (sortFieldsFinal deps) \<rparr>"
    using ua pa by (simp add: pointOf_addProcessor)
  then show ?thesis by (simp only: eq)
qed

lemma cartFields_other_then_checkout:
  "pointOf (snd (callsInOrder [addProcessor ''cartFields'' f2 5, checkoutBootstrap deps]
                   emptyRegistry)) ''cartFields'' =
     \<lparr> processors = [(f2, 5), (registerCartBaseFields deps, 0)],
       finalProcessor = Some (sortFieldsFinal deps) \<rparr>"
proof -
  have u: "\<not> registryLocked (emptyRegistry :: 'a registry)" by (simp add: emptyRegistry_def)
  let ?regB = "snd (addProcessor ''cartFields'' f2 5 (emptyRegistry :: 'a registry))"
  have b: "addProcessor ''cartFields'' f2 5 (emptyRegistry :: 'a registry) = (None, ?regB)"
    using u by (simp add: addProcessor_def)
  have ub: "\<not> registryLocked ?regB"
    using u by (simp add: addProcessor_unlocked)
  have pb: "pointOf ?regB ''cartFields'' = \<lparr> processors = [(f2, 5)], finalProcessor = None \<rparr>"
    using u by (simp add: pointOf_addProcessor pointOf_empty)
  have eq: "callsInOrder [addProcessor ''cartFields'' f2 5, checkoutBootstrap deps] emptyRegistry =
      checkoutBootstrap deps ?regB"
    by (simp only: callsInOrder_ok [of "addProcessor ''cartFields'' f2 5" emptyRegistry ?regB, OF b]
        callsInOrder_single)
  have "pointOf (snd (checkoutBootstrap deps ?regB)) ''cartFields'' =
     \<lparr> processors = [(f2, 5), (registerCartBaseFields deps, 0)],
       finalProcessor = Some (sortFieldsFinal deps) \<rparr>"
    using checkoutBootstrap_unlocked(3) [OF ub, of deps] pb by simp
  then show ?thesis by (simp only: eq)
qed

lemma sorted_two_processors:
  "map fst (sort_key snd [(f1, 0::int), (f2, 5)]) = [f1, f2]"
  "map fst (sort_key snd [(f2, 5::int), (f1, 0)]) = [f1, f2]"
  by simp_all

lemma cartFields_after_checkout:
  assumes "\<not> registryLocked reg"
  shows "runProcessors ''cartFields'' v0 (lockRegistry (snd (checkoutBootstrap deps reg))) =
        applyFinal (Some (sortFieldsFinal deps))
          (foldProcessors
             (map fst (sort_key snd
                (processors (pointOf reg ''cartFields'') @ [(registerCartBaseFields deps, 0)])))
             v0)"
  unfolding runProcessors_lockRegistry
  unfolding runProcessors_def orderedProcessors_def checkoutBootstrap_unlocked(3) [OF assms]
  by (simp only: extensionPoint.simps)

text \<open>
  C2. For every extension point \<open>P\<close> and every initial value \<open>v0\<close>,
  \<open>runProcessors(P, v0)\<close> folds the registered processors sequentially over \<open>v0\<close> in
  an order that is a rearrangement of the registrations, ascending in priority and, among
  equal priorities, the registration order; it then applies the final processor once, if
  there is one, and returns its result. After the checkout bootstrap has run on an unlocked
  registry, \<open>runProcessors('cartFields', v0)\<close> is the checkout module's final processor
  (\<open>sortFields\<close>) applied to the fold of the registered \<open>cartFields\<close> processors.
  With one more module registering \<open>f2\<close> at priority 5, before or after the checkout
  module, the fold is \<open>f1\<close> then \<open>f2\<close>, and when the three functions neither throw nor
  log the result is \<open>sortFields(f2(f1(v0)))\<close>.
\<close>

theorem runProcessors_priority_fold:
  "(\<exists>ordered.
      mset ordered = mset (processors (pointOf reg P)) \<and>
      sorted (map snd ordered) \<and>
      (\<forall>k. filter (\<lambda>x. snd x = k) ordered =
           filter (\<lambda>x. snd x = k) (processors (pointOf reg P))) \<and>
      runProcessors P v0 reg =
        applyFinal (finalProcessor (pointOf reg P)) (foldProcessors (map fst ordered) v0)) \<and>
   (\<not> registryLocked reg \<longrightarrow>
      runProcessors ''cartFields'' v0 (lockRegistry (snd (checkoutBootstrap deps reg))) =
        applyFinal (Some (sortFieldsFinal deps))
          (foldProcessors
             (map fst (sort_key snd
                (processors (pointOf reg ''cartFields'') @ [(registerCartBaseFields deps, 0)])))
             v0)) \<and>
   runProcessors ''cartFields'' v0
      (lockRegistry (snd (callsInOrder
         [checkoutBootstrap deps, addProcessor ''cartFields'' f2 5] emptyRegistry))) =
     applyFinal (Some (sortFieldsFinal deps))
       (foldProcessors [registerCartBaseFields deps, f2] v0) \<and>
   runProcessors ''cartFields'' v0
      (lockRegistry (snd (callsInOrder
         [addProcessor ''cartFields'' f2 5, checkoutBootstrap deps] emptyRegistry))) =
     applyFinal (Some (sortFieldsFinal deps))
       (foldProcessors [registerCartBaseFields deps, f2] v0) \<and>
   (registerCartBaseFields deps = pureProcessor g1 \<and> f2 = pureProcessor g2 \<and>
    sortFields deps = (\<lambda>v. Inr (srt v)) \<longrightarrow>
      runProcessors ''cartFields'' v0
        (lockRegistry (snd (callsInOrder
           [checkoutBootstrap deps, addProcessor ''cartFields'' f2 5] emptyRegistry))) =
        (Inr (srt (g2 (g1 v0))), []) \<and>
      runProcessors ''cartFields'' v0
        (lockRegistry (snd (callsInOrder
           [addProcessor ''cartFields'' f2 5, checkoutBootstrap deps] emptyRegistry))) =
        (Inr (srt (g2 (g1 v0))), []))"
proof -
  have r1: "runProcessors ''cartFields'' v0
      (lockRegistry (snd (callsInOrder
         [checkoutBootstrap deps, addProcessor ''cartFields'' f2 5] emptyRegistry))) =
     applyFinal (Some (sortFieldsFinal deps))
       (foldProcessors [registerCartBaseFields deps, f2] v0)"
    unfolding runProcessors_lockRegistry
    unfolding runProcessors_def orderedProcessors_def cartFields_checkout_then_other
    by (simp only: extensionPoint.simps sorted_two_processors)
  have r2: "runProcessors ''cartFields'' v0
      (lockRegistry (snd (callsInOrder
         [addProcessor ''cartFields'' f2 5, checkoutBootstrap deps] emptyRegistry))) =
     applyFinal (Some (sortFieldsFinal deps))
       (foldProcessors [registerCartBaseFields deps, f2] v0)"
    unfolding runProcessors_lockRegistry
    unfolding runProcessors_def orderedProcessors_def cartFields_other_then_checkout
    by (simp only: extensionPoint.simps sorted_two_processors)
  have pure: "registerCartBaseFields deps = pureProcessor g1 \<and> f2 = pureProcessor g2 \<and>
      sortFields deps = (\<lambda>v. Inr (srt v)) \<Longrightarrow>
    applyFinal (Some (sortFieldsFinal deps))
       (foldProcessors [registerCartBaseFields deps, f2] v0) = (Inr (srt (g2 (g1 v0))), [])"
    by (simp add: applyFinal_def sortFieldsFinal_def pureProcessor_def)
  show ?thesis
  proof (intro conjI impI)
    show "\<exists>ordered.
      mset ordered = mset (processors (pointOf reg P)) \<and>
      sorted (map snd ordered) \<and>
      (\<forall>k. filter (\<lambda>x. snd x = k) ordered =
           filter (\<lambda>x. snd x = k) (processors (pointOf reg P))) \<and>
      runProcessors P v0 reg =
        applyFinal (finalProcessor (pointOf reg P)) (foldProcessors (map fst ordered) v0)"
      by (rule runProcessors_ordered)
  next
    assume "\<not> registryLocked reg"
    then show "runProcessors ''cartFields'' v0 (lockRegistry (snd (checkoutBootstrap deps reg))) =
        applyFinal (Some (sortFieldsFinal deps))
          (foldProcessors
             (map fst (sort_key snd
                (processors (pointOf reg ''cartFields'') @ [(registerCartBaseFields deps, 0)])))
             v0)"
      by (rule cartFields_after_checkout)
  next
    assume h: "registerCartBaseFields deps = pureProcessor g1 \<and> f2 = pureProcessor g2 \<and>
      sortFields deps = (\<lambda>v. Inr (srt v))"
    show "runProcessors ''cartFields'' v0
        (lockRegistry (snd (callsInOrder
           [checkoutBootstrap deps, addProcessor ''cartFields'' f2 5] emptyRegistry))) =
        (Inr (srt (g2 (g1 v0))), [])"
      by (simp only: r1 pure [OF h])
  next
    assume h: "registerCartBaseFields deps = pureProcessor g1 \<and> f2 = pureProcessor g2 \<and>
      sortFields deps = (\<lambda>v. Inr (srt v))"
    show "runProcessors ''cartFields'' v0
        (lockRegistry (snd (callsInOrder
           [addProcessor ''cartFields'' f2 5, checkoutBootstrap deps] emptyRegistry))) =
        (Inr (srt (g2 (g1 v0))), [])"
      by (simp only: r2 pure [OF h])
  qed (rule r1 r2)+
qed

theorem runProcessors_priority_fold_witness:
  "runProcessors ''cartFields'' []
     (lockRegistry (snd (callsInOrder
        [addProcessor ''cartFields'' (pureProcessor (\<lambda>fs. fs @ [20])) 5,
         checkoutBootstrap demoCheckoutDeps] emptyRegistry))) =
   (Inr [10, 20, 30], [])"
proof -
  have h: "registerCartBaseFields demoCheckoutDeps = pureProcessor (\<lambda>fs. fs @ [30, 10]) \<and>
      pureProcessor (\<lambda>fs. fs @ [20 :: nat]) = pureProcessor (\<lambda>fs. fs @ [20]) \<and>
      sortFields demoCheckoutDeps = (\<lambda>v. Inr (sort v))"
    by (simp add: demoCheckoutDeps_def)
  have "runProcessors ''cartFields'' []
     (lockRegistry (snd (callsInOrder
        [addProcessor ''cartFields'' (pureProcessor (\<lambda>fs. fs @ [20])) 5,
         checkoutBootstrap demoCheckoutDeps] emptyRegistry))) =
     (Inr (sort (([] @ [30, 10]) @ [20])), [])"
    using runProcessors_priority_fold
      [of "emptyRegistry :: nat list registry" "''cartFields''" "[]" demoCheckoutDeps
        "pureProcessor (\<lambda>fs. fs @ [20])" "\<lambda>fs. fs @ [30, 10]" "\<lambda>fs. fs @ [20]" sort] h
    by blast
  then show ?thesis by (simp only:) simp
qed

section \<open>Properties of the build command\<close>

subsection \<open>The shape of a run\<close>

lemma loadRoutes_append:
  "loadRoutes env (xs @ ys) t =
     (case loadRoutes env xs t of
        (evs, Inl stopped) \<Rightarrow> (evs, Inl stopped)
      | (evs, Inr t') \<Rightarrow> (case loadRoutes env ys t' of (evs', r) \<Rightarrow> (evs @ evs', r)))"
  by (induction xs arbitrary: t) (auto split: prod.splits option.splits sum.splits)

lemma loadRoutes_ok: "loadRoutes env ms t = (evs, Inr t') \<Longrightarrow> evs = routeTrace ms"
  by (induction ms arbitrary: t evs)
    (auto simp: routeTrace_def split: prod.splits option.splits sum.splits)

lemma loadRoutes_stopped:
  "loadRoutes env ms t = (evs, Inl stopped) \<Longrightarrow>
   stopped = Exited 0 \<and>
   (\<exists>ms1 m ms2 e. ms = ms1 @ m # ms2 \<and> evs = routeTrace (ms1 @ [m]) @ [EvError e, EvExit 0])"
proof (induction ms arbitrary: t evs)
  case Nil
  then show ?case by simp
next
  case (Cons m ms)
  show ?case
  proof (cases "loadModuleRoutes env (path m) t")
    case (Pair r t')
    show ?thesis
    proof (cases r)
      case (Some e)
      with Pair Cons.prems have "stopped = Exited 0"
        and "evs = routeTrace ([] @ [m]) @ [EvError e, EvExit 0]"
        by (auto simp: routeTrace_def)
      then show ?thesis by blast
    next
      case None
      obtain evs' r' where rest: "loadRoutes env ms t' = (evs', r')"
        by (cases "loadRoutes env ms t'")
      with Pair None Cons.prems have evs: "evs = EvLoadModuleRoutes (path m) # evs'"
        and r': "r' = Inl stopped"
        by auto
      from Cons.IH [of t' evs'] rest r' obtain ms1 m' ms2 e where
        "stopped = Exited 0" "ms = ms1 @ m' # ms2"
        "evs' = routeTrace (ms1 @ [m']) @ [EvError e, EvExit 0]"
        by blast
      then have "m # ms = (m # ms1) @ m' # ms2"
        and "evs = routeTrace ((m # ms1) @ [m']) @ [EvError e, EvExit 0]"
        using evs by (simp_all add: routeTrace_def)
      with \<open>stopped = Exited 0\<close> show ?thesis by blast
    qed
  qed
qed

lemma loadBootstraps_append:
  "loadBootstraps env (xs @ ys) k =
     (case loadBootstraps env xs k of
        (evs, Inl e) \<Rightarrow> (evs, Inl e)
      | (evs, Inr k') \<Rightarrow> (case loadBootstraps env ys k' of (evs', r) \<Rightarrow> (evs @ evs', r)))"
  by (induction xs arbitrary: k) (auto split: prod.splits option.splits sum.splits)

lemma loadBootstraps_ok: "loadBootstraps env ms k = (evs, Inr k') \<Longrightarrow> evs = bootstrapTrace ms"
  by (induction ms arbitrary: k evs)
    (auto simp: bootstrapTrace_def split: prod.splits option.splits sum.splits)

lemma loadBootstraps_thrown:
  "loadBootstraps env ms k = (evs, Inl e) \<Longrightarrow>
   \<exists>ms1 m ms2. ms = ms1 @ m # ms2 \<and> evs = bootstrapTrace (ms1 @ [m])"
proof (induction ms arbitrary: k evs)
  case Nil
  then show ?case by simp
next
  case (Cons m ms)
  show ?case
  proof (cases "loadBootstrapScript env m k")
    case (Pair r k')
    show ?thesis
    proof (cases r)
      case (Some e')
      with Pair Cons.prems have "evs = bootstrapTrace ([] @ [m])"
        by (auto simp: bootstrapTrace_def)
      then show ?thesis by blast
    next
      case None
      obtain evs' r' where rest: "loadBootstraps env ms k' = (evs', r')"
        by (cases "loadBootstraps env ms k'")
      with Pair None Cons.prems
      have evs: "evs = EvBootstrapStart m # EvBootstrapSettled m # evs'" and r': "r' = Inl e"
        by auto
      from Cons.IH [of k' evs'] rest r' obtain ms1 m' ms2 where
        "ms = ms1 @ m' # ms2" "evs' = bootstrapTrace (ms1 @ [m'])"
        by blast
      then have "m # ms = (m # ms1) @ m' # ms2" and "evs = bootstrapTrace ((m # ms1) @ [m'])"
        using evs by (simp_all add: bootstrapTrace_def)
      then show ?thesis by blast
    qed
  qed
qed

lemma cleanBuildDir_ok:
  "cleanBuildDir env = (evs, None) \<Longrightarrow>
   evs = [EvExistsSync, EvRmSync, EvMkdirSync False] \<or> evs = [EvExistsSync, EvMkdirSync True]"
  by (auto simp: cleanBuildDir_def split: if_splits option.splits)

lemma cleanBuildDir_failed:
  "cleanBuildDir env = (evs, Some stopped) \<Longrightarrow>
   (\<exists>e. stopped = Uncaught e) \<and>
   (evs = [EvExistsSync, EvRmSync] \<or> evs = [EvExistsSync, EvRmSync, EvMkdirSync False] \<or>
    evs = [EvExistsSync, EvMkdirSync True])"
  by (auto simp: cleanBuildDir_def split: if_splits option.splits)

lemma tryBootstrap_cases:
  obtains
    (thrown) ms1 m ms2 e where "modules env = ms1 @ m # ms2"
      "loadBootstraps env (modules env) k = (bootstrapTrace (ms1 @ [m]), Inl e)"
      "tryBootstrap env k = (bootstrapTrace (ms1 @ [m]), Inl e)"
  | (invalid) k' e where "loadBootstraps env (modules env) k = (bootstrapTrace (modules env), Inr k')"
      "validateConfiguration env (lockKernel k') = Some e"
      "tryBootstrap env k = (bootstrapTrace (modules env) @ lockTrace, Inl e)"
  | (locked) k' where "loadBootstraps env (modules env) k = (bootstrapTrace (modules env), Inr k')"
      "validateConfiguration env (lockKernel k') = None"
      "tryBootstrap env k = (bootstrapTrace (modules env) @ lockTrace, Inr (lockKernel k'))"
proof -
  obtain evs r where lb: "loadBootstraps env (modules env) k = (evs, r)"
    by (cases "loadBootstraps env (modules env) k")
  show thesis
  proof (cases r)
    case (Inl e)
    with lb obtain ms1 m ms2 where "modules env = ms1 @ m # ms2" "evs = bootstrapTrace (ms1 @ [m])"
      using loadBootstraps_thrown [of env "modules env" k evs e] by blast
    with lb Inl show thesis
      by (intro thrown [of ms1 m ms2 e]) (simp_all add: tryBootstrap_def)
  next
    case (Inr k')
    with lb have evs: "evs = bootstrapTrace (modules env)"
      using loadBootstraps_ok by blast
    show thesis
    proof (cases "validateConfiguration env (lockKernel k')")
      case None
      with lb Inr evs show thesis
        by (intro locked [of k']) (simp_all add: tryBootstrap_def lockTrace_def)
    next
      case (Some e)
      with lb Inr evs show thesis
        by (intro invalid [of k' e]) (simp_all add: tryBootstrap_def lockTrace_def)
    qed
  qed
qed

lemma defaultExport_cases:
  obtains
    (thrown) ms1 m ms2 e where "modules env = ms1 @ m # ms2"
      "loadBootstraps env (modules env) (kernel w) = (bootstrapTrace (ms1 @ [m]), Inl e)"
      "defaultExport env w = (bootstrapTrace (ms1 @ [m]) @ [EvError e, EvExit 0], Exited 0)"
  | (invalid) k' e where
      "loadBootstraps env (modules env) (kernel w) = (bootstrapTrace (modules env), Inr k')"
      "validateConfiguration env (lockKernel k') = Some e"
      "defaultExport env w =
         (bootstrapTrace (modules env) @ lockTrace @ [EvError e, EvExit 0], Exited 0)"
  | (entry_failed) k' e where
      "loadBootstraps env (modules env) (kernel w) = (bootstrapTrace (modules env), Inr k')"
      "validateConfiguration env (lockKernel k') = None"
      "buildEntry env (filter (isBuildRequired env) (getRoutes env (routeTable w))) = Some e"
      "defaultExport env w =
         (bootstrapTrace (modules env) @ lockTrace @ gateTrace (getRoutes env (routeTable w)) @
            [EvBuildEntry (filter (isBuildRequired env) (getRoutes env (routeTable w)))],
          Uncaught e)"
  | (compile_failed) k' e where
      "loadBootstraps env (modules env) (kernel w) = (bootstrapTrace (modules env), Inr k')"
      "validateConfiguration env (lockKernel k') = None"
      "buildEntry env (filter (isBuildRequired env) (getRoutes env (routeTable w))) = None"
      "compile env (getRoutes env (routeTable w)) = Some e"
      "defaultExport env w =
         (bootstrapTrace (modules env) @ lockTrace @ gateTrace (getRoutes env (routeTable w)) @
            [EvBuildEntry (filter (isBuildRequired env) (getRoutes env (routeTable w))),
             EvCompile (getRoutes env (routeTable w))],
          Uncaught e)"
  | (completed) k' where
      "loadBootstraps env (modules env) (kernel w) = (bootstrapTrace (modules env), Inr k')"
      "validateConfiguration env (lockKernel k') = None"
      "buildEntry env (filter (isBuildRequired env) (getRoutes env (routeTable w))) = None"
      "compile env (getRoutes env (routeTable w)) = None"
      "defaultExport env w =
         (bootstrapTrace (modules env) @ lockTrace @ gateTrace (getRoutes env (routeTable w)) @
            [EvBuildEntry (filter (isBuildRequired env) (getRoutes env (routeTable w))),
             EvCompile (getRoutes env (routeTable w))],
          Completed (w\<lparr> kernel := lockKernel k', ALLOW_CONFIG_MUTATIONS := Some ''false'' \<rparr>))"
proof (cases rule: tryBootstrap_cases [of env "kernel w"])
  case (thrown ms1 m ms2 e)
  then show thesis
    by (intro that(1) [of ms1 m ms2 e]) (simp_all add: defaultExport_def)
next
  case (invalid k' e)
  then show thesis
    by (intro that(2) [of k' e]) (simp_all add: defaultExport_def)
next
  case (locked k')
  show thesis
  proof (cases "buildEntry env (filter (isBuildRequired env) (getRoutes env (routeTable w)))")
    case (Some e)
    with locked show thesis
      by (intro that(3) [of k' e]) (simp_all add: defaultExport_def Let_def gateTrace_def)
  next
    case None
    show thesis
    proof (cases "compile env (getRoutes env (routeTable w))")
      case (Some e)
      with locked None show thesis
        by (intro that(4) [of k' e]) (simp_all add: defaultExport_def Let_def gateTrace_def)
    next
      case None': None
      with locked None show thesis
        by (intro that(5) [of k']) (simp_all add: defaultExport_def Let_def gateTrace_def)
    qed
  qed
qed

text \<open>The seven ways a run can go, each with its trace.\<close>

lemma build_cases:
  obtains
    (routes_failed) ms1 m ms2 e where "modules env = ms1 @ m # ms2"
      "loadRoutes env (modules env) (routeTable w) =
         (routeTrace (ms1 @ [m]) @ [EvError e, EvExit 0], Inl (Exited 0))"
      "build env w = (routeTrace (ms1 @ [m]) @ [EvError e, EvExit 0], Exited 0)"
  | (clean_failed) t evs2 e where
      "loadRoutes env (modules env) (routeTable w) = (routeTrace (modules env), Inr t)"
      "cleanBuildDir env = (evs2, Some (Uncaught e))"
      "build env w = (routeTrace (modules env) @ evs2, Uncaught e)"
  | (bootstrap_thrown) t evs2 ms1 m ms2 e where
      "loadRoutes env (modules env) (routeTable w) = (routeTrace (modules env), Inr t)"
      "cleanBuildDir env = (evs2, None)"
      "modules env = ms1 @ m # ms2"
      "loadBootstraps env (modules env) (kernel w) = (bootstrapTrace (ms1 @ [m]), Inl e)"
      "build env w =
         (routeTrace (modules env) @ evs2 @ bootstrapTrace (ms1 @ [m]) @ [EvError e, EvExit 0],
          Exited 0)"
  | (invalid) t evs2 k' e where
      "loadRoutes env (modules env) (routeTable w) = (routeTrace (modules env), Inr t)"
      "cleanBuildDir env = (evs2, None)"
      "loadBootstraps env (modules env) (kernel w) = (bootstrapTrace (modules env), Inr k')"
      "validateConfiguration env (lockKernel k') = Some e"
      "build env w =
         (routeTrace (modules env) @ evs2 @ bootstrapTrace (modules env) @ lockTrace @
            [EvError e, EvExit 0],
          Exited 0)"
  | (entry_failed) t evs2 k' e where
      "loadRoutes env (modules env) (routeTable w) = (routeTrace (modules env), Inr t)"
      "cleanBuildDir env = (evs2, None)"
      "loadBootstraps env (modules env) (kernel w) = (bootstrapTrace (modules env), Inr k')"
      "validateConfiguration env (lockKernel k') = None"
      "buildEntry env (filter (isBuildRequired env) (getRoutes env t)) = Some e"
      "build env w =
         (routeTrace (modules env) @ evs2 @ bootstrapTrace (modules env) @ lockTrace @
            gateTrace (getRoutes env t) @
            [EvBuildEntry (filter (isBuildRequired env) (getRoutes env t))],
          Uncaught e)"
  | (compile_failed) t evs2 k' e where
      "loadRoutes env (modules env) (routeTable w) = (routeTrace (modules env), Inr t)"
      "cleanBuildDir env = (evs2, None)"
      "loadBootstraps env (modules env) (kernel w) = (bootstrapTrace (modules env), Inr k')"
      "validateConfiguration env (lockKernel k') = None"
      "buildEntry env (filter (isBuildRequired env) (getRoutes env t)) = None"
      "compile env (getRoutes env t) = Some e"
      "build env w =
         (routeTrace (modules env) @ evs2 @ bootstrapTrace (modules env) @ lockTrace @
            gateTrace (getRoutes env t) @
            [EvBuildEntry (filter (isBuildRequired env) (getRoutes env t)),
             EvCompile (getRoutes env t)],
          Uncaught e)"
  | (completed) t evs2 k' where
      "loadRoutes env (modules env) (routeTable w) = (routeTrace (modules env), Inr t)"
      "cleanBuildDir env = (evs2, None)"
      "loadBootstraps env (modules env) (kernel w) = (bootstrapTrace (modules env), Inr k')"
      "validateConfiguration env (lockKernel k') = None"
      "buildEntry env (filter (isBuildRequired env) (getRoutes env t)) = None"
      "compile env (getRoutes env t) = None"
      "build env w =
         (routeTrace (modules env) @ evs2 @ bootstrapTrace (modules env) @ lockTrace @
            gateTrace (getRoutes env t) @
            [EvBuildEntry (filter (isBuildRequired env) (getRoutes env t)),
             EvCompile (getRoutes env t)],
          Completed (w\<lparr> routeTable := t, kernel := lockKernel k',
                       ALLOW_CONFIG_MUTATIONS := Some ''false'' \<rparr>))"
proof -
  obtain evs1 r1 where lr: "loadRoutes env (modules env) (routeTable w) = (evs1, r1)"
    by (cases "loadRoutes env (modules env) (routeTable w)")
  show thesis
  proof (cases r1)
    case (Inl stopped)
    have lr2: "loadRoutes env (modules env) (routeTable w) = (evs1, Inl stopped)"
      by (simp only: lr Inl)
    from loadRoutes_stopped [OF lr2]
    obtain ms1 m ms2 e where st: "stopped = Exited 0" and ms: "modules env = ms1 @ m # ms2"
      and evs1: "evs1 = routeTrace (ms1 @ [m]) @ [EvError e, EvExit 0]"
      by blast
    have "build env w = (evs1, stopped)"
      by (simp add: build_def lr2)
    then have b: "build env w = (routeTrace (ms1 @ [m]) @ [EvError e, EvExit 0], Exited 0)"
      by (simp only: st evs1)
    have "loadRoutes env (modules env) (routeTable w) =
         (routeTrace (ms1 @ [m]) @ [EvError e, EvExit 0], Inl (Exited 0))"
      using lr2 by (simp only: st evs1)
    with ms show thesis using b by (rule routes_failed)
  next
    case (Inr t)
    have lr1: "loadRoutes env (modules env) (routeTable w) = (evs1, Inr t)"
      by (simp only: lr Inr)
    have evs1: "evs1 = routeTrace (modules env)"
      using lr1 by (rule loadRoutes_ok)
    have lr': "loadRoutes env (modules env) (routeTable w) = (routeTrace (modules env), Inr t)"
      using lr1 by (simp only: evs1)
    obtain evs2 r2 where cb: "cleanBuildDir env = (evs2, r2)"
      by (cases "cleanBuildDir env")
    show thesis
    proof (cases r2)
      case (Some stopped)
      have cb1: "cleanBuildDir env = (evs2, Some stopped)"
        by (simp only: cb Some)
      from cleanBuildDir_failed [OF cb1] obtain e where st: "stopped = Uncaught e"
        by blast
      have cb': "cleanBuildDir env = (evs2, Some (Uncaught e))"
        using cb1 by (simp only: st)
      have "build env w = (routeTrace (modules env) @ evs2, Uncaught e)"
        by (simp add: build_def lr' cb')
      with lr' cb' show thesis by (rule clean_failed)
    next
      case None
      have cb': "cleanBuildDir env = (evs2, None)"
        by (simp only: cb None)
      have kw: "kernel (w\<lparr> routeTable := t \<rparr>) = kernel w"
        and rw: "routeTable (w\<lparr> routeTable := t \<rparr>) = t"
        by simp_all
      have b: "build env w =
          (routeTrace (modules env) @ evs2 @ fst (defaultExport env (w\<lparr> routeTable := t \<rparr>)),
           snd (defaultExport env (w\<lparr> routeTable := t \<rparr>)))"
        by (simp add: build_def lr' cb' split: prod.splits)
      show thesis
      proof (cases rule: defaultExport_cases [of env "w\<lparr> routeTable := t \<rparr>"])
        case (thrown ms1 m ms2 e)
        have "build env w =
            (routeTrace (modules env) @ evs2 @ bootstrapTrace (ms1 @ [m]) @ [EvError e, EvExit 0],
             Exited 0)"
          by (simp only: b thrown(3) fst_conv snd_conv)
        then show ?thesis
          by (rule bootstrap_thrown [OF lr' cb' thrown(1) thrown(2) [unfolded kw]])
      next
        case (invalid k' e)
        have "build env w =
            (routeTrace (modules env) @ evs2 @ bootstrapTrace (modules env) @ lockTrace @
               [EvError e, EvExit 0],
             Exited 0)"
          by (simp only: b invalid(3) fst_conv snd_conv)
        then show ?thesis
          by (rule that(4) [OF lr' cb' invalid(1) [unfolded kw] invalid(2)])
      next
        case (entry_failed k' e)
        have "build env w =
            (routeTrace (modules env) @ evs2 @ bootstrapTrace (modules env) @ lockTrace @
               gateTrace (getRoutes env t) @
               [EvBuildEntry (filter (isBuildRequired env) (getRoutes env t))],
             Uncaught e)"
          by (simp only: b entry_failed(4) fst_conv snd_conv rw)
        then show ?thesis
          by (rule that(5) [OF lr' cb' entry_failed(1) [unfolded kw] entry_failed(2)
                entry_failed(3) [unfolded rw]])
      next
        case (compile_failed k' e)
        have "build env w =
            (routeTrace (modules env) @ evs2 @ bootstrapTrace (modules env) @ lockTrace @
               gateTrace (getRoutes env t) @
               [EvBuildEntry (filter (isBuildRequired env) (getRoutes env t)),
                EvCompile (getRoutes env t)],
             Uncaught e)"
          by (simp only: b compile_failed(5) fst_conv snd_conv rw)
        then show ?thesis
          by (rule that(6) [OF lr' cb' compile_failed(1) [unfolded kw] compile_failed(2)
                compile_failed(3) [unfolded rw] compile_failed(4) [unfolded rw]])
      next
        case (completed k')
        have "build env w =
            (routeTrace (modules env) @ evs2 @ bootstrapTrace (modules env) @ lockTrace @
               gateTrace (getRoutes env t) @
               [EvBuildEntry (filter (isBuildRequired env) (getRoutes env t)),
                EvCompile (getRoutes env t)],
             Completed (w\<lparr> routeTable := t, kernel := lockKernel k',
                          ALLOW_CONFIG_MUTATIONS := Some ''false'' \<rparr>))"
          by (simp only: b completed(5) fst_conv snd_conv rw)
        then show ?thesis
          by (rule that(7) [OF lr' cb' completed(1) [unfolded kw] completed(2)
                completed(3) [unfolded rw] completed(4) [unfolded rw]])
      qed
    qed
  qed
qed

subsection \<open>Phases of the pieces of a trace\<close>

lemma phasesOf_append: "phasesOf (xs @ ys) = phasesOf xs @ phasesOf ys"
  by (induction xs) (simp_all split: option.splits)

lemma phasesOf_routeTrace: "phasesOf (routeTrace ms) = replicate (length ms) RouteLoading"
  by (induction ms) (simp_all add: routeTrace_def)

lemma phasesOf_bootstrapTrace:
  "phasesOf (bootstrapTrace ms) = replicate (2 * length ms) BootstrapLoading"
  by (induction ms) (simp_all add: bootstrapTrace_def)

lemma phasesOf_gateTrace: "phasesOf (gateTrace rs) = replicate (Suc (length rs)) BuildGate"
proof -
  have "phasesOf (map EvIsBuildRequired rs) = replicate (length rs) BuildGate"
    by (induction rs) simp_all
  then show ?thesis by (simp add: gateTrace_def)
qed

lemma phasesOf_lockTrace: "phasesOf lockTrace = [Lock, Lock, ConfigValidation]"
  by (simp add: lockTrace_def)

lemma phasesOf_cleanBuildDir:
  "cleanBuildDir env = (evs, r) \<Longrightarrow> phasesOf evs = replicate (length evs) BuildDirCleanup"
  by (auto simp: cleanBuildDir_def split: if_splits option.splits)

lemma inPhase_append: "inPhase p (xs @ ys) = inPhase p xs @ inPhase p ys"
  by (simp add: inPhase_def)

lemma inPhase_routeTrace:
  "inPhase p (routeTrace ms) = (if p = RouteLoading then routeTrace ms else [])"
  by (induction ms) (auto simp: inPhase_def routeTrace_def)

lemma inPhase_bootstrapTrace:
  "inPhase p (bootstrapTrace ms) = (if p = BootstrapLoading then bootstrapTrace ms else [])"
  by (induction ms) (auto simp: inPhase_def bootstrapTrace_def)

lemma inPhase_gateTrace:
  "p \<noteq> BuildGate \<Longrightarrow> inPhase p (gateTrace rs) = []"
  by (induction rs) (auto simp: inPhase_def gateTrace_def)

lemma inPhase_cleanBuildDir:
  "cleanBuildDir env = (evs, r) \<Longrightarrow> p \<noteq> BuildDirCleanup \<Longrightarrow> inPhase p evs = []"
  by (auto simp: cleanBuildDir_def inPhase_def split: if_splits option.splits)

lemma inPhase_lockTrace:
  "inPhase p lockTrace =
     (if p = Lock then [EvLockHooks, EvLockRegistry]
      else if p = ConfigValidation then [EvValidateConfiguration] else [])"
  by (simp add: inPhase_def lockTrace_def)

lemma inPhase_stop: "inPhase p [EvError e, EvExit c] = []"
  by (simp add: inPhase_def)

lemma inPhase_calls:
  "inPhase p [EvBuildEntry a] = (if p = EntryGeneration then [EvBuildEntry a] else [])"
  "inPhase p [EvBuildEntry a, EvCompile b] =
     (if p = EntryGeneration then [EvBuildEntry a] else if p = Compile then [EvCompile b] else [])"
  by (simp_all add: inPhase_def)

lemma inPhase_mem: "phaseOf ev = Some p \<Longrightarrow> (ev \<in> set evs) = (ev \<in> set (inPhase p evs))"
  by (simp add: inPhase_def)

lemmas inPhase_pieces =
  inPhase_append inPhase_routeTrace inPhase_bootstrapTrace inPhase_gateTrace
  inPhase_lockTrace inPhase_stop inPhase_calls

lemma build_in_code_order: "inOrder codeOrder (fst (build env w))"
proof (cases rule: build_cases [of env w])
  case (routes_failed ms1 m ms2 e)
  then show ?thesis
    by (auto simp: inOrder_def phasesOf_append phasesOf_routeTrace)
next
  case (clean_failed t evs2 e)
  then show ?thesis
    by (auto simp: inOrder_def phasesOf_append phasesOf_routeTrace
        phasesOf_cleanBuildDir [OF clean_failed(2)] sorted_append)
next
  case (bootstrap_thrown t evs2 ms1 m ms2 e)
  then show ?thesis
    by (auto simp: inOrder_def phasesOf_append phasesOf_routeTrace phasesOf_bootstrapTrace
        phasesOf_cleanBuildDir [OF bootstrap_thrown(2)] sorted_append)
next
  case (invalid t evs2 k' e)
  then show ?thesis
    by (auto simp: inOrder_def phasesOf_append phasesOf_routeTrace phasesOf_bootstrapTrace
        phasesOf_lockTrace phasesOf_cleanBuildDir [OF invalid(2)] sorted_append)
next
  case (entry_failed t evs2 k' e)
  then show ?thesis
    by (auto simp: inOrder_def phasesOf_append phasesOf_routeTrace phasesOf_bootstrapTrace
        phasesOf_lockTrace phasesOf_gateTrace phasesOf_cleanBuildDir [OF entry_failed(2)]
        sorted_append)
next
  case (compile_failed t evs2 k' e)
  then show ?thesis
    by (auto simp: inOrder_def phasesOf_append phasesOf_routeTrace phasesOf_bootstrapTrace
        phasesOf_lockTrace phasesOf_gateTrace phasesOf_cleanBuildDir [OF compile_failed(2)]
        sorted_append)
next
  case (completed t evs2 k')
  then show ?thesis
    by (auto simp: inOrder_def phasesOf_append phasesOf_routeTrace phasesOf_bootstrapTrace
        phasesOf_lockTrace phasesOf_gateTrace phasesOf_cleanBuildDir [OF completed(2)]
        sorted_append)
qed

lemma lockKernel_locked:
  "registryLocked (registry (lockKernel k)) \<and> hooksLocked (hookTable (lockKernel k))"
  by (simp add: lockKernel_def Let_def lockRegistry_def lockHooks_def)

lemma build_phase_summary:
  obtains
    (stopped_early) ran rest where "modules env = ran @ rest"
      "inPhase BootstrapLoading (fst (build env w)) = bootstrapTrace ran"
      "inPhase Lock (fst (build env w)) = []"
      "inPhase ConfigValidation (fst (build env w)) = []"
      "inPhase EntryGeneration (fst (build env w)) = []"
      "inPhase Compile (fst (build env w)) = []"
      "\<forall>w'. snd (build env w) \<noteq> Completed w'"
      "\<forall>evs1 t evs2 evs3 k.
         \<not> (loadRoutes env (modules env) (routeTable w) = (evs1, Inr t) \<and>
            cleanBuildDir env = (evs2, None) \<and>
            loadBootstraps env (modules env) (kernel w) = (evs3, Inr k))"
  | (locked) t pre post where
      "loadRoutes env (modules env) (routeTable w) = (routeTrace (modules env), Inr t)"
      "fst (build env w) = pre @ lockTrace @ post"
      "inPhase BootstrapLoading pre = bootstrapTrace (modules env)"
      "inPhase BootstrapLoading post = []"
      "inPhase Lock pre = []" "inPhase Lock post = []"
      "inPhase ConfigValidation pre = []" "inPhase ConfigValidation post = []"
      "\<forall>w'. snd (build env w) = Completed w' \<longrightarrow>
         routeTable w' = t \<and> registryLocked (registry (kernel w')) \<and>
         hooksLocked (hookTable (kernel w'))"
proof (cases rule: build_cases [of env w])
  case (routes_failed ms1 m ms2 e)
  have "modules env = [] @ modules env" by simp
  moreover have "\<forall>evs1 t evs2 evs3 k.
         \<not> (loadRoutes env (modules env) (routeTable w) = (evs1, Inr t) \<and>
            cleanBuildDir env = (evs2, None) \<and>
            loadBootstraps env (modules env) (kernel w) = (evs3, Inr k))"
    by (simp add: routes_failed(2))
  ultimately show ?thesis
    using routes_failed(3)
    by (intro stopped_early [of "[]" "modules env"])
      (simp_all add: inPhase_pieces bootstrapTrace_def)
next
  case (clean_failed t evs2 e)
  have "modules env = [] @ modules env" by simp
  then show ?thesis
    using clean_failed
    by (intro stopped_early [of "[]" "modules env"])
      (simp_all add: inPhase_pieces bootstrapTrace_def inPhase_cleanBuildDir [OF clean_failed(2)])
next
  case (bootstrap_thrown t evs2 ms1 m ms2 e)
  have "modules env = (ms1 @ [m]) @ ms2" using bootstrap_thrown(3) by simp
  then show ?thesis
    using bootstrap_thrown(1,2,4,5)
    by (intro stopped_early [of "ms1 @ [m]" ms2])
      (simp_all add: inPhase_pieces inPhase_cleanBuildDir [OF bootstrap_thrown(2)])
next
  case (invalid t evs2 k' e)
  show ?thesis
    using invalid
    by (intro locked [of t "routeTrace (modules env) @ evs2 @ bootstrapTrace (modules env)"
          "[EvError e, EvExit 0]"])
      (simp_all add: inPhase_pieces inPhase_cleanBuildDir [OF invalid(2)])
next
  case (entry_failed t evs2 k' e)
  show ?thesis
    using entry_failed
    by (intro locked [of t "routeTrace (modules env) @ evs2 @ bootstrapTrace (modules env)"
          "gateTrace (getRoutes env t) @
             [EvBuildEntry (filter (isBuildRequired env) (getRoutes env t))]"])
      (simp_all add: inPhase_pieces inPhase_cleanBuildDir [OF entry_failed(2)])
next
  case (compile_failed t evs2 k' e)
  show ?thesis
    using compile_failed
    by (intro locked [of t "routeTrace (modules env) @ evs2 @ bootstrapTrace (modules env)"
          "gateTrace (getRoutes env t) @
             [EvBuildEntry (filter (isBuildRequired env) (getRoutes env t)),
              EvCompile (getRoutes env t)]"])
      (simp_all add: inPhase_pieces inPhase_cleanBuildDir [OF compile_failed(2)])
next
  case (completed t evs2 k')
  show ?thesis
    using completed
    by (intro locked [of t "routeTrace (modules env) @ evs2 @ bootstrapTrace (modules env)"
          "gateTrace (getRoutes env t) @
             [EvBuildEntry (filter (isBuildRequired env) (getRoutes env t)),
              EvCompile (getRoutes env t)]"])
      (simp_all add: inPhase_pieces inPhase_cleanBuildDir [OF completed(2)] lockKernel_locked)
qed

lemma build_calls:
  obtains
    (none) "inPhase EntryGeneration (fst (build env w)) = []"
      "inPhase Compile (fst (build env w)) = []"
      "\<forall>w'. snd (build env w) \<noteq> Completed w'"
  | (entry_only) t where "snd (loadRoutes env (modules env) (routeTable w)) = Inr t"
      "inPhase EntryGeneration (fst (build env w)) =
         [EvBuildEntry (filter (isBuildRequired env) (getRoutes env t))]"
      "inPhase Compile (fst (build env w)) = []"
      "\<forall>w'. snd (build env w) \<noteq> Completed w'"
  | (both) t where "snd (loadRoutes env (modules env) (routeTable w)) = Inr t"
      "inPhase EntryGeneration (fst (build env w)) =
         [EvBuildEntry (filter (isBuildRequired env) (getRoutes env t))]"
      "inPhase Compile (fst (build env w)) = [EvCompile (getRoutes env t)]"
      "\<forall>w'. snd (build env w) = Completed w' \<longrightarrow> routeTable w' = t"
proof (cases rule: build_cases [of env w])
  case (routes_failed ms1 m ms2 e)
  show ?thesis
    by (rule none) (simp_all add: routes_failed(3) inPhase_pieces)
next
  case (clean_failed t evs2 e)
  show ?thesis
    by (rule none)
      (simp_all add: clean_failed(3) inPhase_pieces inPhase_cleanBuildDir [OF clean_failed(2)])
next
  case (bootstrap_thrown t evs2 ms1 m ms2 e)
  show ?thesis
    by (rule none)
      (simp_all add: bootstrap_thrown(5) inPhase_pieces
        inPhase_cleanBuildDir [OF bootstrap_thrown(2)])
next
  case (invalid t evs2 k' e)
  show ?thesis
    by (rule none)
      (simp_all add: invalid(5) inPhase_pieces inPhase_cleanBuildDir [OF invalid(2)])
next
  case (entry_failed t evs2 k' e)
  show ?thesis
    by (rule entry_only [of t])
      (simp_all add: entry_failed(1,6) inPhase_pieces inPhase_cleanBuildDir [OF entry_failed(2)])
next
  case (compile_failed t evs2 k' e)
  show ?thesis
    by (rule both [of t])
      (simp_all add: compile_failed(1,7) inPhase_pieces
        inPhase_cleanBuildDir [OF compile_failed(2)])
next
  case (completed t evs2 k')
  show ?thesis
    by (rule both [of t])
      (simp_all add: completed(1,7) inPhase_pieces inPhase_cleanBuildDir [OF completed(2)])
qed

subsection \<open>Failures\<close>

lemma route_failure_exit:
  assumes ms: "modules env = ms1 @ m # ms2"
    and ok: "loadRoutes env ms1 (routeTable w) = (evs, Inr t)"
    and thrown: "fst (loadModuleRoutes env (path m) t) = Some e"
  shows "build env w = (routeTrace (ms1 @ [m]) @ [EvError e, EvExit 0], Exited 0)"
proof -
  have evs: "evs = routeTrace ms1"
    using ok by (rule loadRoutes_ok)
  obtain t' where m: "loadModuleRoutes env (path m) t = (Some e, t')"
    using thrown by (cases "loadModuleRoutes env (path m) t") simp
  have rest: "loadRoutes env (m # ms2) t =
      ([EvLoadModuleRoutes (path m), EvError e, EvExit 0], Inl (Exited 0))"
    by (simp add: m)
  have "loadRoutes env (ms1 @ m # ms2) (routeTable w) =
      (routeTrace (ms1 @ [m]) @ [EvError e, EvExit 0], Inl (Exited 0))"
    by (simp add: loadRoutes_append [of env ms1 "m # ms2"] ok m evs routeTrace_def)
  then have "loadRoutes env (modules env) (routeTable w) =
      (routeTrace (ms1 @ [m]) @ [EvError e, EvExit 0], Inl (Exited 0))"
    by (simp only: ms)
  then show ?thesis
    by (simp add: build_def)
qed

lemma bootstrap_failure_exit:
  assumes lr: "loadRoutes env (modules env) (routeTable w) = (evs1, Inr t1)"
    and cb: "cleanBuildDir env = (evs2, None)"
    and ms: "modules env = ms1 @ m # ms2"
    and ok: "loadBootstraps env ms1 (kernel w) = (evs3, Inr k)"
    and thrown: "fst (loadBootstrapScript env m k) = Some e"
  shows "build env w =
        (routeTrace (modules env) @ evs2 @ bootstrapTrace (ms1 @ [m]) @ [EvError e, EvExit 0],
         Exited 0)"
proof -
  have evs1: "evs1 = routeTrace (modules env)"
    using lr by (rule loadRoutes_ok)
  have evs3: "evs3 = bootstrapTrace ms1"
    using ok by (rule loadBootstraps_ok)
  obtain k' where m: "loadBootstrapScript env m k = (Some e, k')"
    using thrown by (cases "loadBootstrapScript env m k") simp
  have "loadBootstraps env (ms1 @ m # ms2) (kernel w) = (bootstrapTrace (ms1 @ [m]), Inl e)"
    by (simp add: loadBootstraps_append [of env ms1 "m # ms2"] ok m evs3 bootstrapTrace_def)
  then have lb: "loadBootstraps env (modules env) (kernel w) = (bootstrapTrace (ms1 @ [m]), Inl e)"
    by (simp only: ms)
  have "defaultExport env (w\<lparr> routeTable := t1 \<rparr>) =
      (bootstrapTrace (ms1 @ [m]) @ [EvError e, EvExit 0], Exited 0)"
    by (simp add: defaultExport_def tryBootstrap_def lb)
  then show ?thesis
    by (simp add: build_def lr cb evs1)
qed

lemma exit_status_zero:
  assumes "snd (build env w) = Exited c"
  shows "c = 0" and "\<exists>pre err. fst (build env w) = pre @ [EvError err, EvExit 0]"
proof -
  show "c = 0"
  proof (cases rule: build_cases [of env w])
    case (routes_failed ms1 m ms2 e)
    then show ?thesis using assms by (simp only: snd_conv outcome.inject)
  next
    case (clean_failed t evs2 e)
    then show ?thesis using assms by (simp only: snd_conv outcome.distinct)
  next
    case (bootstrap_thrown t evs2 ms1 m ms2 e)
    then show ?thesis using assms by (simp only: snd_conv outcome.inject)
  next
    case (invalid t evs2 k' e)
    then show ?thesis using assms by (simp only: snd_conv outcome.inject)
  next
    case (entry_failed t evs2 k' e)
    then show ?thesis using assms by (simp only: snd_conv outcome.distinct)
  next
    case (compile_failed t evs2 k' e)
    then show ?thesis using assms by (simp only: snd_conv outcome.distinct)
  next
    case (completed t evs2 k')
    then show ?thesis using assms by (simp only: snd_conv outcome.distinct)
  qed
  show "\<exists>pre err. fst (build env w) = pre @ [EvError err, EvExit 0]"
  proof (cases rule: build_cases [of env w])
    case (routes_failed ms1 m ms2 e)
    have "fst (build env w) = routeTrace (ms1 @ [m]) @ [EvError e, EvExit 0]"
      by (simp only: routes_failed(3) fst_conv)
    then show ?thesis by (intro exI)
  next
    case (clean_failed t evs2 e)
    then show ?thesis using assms by (simp only: snd_conv outcome.distinct)
  next
    case (bootstrap_thrown t evs2 ms1 m ms2 e)
    have "fst (build env w) =
        (routeTrace (modules env) @ evs2 @ bootstrapTrace (ms1 @ [m])) @ [EvError e, EvExit 0]"
      by (simp only: bootstrap_thrown(5) fst_conv append_assoc)
    then show ?thesis by (intro exI)
  next
    case (invalid t evs2 k' e)
    have "fst (build env w) =
        (routeTrace (modules env) @ evs2 @ bootstrapTrace (modules env) @ lockTrace) @
          [EvError e, EvExit 0]"
      by (simp only: invalid(5) fst_conv append_assoc)
    then show ?thesis by (intro exI)
  next
    case (entry_failed t evs2 k' e)
    then show ?thesis using assms by (simp only: snd_conv outcome.distinct)
  next
    case (compile_failed t evs2 k' e)
    then show ?thesis using assms by (simp only: snd_conv outcome.distinct)
  next
    case (completed t evs2 k')
    then show ?thesis using assms by (simp only: snd_conv outcome.distinct)
  qed
qed

subsection \<open>Bootstrap order, the complete trace, the build calls\<close>

lemma bootstrap_events_prefix:
  "\<exists>ran rest. modules env = ran @ rest \<and>
      inPhase BootstrapLoading (fst (build env w)) = bootstrapTrace ran"
proof (cases rule: build_phase_summary [of env w])
  case (stopped_early ran rest)
  show ?thesis
    by (intro exI conjI) (rule stopped_early(1) stopped_early(2))+
next
  case (locked t pre post)
  have b: "inPhase BootstrapLoading (fst (build env w)) = bootstrapTrace (modules env)"
    by (simp add: locked(2,3,4) inPhase_append inPhase_lockTrace)
  have m: "modules env = modules env @ []" by simp
  show ?thesis
    by (intro exI conjI) (rule m b)+
qed

lemma bootstrap_events_completed:
  assumes "snd (build env w) = Completed w'"
  shows "inPhase BootstrapLoading (fst (build env w)) =
        bootstrapTrace (getCoreModules env) @ bootstrapTrace (getEnabledExtensions env)"
proof (cases rule: build_phase_summary [of env w])
  case (stopped_early ran rest)
  then show ?thesis using assms by simp
next
  case (locked t pre post)
  have "inPhase BootstrapLoading (fst (build env w)) = bootstrapTrace (modules env)"
    by (simp add: locked(2,3,4) inPhase_append inPhase_lockTrace)
  then show ?thesis by (simp add: modules_def bootstrapTrace_def)
qed

lemma loadBootstraps_threads_kernel:
  "loadBootstraps env (ms1 @ m # ms2) k =
     (case loadBootstraps env ms1 k of
        (evs, Inl e) \<Rightarrow> (evs, Inl e)
      | (evs, Inr k1) \<Rightarrow>
          (case loadBootstrapScript env m k1 of
             (Some e, k2) \<Rightarrow> (evs @ [EvBootstrapStart m, EvBootstrapSettled m], Inl e)
           | (None, k2) \<Rightarrow>
               (case loadBootstraps env ms2 k2 of
                  (evs', r) \<Rightarrow> (evs @ EvBootstrapStart m # EvBootstrapSettled m # evs', r))))"
  by (simp add: loadBootstraps_append split: prod.splits sum.splits option.splits)

lemma loadBootstraps_states:
  "loadBootstraps env ms k = (evs, Inr k') \<Longrightarrow>
   \<exists>ks. length ks = length ms \<and>
        (\<forall>i<length ms. loadBootstrapScript env (ms ! i) ((k # ks) ! i) = (None, ks ! i)) \<and>
        last (k # ks) = k'"
proof (induction ms arbitrary: k evs)
  case Nil
  then show ?case by simp
next
  case (Cons m ms)
  obtain r k1 where m: "loadBootstrapScript env m k = (r, k1)"
    by (cases "loadBootstrapScript env m k")
  obtain evs' r' where rest: "loadBootstraps env ms k1 = (evs', r')"
    by (cases "loadBootstraps env ms k1")
  from Cons.prems m rest have r: "r = None" and r': "r' = Inr k'"
    by (cases r; simp)+
  from Cons.IH [of k1 evs'] rest r' obtain ks where
    len: "length ks = length ms"
    and step: "\<forall>i<length ms. loadBootstrapScript env (ms ! i) ((k1 # ks) ! i) = (None, ks ! i)"
    and fin: "last (k1 # ks) = k'"
    by auto
  have "\<forall>i<length (m # ms).
      loadBootstrapScript env ((m # ms) ! i) ((k # k1 # ks) ! i) = (None, (k1 # ks) ! i)"
  proof (intro allI impI)
    fix i assume i: "i < length (m # ms)"
    show "loadBootstrapScript env ((m # ms) ! i) ((k # k1 # ks) ! i) = (None, (k1 # ks) ! i)"
    proof (cases i)
      case 0
      then show ?thesis using m r by simp
    next
      case (Suc j)
      then have "j < length ms" using i by simp
      then show ?thesis using step Suc by simp
    qed
  qed
  moreover have "length (k1 # ks) = length (m # ms)" using len by simp
  moreover have "last (k # k1 # ks) = k'" using fin by simp
  ultimately show ?case by blast
qed

lemma loadBootstraps_of_states:
  "length ks = length ms \<Longrightarrow>
   \<forall>i<length ms. loadBootstrapScript env (ms ! i) ((k # ks) ! i) = (None, ks ! i) \<Longrightarrow>
   loadBootstraps env ms k = (bootstrapTrace ms, Inr (last (k # ks)))"
proof (induction ms arbitrary: k ks)
  case Nil
  then show ?case by (simp add: bootstrapTrace_def)
next
  case (Cons m ms)
  from Cons.prems(1) obtain k1 ks' where ks: "ks = k1 # ks'" and len: "length ks' = length ms"
    by (cases ks) auto
  have first: "loadBootstrapScript env m k = (None, k1)"
    using Cons.prems(2) [rule_format, of 0] by (simp add: ks)
  have step: "\<forall>i<length ms. loadBootstrapScript env (ms ! i) ((k1 # ks') ! i) = (None, ks' ! i)"
  proof (intro allI impI)
    fix i assume "i < length ms"
    then show "loadBootstrapScript env (ms ! i) ((k1 # ks') ! i) = (None, ks' ! i)"
      using Cons.prems(2) [rule_format, of "Suc i"] by (simp add: ks)
  qed
  have "loadBootstraps env ms k1 = (bootstrapTrace ms, Inr (last (k1 # ks')))"
    using len step by (rule Cons.IH)
  then show ?case
    by (simp add: first ks bootstrapTrace_def)
qed

lemma loadBootstraps_of_states_thrown:
  "n < length ms \<Longrightarrow> length ks = n \<Longrightarrow>
   \<forall>i<n. loadBootstrapScript env (ms ! i) ((k # ks) ! i) = (None, ks ! i) \<Longrightarrow>
   fst (loadBootstrapScript env (ms ! n) ((k # ks) ! n)) = Some e \<Longrightarrow>
   loadBootstraps env ms k = (bootstrapTrace (take (Suc n) ms), Inl e)"
proof (induction ms arbitrary: k ks n)
  case Nil
  then show ?case by simp
next
  case (Cons m ms)
  show ?case
  proof (cases n)
    case 0
    then obtain k1 where "loadBootstrapScript env m k = (Some e, k1)"
      using Cons.prems(4) by (cases "loadBootstrapScript env m k") simp
    then show ?thesis
      using 0 by (simp add: bootstrapTrace_def)
  next
    case (Suc j)
    from Cons.prems(2) Suc obtain k1 ks' where ks: "ks = k1 # ks'" and len: "length ks' = j"
      by (cases ks) auto
    have j: "j < length ms" using Cons.prems(1) Suc by simp
    have first: "loadBootstrapScript env m k = (None, k1)"
      using Cons.prems(3) [rule_format, of 0] Suc by (simp add: ks)
    have step: "\<forall>i<j. loadBootstrapScript env (ms ! i) ((k1 # ks') ! i) = (None, ks' ! i)"
    proof (intro allI impI)
      fix i assume "i < j"
      then show "loadBootstrapScript env (ms ! i) ((k1 # ks') ! i) = (None, ks' ! i)"
        using Cons.prems(3) [rule_format, of "Suc i"] Suc by (simp add: ks)
    qed
    have thrown: "fst (loadBootstrapScript env (ms ! j) ((k1 # ks') ! j)) = Some e"
      using Cons.prems(4) Suc by (simp add: ks)
    have "loadBootstraps env ms k1 = (bootstrapTrace (take (Suc j) ms), Inl e)"
      using j len step thrown by (rule Cons.IH)
    then show ?thesis
      using Suc by (simp add: first bootstrapTrace_def)
  qed
qed

lemma build_bootstrap_thrown:
  assumes lr: "loadRoutes env (modules env) (routeTable w) = (evs1, Inr t)"
    and cb: "cleanBuildDir env = (evs2, None)"
    and lb: "loadBootstraps env (modules env) (kernel w) = (evs3, Inl e)"
  shows "build env w =
      (routeTrace (modules env) @ evs2 @ evs3 @ [EvError e, EvExit 0], Exited 0)"
proof -
  have evs1: "evs1 = routeTrace (modules env)"
    using lr by (rule loadRoutes_ok)
  have "defaultExport env (w\<lparr> routeTable := t \<rparr>) = (evs3 @ [EvError e, EvExit 0], Exited 0)"
    by (simp add: defaultExport_def tryBootstrap_def lb)
  then show ?thesis
    by (simp add: build_def lr cb evs1)
qed

lemma completed_scripts_ran:
  assumes c: "snd (build env w) = Completed w'"
  shows "\<exists>ks. length ks = length (modules env) \<and>
      (\<forall>i<length (modules env).
         loadBootstrapScript env (modules env ! i) ((kernel w # ks) ! i) = (None, ks ! i)) \<and>
      kernel w' = lockKernel (last (kernel w # ks))"
proof (cases rule: build_cases [of env w])
  case (routes_failed ms1 m ms2 e)
  then show ?thesis using c by (simp only: snd_conv outcome.distinct)
next
  case (clean_failed t evs2 e)
  then show ?thesis using c by (simp only: snd_conv outcome.distinct)
next
  case (bootstrap_thrown t evs2 ms1 m ms2 e)
  then show ?thesis using c by (simp only: snd_conv outcome.distinct)
next
  case (invalid t evs2 k' e)
  then show ?thesis using c by (simp only: snd_conv outcome.distinct)
next
  case (entry_failed t evs2 k' e)
  then show ?thesis using c by (simp only: snd_conv outcome.distinct)
next
  case (compile_failed t evs2 k' e)
  then show ?thesis using c by (simp only: snd_conv outcome.distinct)
next
  case (completed t evs2 k')
  have "Completed w' = Completed (w\<lparr> routeTable := t, kernel := lockKernel k',
                       ALLOW_CONFIG_MUTATIONS := Some ''false'' \<rparr>)"
    using c by (simp only: completed(7) snd_conv)
  then have kw: "kernel w' = lockKernel k'" by simp
  from loadBootstraps_states [OF completed(3)] obtain ks where
    "length ks = length (modules env)"
    "\<forall>i<length (modules env).
         loadBootstrapScript env (modules env ! i) ((kernel w # ks) ! i) = (None, ks ! i)"
    "last (kernel w # ks) = k'"
    by (elim exE conjE)
  then show ?thesis
    using kw by (intro exI [of _ ks]) simp
qed

lemma all_scripts_ok_trace:
  assumes lr: "loadRoutes env (modules env) (routeTable w) = (evs1, Inr t)"
    and cb: "cleanBuildDir env = (evs2, None)"
    and len: "length ks = length (modules env)"
    and step: "\<forall>i<length (modules env).
         loadBootstrapScript env (modules env ! i) ((kernel w # ks) ! i) = (None, ks ! i)"
  shows "inPhase BootstrapLoading (fst (build env w)) = bootstrapTrace (modules env)"
proof -
  have lb: "loadBootstraps env (modules env) (kernel w) =
      (bootstrapTrace (modules env), Inr (last (kernel w # ks)))"
    using len step by (rule loadBootstraps_of_states)
  show ?thesis
  proof (cases rule: build_phase_summary [of env w])
    case (stopped_early ran rest)
    from stopped_early(8) lr cb lb show ?thesis by (elim allE notE) (intro conjI)
  next
    case (locked rt pre post)
    show ?thesis
      by (simp add: locked(2,3,4) inPhase_append inPhase_lockTrace)
  qed
qed

lemma completed_kernel:
  assumes c: "snd (build env w) = Completed w'"
    and len: "length ks = length (modules env)"
    and step: "\<forall>i<length (modules env).
         loadBootstrapScript env (modules env ! i) ((kernel w # ks) ! i) = (None, ks ! i)"
  shows "kernel w' = lockKernel (last (kernel w # ks))"
proof -
  have lb: "loadBootstraps env (modules env) (kernel w) =
      (bootstrapTrace (modules env), Inr (last (kernel w # ks)))"
    using len step by (rule loadBootstraps_of_states)
  show ?thesis
  proof (cases rule: build_cases [of env w])
    case (routes_failed ms1 m ms2 e)
    then show ?thesis using c by (simp only: snd_conv outcome.distinct)
  next
    case (clean_failed t evs2 e)
    then show ?thesis using c by (simp only: snd_conv outcome.distinct)
  next
    case (bootstrap_thrown t evs2 ms1 m ms2 e)
    then show ?thesis using c by (simp only: snd_conv outcome.distinct)
  next
    case (invalid t evs2 k' e)
    then show ?thesis using c by (simp only: snd_conv outcome.distinct)
  next
    case (entry_failed t evs2 k' e)
    then show ?thesis using c by (simp only: snd_conv outcome.distinct)
  next
    case (compile_failed t evs2 k' e)
    then show ?thesis using c by (simp only: snd_conv outcome.distinct)
  next
    case (completed t evs2 k')
    have "Completed w' = Completed (w\<lparr> routeTable := t, kernel := lockKernel k',
                         ALLOW_CONFIG_MUTATIONS := Some ''false'' \<rparr>)"
      using c by (simp only: completed(7) snd_conv)
    then have kw: "kernel w' = lockKernel k'" by simp
    have "k' = last (kernel w # ks)"
      using completed(3) lb by simp
    then show ?thesis using kw by simp
  qed
qed

lemma completed_trace:
  assumes c: "snd (build env w) = Completed w'"
  shows "\<exists>cleanup.
         (cleanup = [EvExistsSync, EvRmSync, EvMkdirSync False] \<or>
          cleanup = [EvExistsSync, EvMkdirSync True]) \<and>
         fst (build env w) =
           routeTrace (modules env) @ cleanup @ bootstrapTrace (modules env) @
           [EvLockHooks, EvLockRegistry, EvValidateConfiguration] @
           [EvSetEnv, EvGetRoutes] @ map EvIsBuildRequired (getRoutes env (routeTable w')) @
           [EvBuildEntry (filter (isBuildRequired env) (getRoutes env (routeTable w'))),
            EvCompile (getRoutes env (routeTable w'))]"
proof (cases rule: build_cases [of env w])
  case (routes_failed ms1 m ms2 e)
  then show ?thesis using c by (simp only: snd_conv outcome.distinct)
next
  case (clean_failed t evs2 e)
  then show ?thesis using c by (simp only: snd_conv outcome.distinct)
next
  case (bootstrap_thrown t evs2 ms1 m ms2 e)
  then show ?thesis using c by (simp only: snd_conv outcome.distinct)
next
  case (invalid t evs2 k' e)
  then show ?thesis using c by (simp only: snd_conv outcome.distinct)
next
  case (entry_failed t evs2 k' e)
  then show ?thesis using c by (simp only: snd_conv outcome.distinct)
next
  case (compile_failed t evs2 k' e)
  then show ?thesis using c by (simp only: snd_conv outcome.distinct)
next
  case (completed t evs2 k')
  have "Completed w' = Completed (w\<lparr> routeTable := t, kernel := lockKernel k',
                       ALLOW_CONFIG_MUTATIONS := Some ''false'' \<rparr>)"
    using c by (simp only: completed(7) snd_conv)
  then have t: "routeTable w' = t" by simp
  have tr: "fst (build env w) =
           routeTrace (modules env) @ evs2 @ bootstrapTrace (modules env) @
           [EvLockHooks, EvLockRegistry, EvValidateConfiguration] @
           [EvSetEnv, EvGetRoutes] @ map EvIsBuildRequired (getRoutes env (routeTable w')) @
           [EvBuildEntry (filter (isBuildRequired env) (getRoutes env (routeTable w'))),
            EvCompile (getRoutes env (routeTable w'))]"
    by (simp add: completed(7) t lockTrace_def gateTrace_def)
  show ?thesis
    by (intro exI conjI) (rule cleanBuildDir_ok [OF completed(2)] tr)+
qed

lemma buildEntry_event:
  assumes "EvBuildEntry rs \<in> set (fst (build env w))"
  shows "\<exists>t. snd (loadRoutes env (modules env) (routeTable w)) = Inr t \<and>
           rs = filter (isBuildRequired env) (getRoutes env t)"
proof -
  have m: "EvBuildEntry rs \<in> set (inPhase EntryGeneration (fst (build env w)))"
    using assms inPhase_mem [of "EvBuildEntry rs" EntryGeneration "fst (build env w)"] by simp
  show ?thesis
  proof (cases rule: build_calls [of env w])
    case none
    then show ?thesis using m by simp
  next
    case (entry_only t)
    have "rs = filter (isBuildRequired env) (getRoutes env t)"
      using m by (simp add: entry_only(2))
    with entry_only(1) show ?thesis by (intro exI conjI)
  next
    case (both t)
    have "rs = filter (isBuildRequired env) (getRoutes env t)"
      using m by (simp add: both(2))
    with both(1) show ?thesis by (intro exI conjI)
  qed
qed

lemma compile_event:
  assumes "EvCompile rs \<in> set (fst (build env w))"
  shows "\<exists>t. snd (loadRoutes env (modules env) (routeTable w)) = Inr t \<and>
           rs = getRoutes env t \<and>
           EvBuildEntry (filter (isBuildRequired env) rs) \<in> set (fst (build env w))"
proof -
  have m: "EvCompile rs \<in> set (inPhase Compile (fst (build env w)))"
    using assms inPhase_mem [of "EvCompile rs" Compile "fst (build env w)"] by simp
  show ?thesis
  proof (cases rule: build_calls [of env w])
    case none
    then show ?thesis using m by simp
  next
    case (entry_only t)
    then show ?thesis using m by simp
  next
    case (both t)
    have rs: "rs = getRoutes env t"
      using m by (simp add: both(3))
    have "EvBuildEntry (filter (isBuildRequired env) rs) \<in>
        set (inPhase EntryGeneration (fst (build env w)))"
      by (simp add: both(2) rs)
    then have "EvBuildEntry (filter (isBuildRequired env) rs) \<in> set (fst (build env w))"
      by (simp add: inPhase_def)
    with both(1) rs show ?thesis by (intro exI conjI)
  qed
qed

lemma completed_calls:
  assumes "snd (build env w) = Completed w'"
  shows "inPhase EntryGeneration (fst (build env w)) =
        [EvBuildEntry (filter (isBuildRequired env) (getRoutes env (routeTable w')))]"
    and "inPhase Compile (fst (build env w)) = [EvCompile (getRoutes env (routeTable w'))]"
proof -
  have "inPhase EntryGeneration (fst (build env w)) =
        [EvBuildEntry (filter (isBuildRequired env) (getRoutes env (routeTable w')))] \<and>
      inPhase Compile (fst (build env w)) = [EvCompile (getRoutes env (routeTable w'))]"
  proof (cases rule: build_calls [of env w])
    case none
    then show ?thesis using assms by simp
  next
    case (entry_only t)
    then show ?thesis using assms by simp
  next
    case (both t)
    have "routeTable w' = t" using both(4) assms by simp
    then show ?thesis by (simp add: both(2,3))
  qed
  then show "inPhase EntryGeneration (fst (build env w)) =
        [EvBuildEntry (filter (isBuildRequired env) (getRoutes env (routeTable w')))]"
    and "inPhase Compile (fst (build env w)) = [EvCompile (getRoutes env (routeTable w'))]"
    by simp_all
qed

lemma build_call_results:
  obtains
    (none) "inPhase EntryGeneration (fst (build env w)) = []"
      "inPhase Compile (fst (build env w)) = []"
  | (entry_thrown) t e where "snd (loadRoutes env (modules env) (routeTable w)) = Inr t"
      "inPhase EntryGeneration (fst (build env w)) =
         [EvBuildEntry (filter (isBuildRequired env) (getRoutes env t))]"
      "inPhase Compile (fst (build env w)) = []"
      "buildEntry env (filter (isBuildRequired env) (getRoutes env t)) = Some e"
      "snd (build env w) = Uncaught e"
  | (compile_thrown) t e where "snd (loadRoutes env (modules env) (routeTable w)) = Inr t"
      "inPhase EntryGeneration (fst (build env w)) =
         [EvBuildEntry (filter (isBuildRequired env) (getRoutes env t))]"
      "inPhase Compile (fst (build env w)) = [EvCompile (getRoutes env t)]"
      "buildEntry env (filter (isBuildRequired env) (getRoutes env t)) = None"
      "compile env (getRoutes env t) = Some e"
      "snd (build env w) = Uncaught e"
  | (both_returned) t w' where "snd (loadRoutes env (modules env) (routeTable w)) = Inr t"
      "inPhase EntryGeneration (fst (build env w)) =
         [EvBuildEntry (filter (isBuildRequired env) (getRoutes env t))]"
      "inPhase Compile (fst (build env w)) = [EvCompile (getRoutes env t)]"
      "buildEntry env (filter (isBuildRequired env) (getRoutes env t)) = None"
      "compile env (getRoutes env t) = None"
      "snd (build env w) = Completed w'"
      "routeTable w' = t"
proof (cases rule: build_cases [of env w])
  case (routes_failed ms1 m ms2 e)
  show ?thesis
    by (rule none) (simp_all add: routes_failed(3) inPhase_pieces)
next
  case (clean_failed t evs2 e)
  show ?thesis
    by (rule none)
      (simp_all add: clean_failed(3) inPhase_pieces inPhase_cleanBuildDir [OF clean_failed(2)])
next
  case (bootstrap_thrown t evs2 ms1 m ms2 e)
  show ?thesis
    by (rule none)
      (simp_all add: bootstrap_thrown(5) inPhase_pieces
        inPhase_cleanBuildDir [OF bootstrap_thrown(2)])
next
  case (invalid t evs2 k' e)
  show ?thesis
    by (rule none)
      (simp_all add: invalid(5) inPhase_pieces inPhase_cleanBuildDir [OF invalid(2)])
next
  case (entry_failed t evs2 k' e)
  show ?thesis
    by (rule entry_thrown [of t e])
      (simp_all add: entry_failed(1,5,6) inPhase_pieces
        inPhase_cleanBuildDir [OF entry_failed(2)])
next
  case (compile_failed t evs2 k' e)
  show ?thesis
    by (rule compile_thrown [of t e])
      (simp_all add: compile_failed(1,5,6,7) inPhase_pieces
        inPhase_cleanBuildDir [OF compile_failed(2)])
next
  case (completed t evs2 k')
  show ?thesis
    by (rule both_returned [of t "w\<lparr> routeTable := t, kernel := lockKernel k',
                       ALLOW_CONFIG_MUTATIONS := Some ''false'' \<rparr>"])
      (simp_all add: completed(1,5,6,7) inPhase_pieces inPhase_cleanBuildDir [OF completed(2)])
qed

lemma completed_call_results:
  assumes c: "snd (build env w) = Completed w'"
  shows "buildEntry env (filter (isBuildRequired env) (getRoutes env (routeTable w'))) = None \<and>
         compile env (getRoutes env (routeTable w')) = None"
proof (cases rule: build_call_results [of env w])
  case none
  have "inPhase Compile (fst (build env w)) = [EvCompile (getRoutes env (routeTable w'))]"
    using c by (rule completed_calls(2))
  then show ?thesis by (simp add: none(2))
next
  case (entry_thrown t e)
  then show ?thesis using c by simp
next
  case (compile_thrown t e)
  then show ?thesis using c by simp
next
  case (both_returned t w2)
  have "w2 = w'" using c both_returned(6) by simp
  then show ?thesis using both_returned(4,5,7) by simp
qed

lemma entry_call_result:
  assumes m: "EvBuildEntry rs \<in> set (fst (build env w))"
  shows "(\<forall>e. buildEntry env rs = Some e \<longrightarrow>
            snd (build env w) = Uncaught e \<and> inPhase Compile (fst (build env w)) = []) \<and>
         (buildEntry env rs = None \<longrightarrow>
            (\<exists>t. snd (loadRoutes env (modules env) (routeTable w)) = Inr t \<and>
                 rs = filter (isBuildRequired env) (getRoutes env t) \<and>
                 inPhase Compile (fst (build env w)) = [EvCompile (getRoutes env t)]))"
proof -
  have m': "EvBuildEntry rs \<in> set (inPhase EntryGeneration (fst (build env w)))"
    using m inPhase_mem [of "EvBuildEntry rs" EntryGeneration "fst (build env w)"] by simp
  show ?thesis
  proof (cases rule: build_call_results [of env w])
    case none
    then show ?thesis using m' by simp
  next
    case (entry_thrown t e)
    have "rs = filter (isBuildRequired env) (getRoutes env t)"
      using m' by (simp add: entry_thrown(2))
    then show ?thesis by (simp add: entry_thrown(3,4,5))
  next
    case (compile_thrown t e)
    have "rs = filter (isBuildRequired env) (getRoutes env t)"
      using m' by (simp add: compile_thrown(2))
    then show ?thesis by (simp add: compile_thrown(1,3,4))
  next
    case (both_returned t w')
    have "rs = filter (isBuildRequired env) (getRoutes env t)"
      using m' by (simp add: both_returned(2))
    then show ?thesis by (simp add: both_returned(1,3,4))
  qed
qed

lemma compile_call_result:
  assumes m: "EvCompile rs \<in> set (fst (build env w))"
  shows "buildEntry env (filter (isBuildRequired env) rs) = None \<and>
         (\<forall>e. compile env rs = Some e \<longrightarrow> snd (build env w) = Uncaught e) \<and>
         (compile env rs = None \<longrightarrow>
            (\<exists>w'. snd (build env w) = Completed w' \<and> getRoutes env (routeTable w') = rs))"
proof -
  have m': "EvCompile rs \<in> set (inPhase Compile (fst (build env w)))"
    using m inPhase_mem [of "EvCompile rs" Compile "fst (build env w)"] by simp
  show ?thesis
  proof (cases rule: build_call_results [of env w])
    case none
    then show ?thesis using m' by simp
  next
    case (entry_thrown t e)
    then show ?thesis using m' by simp
  next
    case (compile_thrown t e)
    have "rs = getRoutes env t"
      using m' by (simp add: compile_thrown(3))
    then show ?thesis by (simp add: compile_thrown(4,5,6))
  next
    case (both_returned t w')
    have "rs = getRoutes env t"
      using m' by (simp add: both_returned(3))
    then show ?thesis by (simp add: both_returned(4,5,6,7))
  qed
qed

lemma build_after_validation:
  assumes lr: "loadRoutes env (modules env) (routeTable w) = (evs1, Inr t)"
    and cb: "cleanBuildDir env = (evs2, None)"
    and lb: "loadBootstraps env (modules env) (kernel w) = (evs3, Inr k)"
    and v: "validateConfiguration env (lockKernel k) = None"
  shows "(\<forall>e. buildEntry env (filter (isBuildRequired env) (getRoutes env t)) = Some e \<longrightarrow>
            build env w =
              (routeTrace (modules env) @ evs2 @ bootstrapTrace (modules env) @ lockTrace @
               gateTrace (getRoutes env t) @
               [EvBuildEntry (filter (isBuildRequired env) (getRoutes env t))],
               Uncaught e))"
    and "(\<forall>e. buildEntry env (filter (isBuildRequired env) (getRoutes env t)) = None \<and>
            compile env (getRoutes env t) = Some e \<longrightarrow>
            build env w =
              (routeTrace (modules env) @ evs2 @ bootstrapTrace (modules env) @ lockTrace @
               gateTrace (getRoutes env t) @
               [EvBuildEntry (filter (isBuildRequired env) (getRoutes env t)),
                EvCompile (getRoutes env t)],
               Uncaught e))"
    and "(buildEntry env (filter (isBuildRequired env) (getRoutes env t)) = None \<and>
          compile env (getRoutes env t) = None \<longrightarrow>
            build env w =
              (routeTrace (modules env) @ evs2 @ bootstrapTrace (modules env) @ lockTrace @
               gateTrace (getRoutes env t) @
               [EvBuildEntry (filter (isBuildRequired env) (getRoutes env t)),
                EvCompile (getRoutes env t)],
               Completed (w\<lparr> routeTable := t, kernel := lockKernel k,
                            ALLOW_CONFIG_MUTATIONS := Some ''false'' \<rparr>)))"
proof -
  have evs1: "evs1 = routeTrace (modules env)"
    using lr by (rule loadRoutes_ok)
  have evs3: "evs3 = bootstrapTrace (modules env)"
    using lb by (rule loadBootstraps_ok)
  have tb: "tryBootstrap env (kernel w) =
      (bootstrapTrace (modules env) @ lockTrace, Inr (lockKernel k))"
    by (simp add: tryBootstrap_def lb v evs3 lockTrace_def)
  have b: "build env w =
      (case defaultExport env (w\<lparr> routeTable := t \<rparr>) of
         (evs, result) \<Rightarrow> (routeTrace (modules env) @ evs2 @ evs, result))"
    by (simp add: build_def lr cb evs1)
  show "(\<forall>e. buildEntry env (filter (isBuildRequired env) (getRoutes env t)) = Some e \<longrightarrow>
            build env w =
              (routeTrace (modules env) @ evs2 @ bootstrapTrace (modules env) @ lockTrace @
               gateTrace (getRoutes env t) @
               [EvBuildEntry (filter (isBuildRequired env) (getRoutes env t))],
               Uncaught e))"
    by (simp add: b defaultExport_def tb Let_def gateTrace_def)
  show "(\<forall>e. buildEntry env (filter (isBuildRequired env) (getRoutes env t)) = None \<and>
            compile env (getRoutes env t) = Some e \<longrightarrow>
            build env w =
              (routeTrace (modules env) @ evs2 @ bootstrapTrace (modules env) @ lockTrace @
               gateTrace (getRoutes env t) @
               [EvBuildEntry (filter (isBuildRequired env) (getRoutes env t)),
                EvCompile (getRoutes env t)],
               Uncaught e))"
    by (simp add: b defaultExport_def tb Let_def gateTrace_def)
  show "(buildEntry env (filter (isBuildRequired env) (getRoutes env t)) = None \<and>
          compile env (getRoutes env t) = None \<longrightarrow>
            build env w =
              (routeTrace (modules env) @ evs2 @ bootstrapTrace (modules env) @ lockTrace @
               gateTrace (getRoutes env t) @
               [EvBuildEntry (filter (isBuildRequired env) (getRoutes env t)),
                EvCompile (getRoutes env t)],
               Completed (w\<lparr> routeTable := t, kernel := lockKernel k,
                            ALLOW_CONFIG_MUTATIONS := Some ''false'' \<rparr>)))"
    by (simp add: b defaultExport_def tb Let_def gateTrace_def)
qed

lemma loadRoutes_buildEntry_update:
  "loadRoutes (env\<lparr> buildEntry := f \<rparr>) ms t = loadRoutes env ms t"
  by (induction ms arbitrary: t) (simp_all split: prod.splits option.splits)

lemma loadBootstraps_buildEntry_update:
  "loadBootstraps (env\<lparr> buildEntry := f \<rparr>) ms k = loadBootstraps env ms k"
  by (induction ms arbitrary: k) (simp_all split: prod.splits option.splits)

subsection \<open>The sample runs\<close>

lemma onRegistry_ok:
  "fst (call (registry k)) = None \<Longrightarrow>
   onRegistry call k = (None, k\<lparr> registry := snd (call (registry k)) \<rparr>)"
  by (cases "call (registry k)") (simp add: onRegistry_def)

lemma demo_modules: "modules demoBuildEnv = [checkoutModule, sampleExtension]"
  by (simp add: modules_def demoBuildEnv_def)

lemma demo_loadRoutes:
  "loadRoutes demoBuildEnv [checkoutModule, sampleExtension] [] =
     (routeTrace [checkoutModule, sampleExtension],
      Inr [''/app/modules/checkout'', ''/app/extensions/sample''])"
  by (simp add: demoBuildEnv_def routeTrace_def checkoutModule_def sampleExtension_def)

lemma demo_cleanBuildDir:
  "cleanBuildDir demoBuildEnv = ([EvExistsSync, EvRmSync, EvMkdirSync False], None)"
  by (simp add: cleanBuildDir_def demoBuildEnv_def)

lemma demo_checkout_bootstrap:
  "loadBootstrapScript demoBuildEnv checkoutModule (kernel demoWorld) =
     (None, snd (onRegistry (checkoutBootstrap demoCheckoutDeps) (kernel demoWorld)))"
proof -
  have u: "\<not> registryLocked (registry (kernel demoWorld))"
    by (simp add: demoWorld_def emptyRegistry_def)
  have "onRegistry (checkoutBootstrap demoCheckoutDeps) (kernel demoWorld) =
      (None, (kernel demoWorld)\<lparr> registry :=
         snd (checkoutBootstrap demoCheckoutDeps (registry (kernel demoWorld))) \<rparr>)"
    by (rule onRegistry_ok) (rule checkoutBootstrap_unlocked(1) [OF u])
  then show ?thesis
    by (simp add: demoBuildEnv_def checkoutModule_def)
qed

lemma demo_sample_bootstrap:
  "loadBootstrapScript demoBuildEnv sampleExtension
     (snd (onRegistry (checkoutBootstrap demoCheckoutDeps) (kernel demoWorld))) =
     (None, demoKernel)"
proof -
  let ?k = "snd (onRegistry (checkoutBootstrap demoCheckoutDeps) (kernel demoWorld))"
  have u0: "\<not> registryLocked (registry (kernel demoWorld))"
    by (simp add: demoWorld_def emptyRegistry_def)
  have "onRegistry (checkoutBootstrap demoCheckoutDeps) (kernel demoWorld) =
      (None, (kernel demoWorld)\<lparr> registry :=
         snd (checkoutBootstrap demoCheckoutDeps (registry (kernel demoWorld))) \<rparr>)"
    by (rule onRegistry_ok) (rule checkoutBootstrap_unlocked(1) [OF u0])
  then have "registry ?k = snd (checkoutBootstrap demoCheckoutDeps (registry (kernel demoWorld)))"
    by simp
  then have u: "\<not> registryLocked (registry ?k)"
    using checkoutBootstrap_unlocked(2) [OF u0, of demoCheckoutDeps] by simp
  have "onRegistry (addProcessor ''cartFields'' (pureProcessor (\<lambda>fs. fs @ [20])) 5) ?k =
      (None, ?k\<lparr> registry :=
         snd (addProcessor ''cartFields'' (pureProcessor (\<lambda>fs. fs @ [20])) 5 (registry ?k)) \<rparr>)"
    by (rule onRegistry_ok) (simp add: addProcessor_unlocked [OF u])
  then have "onRegistry (addProcessor ''cartFields'' (pureProcessor (\<lambda>fs. fs @ [20])) 5) ?k =
      (None, demoKernel)"
    by (simp add: demoKernel_def)
  then show ?thesis
    by (simp add: demoBuildEnv_def sampleExtension_def)
qed

lemma demo_loadBootstraps:
  "loadBootstraps demoBuildEnv [checkoutModule, sampleExtension] (kernel demoWorld) =
     (bootstrapTrace [checkoutModule, sampleExtension], Inr demoKernel)"
  by (simp add: demo_checkout_bootstrap demo_sample_bootstrap bootstrapTrace_def)

lemma demo_build:
  "build demoBuildEnv demoWorld =
     (demoTrace,
      Completed (demoWorld\<lparr> routeTable := [''/app/modules/checkout'', ''/app/extensions/sample''],
                            kernel := lockKernel demoKernel,
                            ALLOW_CONFIG_MUTATIONS := Some ''false'' \<rparr>))"
proof -
  have rt: "routeTable demoWorld = []"
    by (simp add: demoWorld_def)
  have v: "validateConfiguration demoBuildEnv (lockKernel demoKernel) = None"
    and g: "getRoutes demoBuildEnv [''/app/modules/checkout'', ''/app/extensions/sample''] =
        [''/app/modules/checkout'', ''/app/extensions/sample'']"
    and f: "isBuildRequired demoBuildEnv ''/app/modules/checkout''"
      "\<not> isBuildRequired demoBuildEnv ''/app/extensions/sample''"
    and be: "buildEntry demoBuildEnv [''/app/modules/checkout''] = None"
    and co: "compile demoBuildEnv [''/app/modules/checkout'', ''/app/extensions/sample''] = None"
    by (simp_all add: demoBuildEnv_def)
  have lb: "loadBootstraps demoBuildEnv (modules demoBuildEnv) (kernel demoWorld) =
     (bootstrapTrace [checkoutModule, sampleExtension], Inr demoKernel)"
    by (simp only: demo_modules demo_loadBootstraps)
  have lr: "loadRoutes demoBuildEnv (modules demoBuildEnv) (routeTable demoWorld) =
     (routeTrace [checkoutModule, sampleExtension],
      Inr [''/app/modules/checkout'', ''/app/extensions/sample''])"
    by (simp only: demo_modules rt demo_loadRoutes)
  have tb: "tryBootstrap demoBuildEnv (kernel demoWorld) =
      (bootstrapTrace [checkoutModule, sampleExtension] @
         [EvLockHooks, EvLockRegistry, EvValidateConfiguration],
       Inr (lockKernel demoKernel))"
    by (simp add: tryBootstrap_def lb v)
  have de: "defaultExport demoBuildEnv
        (demoWorld\<lparr> routeTable := [''/app/modules/checkout'', ''/app/extensions/sample''] \<rparr>) =
      (bootstrapTrace [checkoutModule, sampleExtension] @
         [EvLockHooks, EvLockRegistry, EvValidateConfiguration] @
         [EvSetEnv, EvGetRoutes,
          EvIsBuildRequired ''/app/modules/checkout'', EvIsBuildRequired ''/app/extensions/sample'',
          EvBuildEntry [''/app/modules/checkout''],
          EvCompile [''/app/modules/checkout'', ''/app/extensions/sample'']],
       Completed (demoWorld\<lparr> routeTable := [''/app/modules/checkout'', ''/app/extensions/sample''],
                            kernel := lockKernel demoKernel,
                            ALLOW_CONFIG_MUTATIONS := Some ''false'' \<rparr>))"
    by (simp add: defaultExport_def tb Let_def g f be co)
  show ?thesis
    by (simp add: build_def lr demo_cleanBuildDir de
        demoTrace_def routeTrace_def bootstrapTrace_def checkoutModule_def sampleExtension_def)
qed

lemma broken_routes_modules:
  "modules demoBrokenRoutesEnv = [checkoutModule] @ sampleExtension # []"
  by (simp add: modules_def demoBrokenRoutesEnv_def demoBuildEnv_def)

lemma broken_routes_first:
  "loadRoutes demoBrokenRoutesEnv [checkoutModule] (routeTable demoWorld) =
     ([EvLoadModuleRoutes ''/app/modules/checkout''], Inr [''/app/modules/checkout''])"
  by (simp add: demoBrokenRoutesEnv_def demoBuildEnv_def demoWorld_def checkoutModule_def)

lemma broken_routes_thrown:
  "fst (loadModuleRoutes demoBrokenRoutesEnv (path sampleExtension) [''/app/modules/checkout'']) =
     Some (Thrown ''Invalid route'')"
  by (simp add: demoBrokenRoutesEnv_def demoBuildEnv_def sampleExtension_def)

lemma broken_bootstrap_modules:
  "modules demoBrokenBootstrapEnv = [checkoutModule] @ sampleExtension # []"
  by (simp add: modules_def demoBrokenBootstrapEnv_def demoBuildEnv_def)

lemma broken_bootstrap_routes:
  "loadRoutes demoBrokenBootstrapEnv (modules demoBrokenBootstrapEnv) (routeTable demoWorld) =
     (routeTrace [checkoutModule, sampleExtension],
      Inr [''/app/modules/checkout'', ''/app/extensions/sample''])"
  by (simp add: modules_def demoBrokenBootstrapEnv_def demoBuildEnv_def demoWorld_def
      routeTrace_def checkoutModule_def sampleExtension_def)

lemma broken_bootstrap_clean:
  "cleanBuildDir demoBrokenBootstrapEnv = ([EvExistsSync, EvRmSync, EvMkdirSync False], None)"
  by (simp add: cleanBuildDir_def demoBrokenBootstrapEnv_def demoBuildEnv_def)

lemma broken_bootstrap_first:
  "loadBootstraps demoBrokenBootstrapEnv [checkoutModule] (kernel demoWorld) =
     ([EvBootstrapStart checkoutModule, EvBootstrapSettled checkoutModule],
      Inr (snd (onRegistry (checkoutBootstrap demoCheckoutDeps) (kernel demoWorld))))"
proof -
  have "loadBootstrapScript demoBrokenBootstrapEnv checkoutModule (kernel demoWorld) =
      loadBootstrapScript demoBuildEnv checkoutModule (kernel demoWorld)"
    by (simp add: demoBrokenBootstrapEnv_def demoBuildEnv_def checkoutModule_def)
  then show ?thesis
    by (simp add: demo_checkout_bootstrap)
qed

lemma broken_bootstrap_thrown:
  "fst (loadBootstrapScript demoBrokenBootstrapEnv sampleExtension k) =
     Some (Thrown ''bootstrap failed'')"
  by (simp add: demoBrokenBootstrapEnv_def demoBuildEnv_def sampleExtension_def)

lemma broken_routes_build:
  "build demoBrokenRoutesEnv demoWorld =
     ([EvLoadModuleRoutes ''/app/modules/checkout'', EvLoadModuleRoutes ''/app/extensions/sample'',
       EvError (Thrown ''Invalid route''), EvExit 0],
      Exited 0)"
  using route_failure_exit [OF broken_routes_modules broken_routes_first broken_routes_thrown]
  by (simp add: routeTrace_def checkoutModule_def sampleExtension_def)

lemma broken_bootstrap_build:
  "build demoBrokenBootstrapEnv demoWorld =
     ([EvLoadModuleRoutes ''/app/modules/checkout'', EvLoadModuleRoutes ''/app/extensions/sample'',
       EvExistsSync, EvRmSync, EvMkdirSync False,
       EvBootstrapStart checkoutModule, EvBootstrapSettled checkoutModule,
       EvBootstrapStart sampleExtension, EvBootstrapSettled sampleExtension,
       EvError (Thrown ''bootstrap failed''), EvExit 0],
      Exited 0)"
  using bootstrap_failure_exit [OF broken_bootstrap_routes broken_bootstrap_clean
      broken_bootstrap_modules broken_bootstrap_first broken_bootstrap_thrown]
  by (simp add: routeTrace_def bootstrapTrace_def broken_bootstrap_modules
      checkoutModule_def sampleExtension_def)

subsection \<open>The claims about the build command\<close>

text \<open>
  C1, as the code has it. For every module of the startup list, a failure to load that
  module's route declarations, and any exception thrown while its bootstrap script runs,
  are fatal: the error is logged and the process terminates at once, with exit status 0,
  and nothing of the startup runs afterwards. Whenever the command exits, the status is 0
  and the last two calls are the logging of the error and the exit.
\<close>

theorem startup_failure_logged_exit_zero:
  "(modules env = ms1 @ m # ms2 \<and> loadRoutes env ms1 (routeTable w) = (evs, Inr t) \<and>
    fst (loadModuleRoutes env (path m) t) = Some e \<longrightarrow>
      build env w = (routeTrace (ms1 @ [m]) @ [EvError e, EvExit 0], Exited 0)) \<and>
   (loadRoutes env (modules env) (routeTable w) = (evs1, Inr t1) \<and>
    cleanBuildDir env = (evs2, None) \<and>
    modules env = ms1' @ m' # ms2' \<and> loadBootstraps env ms1' (kernel w) = (evs3, Inr k) \<and>
    fst (loadBootstrapScript env m' k) = Some e' \<longrightarrow>
      build env w =
        (routeTrace (modules env) @ evs2 @ bootstrapTrace (ms1' @ [m']) @ [EvError e', EvExit 0],
         Exited 0)) \<and>
   (\<forall>c. snd (build env w) = Exited c \<longrightarrow>
      c = 0 \<and> (\<exists>pre err. fst (build env w) = pre @ [EvError err, EvExit 0]))"
proof (intro conjI impI allI)
  assume "modules env = ms1 @ m # ms2 \<and> loadRoutes env ms1 (routeTable w) = (evs, Inr t) \<and>
    fst (loadModuleRoutes env (path m) t) = Some e"
  then show "build env w = (routeTrace (ms1 @ [m]) @ [EvError e, EvExit 0], Exited 0)"
    by (elim conjE) (rule route_failure_exit)
next
  assume "loadRoutes env (modules env) (routeTable w) = (evs1, Inr t1) \<and>
    cleanBuildDir env = (evs2, None) \<and>
    modules env = ms1' @ m' # ms2' \<and> loadBootstraps env ms1' (kernel w) = (evs3, Inr k) \<and>
    fst (loadBootstrapScript env m' k) = Some e'"
  then show "build env w =
        (routeTrace (modules env) @ evs2 @ bootstrapTrace (ms1' @ [m']) @ [EvError e', EvExit 0],
         Exited 0)"
    by (elim conjE) (rule bootstrap_failure_exit)
next
  fix c assume "snd (build env w) = Exited c"
  then show "c = 0" by (rule exit_status_zero(1))
next
  fix c assume "snd (build env w) = Exited c"
  then show "\<exists>pre err. fst (build env w) = pre @ [EvError err, EvExit 0]"
    by (rule exit_status_zero(2))
qed

text \<open>
  Against C1 as stated: a module whose routes fail to load, and a module whose bootstrap
  throws, each end the process with status 0, which is neither non-zero nor an abort.
\<close>

theorem startup_failure_exit_status_counterexample:
  "fst (loadModuleRoutes demoBrokenRoutesEnv (path sampleExtension) [''/app/modules/checkout'']) =
     Some (Thrown ''Invalid route'') \<and>
   snd (build demoBrokenRoutesEnv demoWorld) = Exited 0 \<and>
   \<not> nonZeroOrAborted (snd (build demoBrokenRoutesEnv demoWorld)) \<and>
   fst (loadBootstrapScript demoBrokenBootstrapEnv sampleExtension
          (snd (onRegistry (checkoutBootstrap demoCheckoutDeps) (kernel demoWorld)))) =
     Some (Thrown ''bootstrap failed'') \<and>
   snd (build demoBrokenBootstrapEnv demoWorld) = Exited 0 \<and>
   \<not> nonZeroOrAborted (snd (build demoBrokenBootstrapEnv demoWorld))"
  by (simp add: broken_routes_thrown broken_bootstrap_thrown broken_routes_build
      broken_bootstrap_build nonZeroOrAborted_def)

theorem startup_failure_logged_exit_zero_witness:
  "build demoBrokenRoutesEnv demoWorld =
     (routeTrace [checkoutModule, sampleExtension] @ [EvError (Thrown ''Invalid route''), EvExit 0],
      Exited 0) \<and>
   build demoBrokenBootstrapEnv demoWorld =
     (routeTrace [checkoutModule, sampleExtension] @ [EvExistsSync, EvRmSync, EvMkdirSync False] @
        bootstrapTrace [checkoutModule, sampleExtension] @
        [EvError (Thrown ''bootstrap failed''), EvExit 0],
      Exited 0)"
proof -
  have h1: "modules demoBrokenRoutesEnv = [checkoutModule] @ sampleExtension # [] \<and>
      loadRoutes demoBrokenRoutesEnv [checkoutModule] (routeTable demoWorld) =
        ([EvLoadModuleRoutes ''/app/modules/checkout''], Inr [''/app/modules/checkout'']) \<and>
      fst (loadModuleRoutes demoBrokenRoutesEnv (path sampleExtension)
             [''/app/modules/checkout'']) = Some (Thrown ''Invalid route'')"
    by (intro conjI broken_routes_modules broken_routes_first broken_routes_thrown)
  have h2: "loadRoutes demoBrokenBootstrapEnv (modules demoBrokenBootstrapEnv)
        (routeTable demoWorld) =
        (routeTrace [checkoutModule, sampleExtension],
         Inr [''/app/modules/checkout'', ''/app/extensions/sample'']) \<and>
      cleanBuildDir demoBrokenBootstrapEnv = ([EvExistsSync, EvRmSync, EvMkdirSync False], None) \<and>
      modules demoBrokenBootstrapEnv = [checkoutModule] @ sampleExtension # [] \<and>
      loadBootstraps demoBrokenBootstrapEnv [checkoutModule] (kernel demoWorld) =
        ([EvBootstrapStart checkoutModule, EvBootstrapSettled checkoutModule],
         Inr (snd (onRegistry (checkoutBootstrap demoCheckoutDeps) (kernel demoWorld)))) \<and>
      fst (loadBootstrapScript demoBrokenBootstrapEnv sampleExtension
             (snd (onRegistry (checkoutBootstrap demoCheckoutDeps) (kernel demoWorld)))) =
        Some (Thrown ''bootstrap failed'')"
    by (intro conjI broken_bootstrap_routes broken_bootstrap_clean broken_bootstrap_modules
        broken_bootstrap_first broken_bootstrap_thrown)
  have r1: "build demoBrokenRoutesEnv demoWorld =
      (routeTrace ([checkoutModule] @ [sampleExtension]) @
         [EvError (Thrown ''Invalid route''), EvExit 0],
       Exited 0)"
    using startup_failure_logged_exit_zero
      [where env = demoBrokenRoutesEnv and w = demoWorld and ?ms1.0 = "[checkoutModule]"
        and m = sampleExtension and ?ms2.0 = "[]"
        and evs = "[EvLoadModuleRoutes ''/app/modules/checkout'']"
        and t = "[''/app/modules/checkout'']" and e = "Thrown ''Invalid route''",
        THEN conjunct1, THEN mp, OF h1] .
  have r2: "build demoBrokenBootstrapEnv demoWorld =
      (routeTrace (modules demoBrokenBootstrapEnv) @ [EvExistsSync, EvRmSync, EvMkdirSync False] @
         bootstrapTrace ([checkoutModule] @ [sampleExtension]) @
         [EvError (Thrown ''bootstrap failed''), EvExit 0],
       Exited 0)"
    using startup_failure_logged_exit_zero
      [where env = demoBrokenBootstrapEnv and w = demoWorld and ?ms1' = "[checkoutModule]"
        and m' = sampleExtension and ?ms2' = "[]"
        and ?evs1.0 = "routeTrace [checkoutModule, sampleExtension]"
        and ?t1.0 = "[''/app/modules/checkout'', ''/app/extensions/sample'']"
        and ?evs2.0 = "[EvExistsSync, EvRmSync, EvMkdirSync False]"
        and ?evs3.0 = "[EvBootstrapStart checkoutModule, EvBootstrapSettled checkoutModule]"
        and k = "snd (onRegistry (checkoutBootstrap demoCheckoutDeps) (kernel demoWorld))"
        and e' = "Thrown ''bootstrap failed''",
        THEN conjunct2, THEN conjunct1, THEN mp, OF h2] .
  show ?thesis
    using r1 r2 by (simp add: broken_bootstrap_modules)
qed

text \<open>
  C3. Once the registry is locked, \<open>addProcessor\<close> and \<open>addFinalProcessor\<close> fail with
  \<open>LockedRegistryError\<close> for every extension point name, used before or not, and leave
  the registry as it was; once the hook table is locked, \<open>addHook\<close> fails with
  \<open>LockedHooksError\<close> for every function name and leaves the table as it was. The lock
  functions lock, and the state left by a completed run of the build command is locked,
  so every registration after it fails in this way.
\<close>

theorem mutation_after_lock_fails:
  "(registryLocked reg \<longrightarrow>
      addProcessor pointName fn priority reg = (Some LockedRegistryError, reg) \<and>
      addFinalProcessor pointName fn reg = (Some LockedRegistryError, reg)) \<and>
   (hooksLocked tbl \<longrightarrow>
      addHook functionName kind hfn hpriority tbl = (Some LockedHooksError, tbl)) \<and>
   registryLocked (lockRegistry reg0) \<and> hooksLocked (lockHooks tbl0) \<and>
   (\<forall>w'. snd (build env w) = Completed w' \<longrightarrow>
      addProcessor pointName fn priority (registry (kernel w')) =
        (Some LockedRegistryError, registry (kernel w')) \<and>
      addFinalProcessor pointName fn (registry (kernel w')) =
        (Some LockedRegistryError, registry (kernel w')) \<and>
      addHook functionName kind hfn hpriority (hookTable (kernel w')) =
        (Some LockedHooksError, hookTable (kernel w')))"
proof (intro conjI allI impI)
  fix w' assume c: "snd (build env w) = Completed w'"
  have l: "registryLocked (registry (kernel w')) \<and> hooksLocked (hookTable (kernel w'))"
  proof (cases rule: build_phase_summary [of env w])
    case (stopped_early ran rest)
    then show ?thesis using c by simp
  next
    case (locked t pre post)
    then show ?thesis using c by simp
  qed
  show "addProcessor pointName fn priority (registry (kernel w')) =
        (Some LockedRegistryError, registry (kernel w'))"
    using l by (simp add: addProcessor_def)
  show "addFinalProcessor pointName fn (registry (kernel w')) =
        (Some LockedRegistryError, registry (kernel w'))"
    using l by (simp add: addFinalProcessor_def)
  show "addHook functionName kind hfn hpriority (hookTable (kernel w')) =
        (Some LockedHooksError, hookTable (kernel w'))"
    using l by (simp add: addHook_def)
qed (simp_all add: addProcessor_def addFinalProcessor_def addHook_def lockRegistry_def
    lockHooks_def)

theorem mutation_after_lock_fails_witness:
  "points (registry (lockKernel demoKernel)) ''neverUsedBefore'' = None \<and>
   addProcessor ''neverUsedBefore'' (pureProcessor (\<lambda>fs. fs)) 1 (registry (lockKernel demoKernel)) =
     (Some LockedRegistryError, registry (lockKernel demoKernel)) \<and>
   addFinalProcessor ''cartFields'' (pureProcessor (\<lambda>fs. fs)) (registry (lockKernel demoKernel)) =
     (Some LockedRegistryError, registry (lockKernel demoKernel)) \<and>
   addHook ''neverHooked'' Before () 1 (hookTable (lockKernel demoKernel)) =
     (Some LockedHooksError, hookTable (lockKernel demoKernel))"
proof -
  have c: "snd (build demoBuildEnv demoWorld) =
      Completed (demoWorld\<lparr> routeTable := [''/app/modules/checkout'', ''/app/extensions/sample''],
                            kernel := lockKernel demoKernel,
                            ALLOW_CONFIG_MUTATIONS := Some ''false'' \<rparr>)"
    by (simp add: demo_build)
  have unused: "points (registry (lockKernel demoKernel)) ''neverUsedBefore'' = None"
    by (simp add: lockKernel_def Let_def lockRegistry_def demoKernel_def onRegistry_def
        demoWorld_def emptyRegistry_def checkoutBootstrap_def addProcessor_def
        addFinalProcessor_def pointOf_def)
  from mutation_after_lock_fails
    [where env = demoBuildEnv and w = demoWorld and pointName = "''neverUsedBefore''"
      and fn = "pureProcessor (\<lambda>fs. fs)" and priority = 1 and functionName = "''neverHooked''"
      and kind = Before and hfn = "()" and hpriority = 1,
      THEN conjunct2, THEN conjunct2, THEN conjunct2, THEN conjunct2, THEN spec, THEN mp, OF c]
    mutation_after_lock_fails
    [where env = demoBuildEnv and w = demoWorld and pointName = "''cartFields''"
      and fn = "pureProcessor (\<lambda>fs. fs)",
      THEN conjunct2, THEN conjunct2, THEN conjunct2, THEN conjunct2, THEN spec, THEN mp, OF c]
  show ?thesis
    using unused by simp
qed

text \<open>
  C4. In a run of the build command the lock calls (\<open>lockHooks\<close>, \<open>lockRegistry\<close>)
  occur at most once, and exactly once when route loading, the clean-up and every
  module's bootstrap succeed; when they occur, the bootstrap script of every module of the
  list has settled before them, the configuration validation comes right after them, and
  no bootstrap, lock or validation call follows. Nothing unlocks afterwards: no operation
  of the registry or of the hook table resets the lock, and the state left by a completed
  run is locked.
\<close>

theorem lock_once_after_bootstrap_before_validation:
  "(inPhase Lock (fst (build env w)) = [] \<or>
    inPhase Lock (fst (build env w)) = [EvLockHooks, EvLockRegistry]) \<and>
   (inPhase Lock (fst (build env w)) \<noteq> [] \<longrightarrow>
      (\<exists>pre post.
         fst (build env w) = pre @ [EvLockHooks, EvLockRegistry, EvValidateConfiguration] @ post \<and>
         inPhase BootstrapLoading pre = bootstrapTrace (modules env) \<and>
         inPhase BootstrapLoading post = [] \<and>
         inPhase Lock pre = [] \<and> inPhase Lock post = [] \<and>
         inPhase ConfigValidation pre = [] \<and> inPhase ConfigValidation post = [])) \<and>
   (loadRoutes env (modules env) (routeTable w) = (evs1, Inr t) \<and>
    cleanBuildDir env = (evs2, None) \<and>
    loadBootstraps env (modules env) (kernel w) = (evs3, Inr k) \<longrightarrow>
      inPhase Lock (fst (build env w)) = [EvLockHooks, EvLockRegistry]) \<and>
   (\<forall>w'. snd (build env w) = Completed w' \<longrightarrow>
      inPhase Lock (fst (build env w)) = [EvLockHooks, EvLockRegistry] \<and>
      registryLocked (registry (kernel w')) \<and> hooksLocked (hookTable (kernel w'))) \<and>
   (registryLocked reg \<longrightarrow>
      registryLocked (snd (addProcessor pointName fn priority reg)) \<and>
      registryLocked (snd (addFinalProcessor pointName fn reg)) \<and>
      registryLocked (lockRegistry reg)) \<and>
   (hooksLocked tbl \<longrightarrow>
      hooksLocked (snd (addHook functionName kind hfn hpriority tbl)) \<and>
      hooksLocked (lockHooks tbl))"
proof -
  have api: "(registryLocked reg \<longrightarrow>
      registryLocked (snd (addProcessor pointName fn priority reg)) \<and>
      registryLocked (snd (addFinalProcessor pointName fn reg)) \<and>
      registryLocked (lockRegistry reg)) \<and>
   (hooksLocked tbl \<longrightarrow>
      hooksLocked (snd (addHook functionName kind hfn hpriority tbl)) \<and>
      hooksLocked (lockHooks tbl))"
    by (simp add: addProcessor_def addFinalProcessor_def addHook_def lockRegistry_def
        lockHooks_def)
  have combine: "\<And>A B C D E. A \<and> B \<and> C \<and> D \<Longrightarrow> E \<Longrightarrow> A \<and> B \<and> C \<and> D \<and> E"
    by simp
  show ?thesis
  proof (cases rule: build_phase_summary [of env w])
    case (stopped_early ran rest)
    have run: "(inPhase Lock (fst (build env w)) = [] \<or>
        inPhase Lock (fst (build env w)) = [EvLockHooks, EvLockRegistry]) \<and>
       (inPhase Lock (fst (build env w)) \<noteq> [] \<longrightarrow>
          (\<exists>pre post.
             fst (build env w) =
               pre @ [EvLockHooks, EvLockRegistry, EvValidateConfiguration] @ post \<and>
             inPhase BootstrapLoading pre = bootstrapTrace (modules env) \<and>
             inPhase BootstrapLoading post = [] \<and>
             inPhase Lock pre = [] \<and> inPhase Lock post = [] \<and>
             inPhase ConfigValidation pre = [] \<and> inPhase ConfigValidation post = [])) \<and>
       (loadRoutes env (modules env) (routeTable w) = (evs1, Inr t) \<and>
        cleanBuildDir env = (evs2, None) \<and>
        loadBootstraps env (modules env) (kernel w) = (evs3, Inr k) \<longrightarrow>
          inPhase Lock (fst (build env w)) = [EvLockHooks, EvLockRegistry]) \<and>
       (\<forall>w'. snd (build env w) = Completed w' \<longrightarrow>
          inPhase Lock (fst (build env w)) = [EvLockHooks, EvLockRegistry] \<and>
          registryLocked (registry (kernel w')) \<and> hooksLocked (hookTable (kernel w')))"
      by (simp only: stopped_early(3,7,8) simp_thms)
    show ?thesis
      by (rule combine [OF run api])
  next
    case (locked rt pre post)
    have l: "inPhase Lock (fst (build env w)) = [EvLockHooks, EvLockRegistry]"
      by (simp add: locked(2,5,6) inPhase_append inPhase_lockTrace)
    have shape: "fst (build env w) =
        pre @ [EvLockHooks, EvLockRegistry, EvValidateConfiguration] @ post"
      by (simp add: locked(2) lockTrace_def)
    have ex: "\<exists>pre post.
         fst (build env w) = pre @ [EvLockHooks, EvLockRegistry, EvValidateConfiguration] @ post \<and>
         inPhase BootstrapLoading pre = bootstrapTrace (modules env) \<and>
         inPhase BootstrapLoading post = [] \<and>
         inPhase Lock pre = [] \<and> inPhase Lock post = [] \<and>
         inPhase ConfigValidation pre = [] \<and> inPhase ConfigValidation post = []"
      by (intro exI conjI) (rule shape locked(3-8))+
    have fin: "\<forall>w'. snd (build env w) = Completed w' \<longrightarrow>
        inPhase Lock (fst (build env w)) = [EvLockHooks, EvLockRegistry] \<and>
        registryLocked (registry (kernel w')) \<and> hooksLocked (hookTable (kernel w'))"
      using locked(9) l by simp
    have run: "(inPhase Lock (fst (build env w)) = [] \<or>
        inPhase Lock (fst (build env w)) = [EvLockHooks, EvLockRegistry]) \<and>
       (inPhase Lock (fst (build env w)) \<noteq> [] \<longrightarrow>
          (\<exists>pre post.
             fst (build env w) =
               pre @ [EvLockHooks, EvLockRegistry, EvValidateConfiguration] @ post \<and>
             inPhase BootstrapLoading pre = bootstrapTrace (modules env) \<and>
             inPhase BootstrapLoading post = [] \<and>
             inPhase Lock pre = [] \<and> inPhase Lock post = [] \<and>
             inPhase ConfigValidation pre = [] \<and> inPhase ConfigValidation post = [])) \<and>
       (loadRoutes env (modules env) (routeTable w) = (evs1, Inr t) \<and>
        cleanBuildDir env = (evs2, None) \<and>
        loadBootstraps env (modules env) (kernel w) = (evs3, Inr k) \<longrightarrow>
          inPhase Lock (fst (build env w)) = [EvLockHooks, EvLockRegistry]) \<and>
       (\<forall>w'. snd (build env w) = Completed w' \<longrightarrow>
          inPhase Lock (fst (build env w)) = [EvLockHooks, EvLockRegistry] \<and>
          registryLocked (registry (kernel w')) \<and> hooksLocked (hookTable (kernel w')))"
      by (intro conjI impI disjI2 l ex fin)
    show ?thesis
      by (rule combine [OF run api])
  qed
qed

theorem lock_once_after_bootstrap_before_validation_witness:
  "inPhase Lock (fst (build demoBuildEnv demoWorld)) = [EvLockHooks, EvLockRegistry] \<and>
   registryLocked (registry (lockKernel demoKernel)) \<and>
   hooksLocked (hookTable (lockKernel demoKernel)) \<and>
   snd (build demoBuildEnv demoWorld) =
      Completed (demoWorld\<lparr> routeTable := [''/app/modules/checkout'', ''/app/extensions/sample''],
                            kernel := lockKernel demoKernel,
                            ALLOW_CONFIG_MUTATIONS := Some ''false'' \<rparr>)"
proof -
  have c: "snd (build demoBuildEnv demoWorld) =
      Completed (demoWorld\<lparr> routeTable := [''/app/modules/checkout'', ''/app/extensions/sample''],
                            kernel := lockKernel demoKernel,
                            ALLOW_CONFIG_MUTATIONS := Some ''false'' \<rparr>)"
    by (simp add: demo_build)
  from lock_once_after_bootstrap_before_validation [of demoBuildEnv demoWorld,
      THEN conjunct2, THEN conjunct2, THEN conjunct2, THEN conjunct1, THEN spec, THEN mp, OF c]
  show ?thesis
    using c by simp
qed

text \<open>
  C5. The startup module list is the core modules followed by the enabled extensions, each
  in the order given. The bootstrap calls of a run are, in order, start and settlement of
  a first part of that list, one module after the other (all of the list when the run
  completes): a module's bootstrap starts only after the previous module's has settled.
  The run applies \<open>loadBootstrapScript\<close> to the modules in the order of the list, each
  to the state that the previous script left: a run completes only if every script of the
  list, applied in that order to these states, returned without throwing, and the state of
  a completed run is the locked state that the last script left. When route loading and
  the clean-up succeed and the scripts of the first \<open>n\<close> modules return, each on the
  state its predecessor left, but the next one throws on the state they left, the run logs
  that error and exits after the bootstrap calls of these \<open>n + 1\<close> modules, without
  starting a later one; when all of them return, the bootstrap calls are those of the whole
  list.
\<close>

theorem bootstrap_sequential_core_first:
  "modules env = getCoreModules env @ getEnabledExtensions env \<and>
   (\<exists>ran rest. modules env = ran @ rest \<and>
      inPhase BootstrapLoading (fst (build env w)) = bootstrapTrace ran) \<and>
   (\<forall>w'. snd (build env w) = Completed w' \<longrightarrow>
      inPhase BootstrapLoading (fst (build env w)) =
        bootstrapTrace (getCoreModules env) @ bootstrapTrace (getEnabledExtensions env) \<and>
      (\<exists>ks. length ks = length (modules env) \<and>
         (\<forall>i<length (modules env).
            loadBootstrapScript env (modules env ! i) ((kernel w # ks) ! i) = (None, ks ! i)) \<and>
         kernel w' = lockKernel (last (kernel w # ks)))) \<and>
   (loadRoutes env (modules env) (routeTable w) = (evs1, Inr t) \<and>
    cleanBuildDir env = (evs2, None) \<and>
    n < length (modules env) \<and> length ks = n \<and>
    (\<forall>i<n. loadBootstrapScript env (modules env ! i) ((kernel w # ks) ! i) = (None, ks ! i)) \<and>
    fst (loadBootstrapScript env (modules env ! n) ((kernel w # ks) ! n)) = Some e \<longrightarrow>
      build env w =
        (routeTrace (modules env) @ evs2 @ bootstrapTrace (take (Suc n) (modules env)) @
         [EvError e, EvExit 0], Exited 0)) \<and>
   (loadRoutes env (modules env) (routeTable w) = (evs1, Inr t) \<and>
    cleanBuildDir env = (evs2, None) \<and>
    length ks = length (modules env) \<and>
    (\<forall>i<length (modules env).
       loadBootstrapScript env (modules env ! i) ((kernel w # ks) ! i) = (None, ks ! i)) \<longrightarrow>
      inPhase BootstrapLoading (fst (build env w)) = bootstrapTrace (modules env) \<and>
      (\<forall>w'. snd (build env w) = Completed w' \<longrightarrow>
         kernel w' = lockKernel (last (kernel w # ks)))) \<and>
   loadBootstraps env (ms1 @ m # ms2) k =
     (case loadBootstraps env ms1 k of
        (evs, Inl e) \<Rightarrow> (evs, Inl e)
      | (evs, Inr k1) \<Rightarrow>
          (case loadBootstrapScript env m k1 of
             (Some e, k2) \<Rightarrow> (evs @ [EvBootstrapStart m, EvBootstrapSettled m], Inl e)
           | (None, k2) \<Rightarrow>
               (case loadBootstraps env ms2 k2 of
                  (evs', r) \<Rightarrow> (evs @ EvBootstrapStart m # EvBootstrapSettled m # evs', r))))"
proof (intro conjI allI impI)
  show "modules env = getCoreModules env @ getEnabledExtensions env"
    by (simp add: modules_def)
next
  show "\<exists>ran rest. modules env = ran @ rest \<and>
      inPhase BootstrapLoading (fst (build env w)) = bootstrapTrace ran"
    by (rule bootstrap_events_prefix)
next
  fix w' assume "snd (build env w) = Completed w'"
  then show "inPhase BootstrapLoading (fst (build env w)) =
        bootstrapTrace (getCoreModules env) @ bootstrapTrace (getEnabledExtensions env)"
    by (rule bootstrap_events_completed)
next
  fix w' assume "snd (build env w) = Completed w'"
  then show "\<exists>ks. length ks = length (modules env) \<and>
         (\<forall>i<length (modules env).
            loadBootstrapScript env (modules env ! i) ((kernel w # ks) ! i) = (None, ks ! i)) \<and>
         kernel w' = lockKernel (last (kernel w # ks))"
    by (rule completed_scripts_ran)
next
  assume h: "loadRoutes env (modules env) (routeTable w) = (evs1, Inr t) \<and>
    cleanBuildDir env = (evs2, None) \<and>
    n < length (modules env) \<and> length ks = n \<and>
    (\<forall>i<n. loadBootstrapScript env (modules env ! i) ((kernel w # ks) ! i) = (None, ks ! i)) \<and>
    fst (loadBootstrapScript env (modules env ! n) ((kernel w # ks) ! n)) = Some e"
  note lr = h [THEN conjunct1]
    and cb = h [THEN conjunct2, THEN conjunct1]
    and n = h [THEN conjunct2, THEN conjunct2, THEN conjunct1]
    and len = h [THEN conjunct2, THEN conjunct2, THEN conjunct2, THEN conjunct1]
    and step = h [THEN conjunct2, THEN conjunct2, THEN conjunct2, THEN conjunct2, THEN conjunct1]
    and thrown = h [THEN conjunct2, THEN conjunct2, THEN conjunct2, THEN conjunct2, THEN conjunct2]
  have lb: "loadBootstraps env (modules env) (kernel w) =
      (bootstrapTrace (take (Suc n) (modules env)), Inl e)"
    using n len step thrown by (rule loadBootstraps_of_states_thrown)
  show "build env w =
        (routeTrace (modules env) @ evs2 @ bootstrapTrace (take (Suc n) (modules env)) @
         [EvError e, EvExit 0], Exited 0)"
    using lr cb lb by (rule build_bootstrap_thrown)
next
  assume h: "loadRoutes env (modules env) (routeTable w) = (evs1, Inr t) \<and>
    cleanBuildDir env = (evs2, None) \<and>
    length ks = length (modules env) \<and>
    (\<forall>i<length (modules env).
       loadBootstrapScript env (modules env ! i) ((kernel w # ks) ! i) = (None, ks ! i))"
  note lr = h [THEN conjunct1]
    and cb = h [THEN conjunct2, THEN conjunct1]
    and len = h [THEN conjunct2, THEN conjunct2, THEN conjunct1]
    and step = h [THEN conjunct2, THEN conjunct2, THEN conjunct2]
  show "inPhase BootstrapLoading (fst (build env w)) = bootstrapTrace (modules env)"
    using lr cb len step by (rule all_scripts_ok_trace)
next
  fix w'
  assume h: "loadRoutes env (modules env) (routeTable w) = (evs1, Inr t) \<and>
    cleanBuildDir env = (evs2, None) \<and>
    length ks = length (modules env) \<and>
    (\<forall>i<length (modules env).
       loadBootstrapScript env (modules env ! i) ((kernel w # ks) ! i) = (None, ks ! i))"
    and c: "snd (build env w) = Completed w'"
  note len = h [THEN conjunct2, THEN conjunct2, THEN conjunct1]
    and step = h [THEN conjunct2, THEN conjunct2, THEN conjunct2]
  show "kernel w' = lockKernel (last (kernel w # ks))"
    using c len step by (rule completed_kernel)
next
  show "loadBootstraps env (ms1 @ m # ms2) k =
     (case loadBootstraps env ms1 k of
        (evs, Inl e) \<Rightarrow> (evs, Inl e)
      | (evs, Inr k1) \<Rightarrow>
          (case loadBootstrapScript env m k1 of
             (Some e, k2) \<Rightarrow> (evs @ [EvBootstrapStart m, EvBootstrapSettled m], Inl e)
           | (None, k2) \<Rightarrow>
               (case loadBootstraps env ms2 k2 of
                  (evs', r) \<Rightarrow> (evs @ EvBootstrapStart m # EvBootstrapSettled m # evs', r))))"
    by (rule loadBootstraps_threads_kernel)
qed

theorem bootstrap_sequential_core_first_witness:
  "modules demoBuildEnv = [checkoutModule, sampleExtension] \<and>
   inPhase BootstrapLoading (fst (build demoBuildEnv demoWorld)) =
     [EvBootstrapStart checkoutModule, EvBootstrapSettled checkoutModule,
      EvBootstrapStart sampleExtension, EvBootstrapSettled sampleExtension] \<and>
   (\<exists>k1 k2.
      loadBootstrapScript demoBuildEnv checkoutModule (kernel demoWorld) = (None, k1) \<and>
      loadBootstrapScript demoBuildEnv sampleExtension k1 = (None, k2) \<and>
      lockKernel demoKernel = lockKernel k2) \<and>
   loadBootstrapScript demoBuildEnv sampleExtension
      (snd (onRegistry (checkoutBootstrap demoCheckoutDeps) (kernel demoWorld))) =
      (None, demoKernel) \<and>
   inPhase BootstrapLoading (fst (build demoBuildEnv demoWorld)) =
      bootstrapTrace (modules demoBuildEnv) \<and>
   loadBootstrapScript demoBrokenBootstrapEnv checkoutModule (kernel demoWorld) =
      (None, snd (onRegistry (checkoutBootstrap demoCheckoutDeps) (kernel demoWorld))) \<and>
   fst (loadBootstrapScript demoBrokenBootstrapEnv sampleExtension
      (snd (onRegistry (checkoutBootstrap demoCheckoutDeps) (kernel demoWorld)))) =
      Some (Thrown ''bootstrap failed'') \<and>
   build demoBrokenBootstrapEnv demoWorld =
     ([EvLoadModuleRoutes ''/app/modules/checkout'', EvLoadModuleRoutes ''/app/extensions/sample'',
       EvExistsSync, EvRmSync, EvMkdirSync False,
       EvBootstrapStart checkoutModule, EvBootstrapSettled checkoutModule,
       EvBootstrapStart sampleExtension, EvBootstrapSettled sampleExtension,
       EvError (Thrown ''bootstrap failed''), EvExit 0],
      Exited 0)"
proof -
  let ?k1 = "snd (onRegistry (checkoutBootstrap demoCheckoutDeps) (kernel demoWorld))"
  have c: "snd (build demoBuildEnv demoWorld) =
      Completed (demoWorld\<lparr> routeTable := [''/app/modules/checkout'', ''/app/extensions/sample''],
                            kernel := lockKernel demoKernel,
                            ALLOW_CONFIG_MUTATIONS := Some ''false'' \<rparr>)"
    by (simp add: demo_build)
  note run = bootstrap_sequential_core_first [of demoBuildEnv demoWorld, THEN conjunct2,
      THEN conjunct2, THEN conjunct1, THEN spec, THEN mp, OF c]
  have ms: "modules demoBuildEnv = [checkoutModule, sampleExtension]"
    using bootstrap_sequential_core_first [of demoBuildEnv demoWorld, THEN conjunct1]
    by (simp add: demoBuildEnv_def)
  have tr: "inPhase BootstrapLoading (fst (build demoBuildEnv demoWorld)) =
     [EvBootstrapStart checkoutModule, EvBootstrapSettled checkoutModule,
      EvBootstrapStart sampleExtension, EvBootstrapSettled sampleExtension]"
    using run [THEN conjunct1] by (simp add: demoBuildEnv_def bootstrapTrace_def)
  from run [THEN conjunct2] obtain ks where
    len: "length ks = length (modules demoBuildEnv)"
    and step: "\<forall>i<length (modules demoBuildEnv).
         loadBootstrapScript demoBuildEnv (modules demoBuildEnv ! i) ((kernel demoWorld # ks) ! i) =
           (None, ks ! i)"
    and fin: "kernel (demoWorld\<lparr> routeTable := [''/app/modules/checkout'', ''/app/extensions/sample''],
                            kernel := lockKernel demoKernel,
                            ALLOW_CONFIG_MUTATIONS := Some ''false'' \<rparr>) =
              lockKernel (last (kernel demoWorld # ks))"
    by (elim exE conjE)
  from len have "length ks = Suc (Suc 0)"
    by (simp only: ms list.size)
  then obtain k1 k2 where ks: "ks = [k1, k2]"
    by (auto simp add: length_Suc_conv)
  have s0: "loadBootstrapScript demoBuildEnv checkoutModule (kernel demoWorld) = (None, k1)"
    using step [rule_format, of 0] by (simp add: ms ks)
  have s1: "loadBootstrapScript demoBuildEnv sampleExtension k1 = (None, k2)"
    using step [rule_format, of "Suc 0"] by (simp add: ms ks)
  have s2: "lockKernel demoKernel = lockKernel k2"
    using fin by (simp add: ks)
  have scripts: "\<exists>k1 k2.
      loadBootstrapScript demoBuildEnv checkoutModule (kernel demoWorld) = (None, k1) \<and>
      loadBootstrapScript demoBuildEnv sampleExtension k1 = (None, k2) \<and>
      lockKernel demoKernel = lockKernel k2"
    by (intro exI conjI) (rule s0 s1 s2)+
  have d0: "loadBootstrapScript demoBuildEnv checkoutModule (kernel demoWorld) = (None, ?k1)"
    by (rule demo_checkout_bootstrap)
  have d1: "loadBootstrapScript demoBuildEnv sampleExtension ?k1 = (None, demoKernel)"
    by (rule demo_sample_bootstrap)
  have rt: "routeTable demoWorld = []"
    by (simp add: demoWorld_def)
  have all_ok: "loadRoutes demoBuildEnv (modules demoBuildEnv) (routeTable demoWorld) =
        (routeTrace [checkoutModule, sampleExtension],
         Inr [''/app/modules/checkout'', ''/app/extensions/sample'']) \<and>
    cleanBuildDir demoBuildEnv = ([EvExistsSync, EvRmSync, EvMkdirSync False], None) \<and>
    length [?k1, demoKernel] = length (modules demoBuildEnv) \<and>
    (\<forall>i<length (modules demoBuildEnv).
       loadBootstrapScript demoBuildEnv (modules demoBuildEnv ! i)
         ((kernel demoWorld # [?k1, demoKernel]) ! i) = (None, [?k1, demoKernel] ! i))"
  proof (intro conjI allI impI)
    show "loadRoutes demoBuildEnv (modules demoBuildEnv) (routeTable demoWorld) =
        (routeTrace [checkoutModule, sampleExtension],
         Inr [''/app/modules/checkout'', ''/app/extensions/sample''])"
      by (simp only: ms rt demo_loadRoutes)
    show "cleanBuildDir demoBuildEnv = ([EvExistsSync, EvRmSync, EvMkdirSync False], None)"
      by (rule demo_cleanBuildDir)
    show "length [?k1, demoKernel] = length (modules demoBuildEnv)"
      by (simp add: ms)
  next
    fix i assume "i < length (modules demoBuildEnv)"
    then have "i = 0 \<or> i = Suc 0"
      by (simp add: ms less_Suc_eq)
    then show "loadBootstrapScript demoBuildEnv (modules demoBuildEnv ! i)
         ((kernel demoWorld # [?k1, demoKernel]) ! i) = (None, [?k1, demoKernel] ! i)"
    proof
      assume "i = 0"
      then show ?thesis using d0 by (simp add: ms)
    next
      assume "i = Suc 0"
      then show ?thesis using d1 by (simp add: ms)
    qed
  qed
  have whole: "inPhase BootstrapLoading (fst (build demoBuildEnv demoWorld)) =
      bootstrapTrace (modules demoBuildEnv)"
    by (rule bootstrap_sequential_core_first [of demoBuildEnv demoWorld,
        THEN conjunct2, THEN conjunct2, THEN conjunct2, THEN conjunct2, THEN conjunct1,
        THEN mp, OF all_ok, THEN conjunct1])
  have bms: "modules demoBrokenBootstrapEnv = [checkoutModule, sampleExtension]"
    by (simp add: broken_bootstrap_modules)
  have b0: "loadBootstrapScript demoBrokenBootstrapEnv checkoutModule (kernel demoWorld) =
      (None, ?k1)"
  proof -
    have "loadBootstrapScript demoBrokenBootstrapEnv checkoutModule (kernel demoWorld) =
      loadBootstrapScript demoBuildEnv checkoutModule (kernel demoWorld)"
      by (simp add: demoBrokenBootstrapEnv_def demoBuildEnv_def checkoutModule_def)
    then show ?thesis by (simp only: demo_checkout_bootstrap)
  qed
  have b1: "fst (loadBootstrapScript demoBrokenBootstrapEnv sampleExtension ?k1) =
      Some (Thrown ''bootstrap failed'')"
    by (rule broken_bootstrap_thrown)
  have hyp: "loadRoutes demoBrokenBootstrapEnv (modules demoBrokenBootstrapEnv)
        (routeTable demoWorld) =
        (routeTrace [checkoutModule, sampleExtension],
         Inr [''/app/modules/checkout'', ''/app/extensions/sample'']) \<and>
    cleanBuildDir demoBrokenBootstrapEnv = ([EvExistsSync, EvRmSync, EvMkdirSync False], None) \<and>
    1 < length (modules demoBrokenBootstrapEnv) \<and> length [?k1] = 1 \<and>
    (\<forall>i<1. loadBootstrapScript demoBrokenBootstrapEnv (modules demoBrokenBootstrapEnv ! i)
        ((kernel demoWorld # [?k1]) ! i) = (None, [?k1] ! i)) \<and>
    fst (loadBootstrapScript demoBrokenBootstrapEnv (modules demoBrokenBootstrapEnv ! 1)
        ((kernel demoWorld # [?k1]) ! 1)) = Some (Thrown ''bootstrap failed'')"
  proof (intro conjI)
    show "loadRoutes demoBrokenBootstrapEnv (modules demoBrokenBootstrapEnv)
        (routeTable demoWorld) =
        (routeTrace [checkoutModule, sampleExtension],
         Inr [''/app/modules/checkout'', ''/app/extensions/sample''])"
      by (rule broken_bootstrap_routes)
    show "cleanBuildDir demoBrokenBootstrapEnv = ([EvExistsSync, EvRmSync, EvMkdirSync False], None)"
      by (rule broken_bootstrap_clean)
    show "1 < length (modules demoBrokenBootstrapEnv)"
      by (simp add: bms)
    show "length [?k1] = 1" by simp
    show "\<forall>i<1. loadBootstrapScript demoBrokenBootstrapEnv (modules demoBrokenBootstrapEnv ! i)
        ((kernel demoWorld # [?k1]) ! i) = (None, [?k1] ! i)"
      using b0 by (simp add: bms)
    show "fst (loadBootstrapScript demoBrokenBootstrapEnv (modules demoBrokenBootstrapEnv ! 1)
        ((kernel demoWorld # [?k1]) ! 1)) = Some (Thrown ''bootstrap failed'')"
      using b1 by (simp add: bms)
  qed
  have failed: "build demoBrokenBootstrapEnv demoWorld =
     ([EvLoadModuleRoutes ''/app/modules/checkout'', EvLoadModuleRoutes ''/app/extensions/sample'',
       EvExistsSync, EvRmSync, EvMkdirSync False,
       EvBootstrapStart checkoutModule, EvBootstrapSettled checkoutModule,
       EvBootstrapStart sampleExtension, EvBootstrapSettled sampleExtension,
       EvError (Thrown ''bootstrap failed''), EvExit 0],
      Exited 0)"
    using bootstrap_sequential_core_first [of demoBrokenBootstrapEnv demoWorld,
        THEN conjunct2, THEN conjunct2, THEN conjunct2, THEN conjunct1, THEN mp, OF hyp]
    by (simp add: bms routeTrace_def bootstrapTrace_def checkoutModule_def sampleExtension_def)
  show ?thesis
    by (intro conjI) (rule ms tr scripts d1 whole b0 b1 failed)+
qed

text \<open>
  C6, as the code has it. The phases run in this order: route loading, the clearing and
  recreating of the build output directory, bootstrap loading, lock, configuration
  validation, Build Gate filtering, entry generation, compile. A run that completes goes
  through all of them.
\<close>

theorem pipeline_phase_order:
  "inOrder codeOrder (fst (build env w)) \<and>
   (\<forall>w'. snd (build env w) = Completed w' \<longrightarrow>
      (\<exists>cleanup.
         (cleanup = [EvExistsSync, EvRmSync, EvMkdirSync False] \<or>
          cleanup = [EvExistsSync, EvMkdirSync True]) \<and>
         fst (build env w) =
           routeTrace (modules env) @ cleanup @ bootstrapTrace (modules env) @
           [EvLockHooks, EvLockRegistry, EvValidateConfiguration] @
           [EvSetEnv, EvGetRoutes] @ map EvIsBuildRequired (getRoutes env (routeTable w')) @
           [EvBuildEntry (filter (isBuildRequired env) (getRoutes env (routeTable w'))),
            EvCompile (getRoutes env (routeTable w'))]))"
proof (intro conjI allI impI)
  show "inOrder codeOrder (fst (build env w))"
    by (rule build_in_code_order)
next
  fix w' assume "snd (build env w) = Completed w'"
  then show "\<exists>cleanup.
         (cleanup = [EvExistsSync, EvRmSync, EvMkdirSync False] \<or>
          cleanup = [EvExistsSync, EvMkdirSync True]) \<and>
         fst (build env w) =
           routeTrace (modules env) @ cleanup @ bootstrapTrace (modules env) @
           [EvLockHooks, EvLockRegistry, EvValidateConfiguration] @
           [EvSetEnv, EvGetRoutes] @ map EvIsBuildRequired (getRoutes env (routeTable w')) @
           [EvBuildEntry (filter (isBuildRequired env) (getRoutes env (routeTable w'))),
            EvCompile (getRoutes env (routeTable w'))]"
    by (rule completed_trace)
qed

text \<open>
  Against C6 as stated: the build directory is cleared before the bootstrap scripts run,
  not after the Build Gate as the first step of the Build Orchestrator.
\<close>

theorem pipeline_phase_order_counterexample:
  "\<not> inOrder claimedOrder (fst (build demoBuildEnv demoWorld))"
  by (simp add: demo_build demoTrace_def inOrder_def)

theorem pipeline_phase_order_witness:
  "inOrder codeOrder (fst (build demoBuildEnv demoWorld)) \<and>
   (\<exists>cleanup.
      (cleanup = [EvExistsSync, EvRmSync, EvMkdirSync False] \<or>
       cleanup = [EvExistsSync, EvMkdirSync True]) \<and>
      fst (build demoBuildEnv demoWorld) =
        routeTrace [checkoutModule, sampleExtension] @ cleanup @
        bootstrapTrace [checkoutModule, sampleExtension] @
        [EvLockHooks, EvLockRegistry, EvValidateConfiguration] @
        [EvSetEnv, EvGetRoutes] @
        map EvIsBuildRequired [''/app/modules/checkout'', ''/app/extensions/sample''] @
        [EvBuildEntry [''/app/modules/checkout''],
         EvCompile [''/app/modules/checkout'', ''/app/extensions/sample'']]) \<and>
   fst (build demoBuildEnv demoWorld) = demoTrace"
proof -
  have c: "snd (build demoBuildEnv demoWorld) =
      Completed (demoWorld\<lparr> routeTable := [''/app/modules/checkout'', ''/app/extensions/sample''],
                            kernel := lockKernel demoKernel,
                            ALLOW_CONFIG_MUTATIONS := Some ''false'' \<rparr>)"
    by (simp add: demo_build)
  have g: "getRoutes demoBuildEnv [''/app/modules/checkout'', ''/app/extensions/sample''] =
        [''/app/modules/checkout'', ''/app/extensions/sample'']"
    and f: "isBuildRequired demoBuildEnv ''/app/modules/checkout''"
      "\<not> isBuildRequired demoBuildEnv ''/app/extensions/sample''"
    by (simp_all add: demoBuildEnv_def)
  have ordered: "inOrder codeOrder (fst (build demoBuildEnv demoWorld))"
    using pipeline_phase_order [of demoBuildEnv demoWorld] by (rule conjunct1)
  have complete: "\<exists>cleanup.
      (cleanup = [EvExistsSync, EvRmSync, EvMkdirSync False] \<or>
       cleanup = [EvExistsSync, EvMkdirSync True]) \<and>
      fst (build demoBuildEnv demoWorld) =
        routeTrace [checkoutModule, sampleExtension] @ cleanup @
        bootstrapTrace [checkoutModule, sampleExtension] @
        [EvLockHooks, EvLockRegistry, EvValidateConfiguration] @
        [EvSetEnv, EvGetRoutes] @
        map EvIsBuildRequired [''/app/modules/checkout'', ''/app/extensions/sample''] @
        [EvBuildEntry [''/app/modules/checkout''],
         EvCompile [''/app/modules/checkout'', ''/app/extensions/sample'']]"
    using pipeline_phase_order [of demoBuildEnv demoWorld, THEN conjunct2, THEN spec, THEN mp, OF c]
    by (simp add: demo_modules g f)
  have "fst (build demoBuildEnv demoWorld) = demoTrace"
    by (simp add: demo_build)
  with ordered complete show ?thesis by (intro conjI)
qed

text \<open>
  C7. \<open>buildEntry\<close> receives exactly the routes that \<open>getRoutes\<close> returns for which
  \<open>isBuildRequired\<close> is true, and \<open>compile\<close> receives the whole list that
  \<open>getRoutes\<close> returns, also the routes that require no build. A run that completes
  makes each of the two calls once, and both returned without error on these arguments.
  The outcome of a run that reaches the two calls is decided by \<open>buildEntry\<close> on the
  required routes and by \<open>compile\<close> on all routes: if \<open>buildEntry\<close> throws on the
  required routes the run ends with that error and \<open>compile\<close> is not called; if it
  returns and \<open>compile\<close> throws on the whole list the run ends with that error;
  if both return the run completes.
\<close>

theorem buildEntry_required_compile_all:
  "(\<forall>w'. snd (build env w) = Completed w' \<longrightarrow>
      inPhase EntryGeneration (fst (build env w)) =
        [EvBuildEntry (filter (isBuildRequired env) (getRoutes env (routeTable w')))] \<and>
      inPhase Compile (fst (build env w)) = [EvCompile (getRoutes env (routeTable w'))] \<and>
      buildEntry env (filter (isBuildRequired env) (getRoutes env (routeTable w'))) = None \<and>
      compile env (getRoutes env (routeTable w')) = None) \<and>
   (\<forall>rs. EvBuildEntry rs \<in> set (fst (build env w)) \<longrightarrow>
      (\<exists>t. snd (loadRoutes env (modules env) (routeTable w)) = Inr t \<and>
           rs = filter (isBuildRequired env) (getRoutes env t)) \<and>
      (\<forall>e. buildEntry env rs = Some e \<longrightarrow>
           snd (build env w) = Uncaught e \<and> inPhase Compile (fst (build env w)) = []) \<and>
      (buildEntry env rs = None \<longrightarrow>
         (\<exists>t. snd (loadRoutes env (modules env) (routeTable w)) = Inr t \<and>
              rs = filter (isBuildRequired env) (getRoutes env t) \<and>
              inPhase Compile (fst (build env w)) = [EvCompile (getRoutes env t)]))) \<and>
   (\<forall>rs. EvCompile rs \<in> set (fst (build env w)) \<longrightarrow>
      (\<exists>t. snd (loadRoutes env (modules env) (routeTable w)) = Inr t \<and>
           rs = getRoutes env t \<and>
           EvBuildEntry (filter (isBuildRequired env) rs) \<in> set (fst (build env w))) \<and>
      buildEntry env (filter (isBuildRequired env) rs) = None \<and>
      (\<forall>e. compile env rs = Some e \<longrightarrow> snd (build env w) = Uncaught e) \<and>
      (compile env rs = None \<longrightarrow>
         (\<exists>w'. snd (build env w) = Completed w' \<and> getRoutes env (routeTable w') = rs))) \<and>
   (loadRoutes env (modules env) (routeTable w) = (evs1, Inr t) \<and>
    cleanBuildDir env = (evs2, None) \<and>
    loadBootstraps env (modules env) (kernel w) = (evs3, Inr k) \<and>
    validateConfiguration env (lockKernel k) = None \<longrightarrow>
      (\<forall>e. buildEntry env (filter (isBuildRequired env) (getRoutes env t)) = Some e \<longrightarrow>
         build env w =
           (routeTrace (modules env) @ evs2 @ bootstrapTrace (modules env) @ lockTrace @
            gateTrace (getRoutes env t) @
            [EvBuildEntry (filter (isBuildRequired env) (getRoutes env t))],
            Uncaught e)) \<and>
      (\<forall>e. buildEntry env (filter (isBuildRequired env) (getRoutes env t)) = None \<and>
           compile env (getRoutes env t) = Some e \<longrightarrow>
         build env w =
           (routeTrace (modules env) @ evs2 @ bootstrapTrace (modules env) @ lockTrace @
            gateTrace (getRoutes env t) @
            [EvBuildEntry (filter (isBuildRequired env) (getRoutes env t)),
             EvCompile (getRoutes env t)],
            Uncaught e)) \<and>
      (buildEntry env (filter (isBuildRequired env) (getRoutes env t)) = None \<and>
       compile env (getRoutes env t) = None \<longrightarrow>
         build env w =
           (routeTrace (modules env) @ evs2 @ bootstrapTrace (modules env) @ lockTrace @
            gateTrace (getRoutes env t) @
            [EvBuildEntry (filter (isBuildRequired env) (getRoutes env t)),
             EvCompile (getRoutes env t)],
            Completed (w\<lparr> routeTable := t, kernel := lockKernel k,
                         ALLOW_CONFIG_MUTATIONS := Some ''false'' \<rparr>))))"
proof -
  have completed: "\<forall>w'. snd (build env w) = Completed w' \<longrightarrow>
      inPhase EntryGeneration (fst (build env w)) =
        [EvBuildEntry (filter (isBuildRequired env) (getRoutes env (routeTable w')))] \<and>
      inPhase Compile (fst (build env w)) = [EvCompile (getRoutes env (routeTable w'))] \<and>
      buildEntry env (filter (isBuildRequired env) (getRoutes env (routeTable w'))) = None \<and>
      compile env (getRoutes env (routeTable w')) = None"
  proof (intro allI impI)
    fix w' assume c: "snd (build env w) = Completed w'"
    show "inPhase EntryGeneration (fst (build env w)) =
        [EvBuildEntry (filter (isBuildRequired env) (getRoutes env (routeTable w')))] \<and>
      inPhase Compile (fst (build env w)) = [EvCompile (getRoutes env (routeTable w'))] \<and>
      buildEntry env (filter (isBuildRequired env) (getRoutes env (routeTable w'))) = None \<and>
      compile env (getRoutes env (routeTable w')) = None"
      using completed_calls(1) [OF c] completed_calls(2) [OF c] completed_call_results [OF c]
      by (simp only: simp_thms)
  qed
  have entry: "\<forall>rs. EvBuildEntry rs \<in> set (fst (build env w)) \<longrightarrow>
      (\<exists>t. snd (loadRoutes env (modules env) (routeTable w)) = Inr t \<and>
           rs = filter (isBuildRequired env) (getRoutes env t)) \<and>
      (\<forall>e. buildEntry env rs = Some e \<longrightarrow>
           snd (build env w) = Uncaught e \<and> inPhase Compile (fst (build env w)) = []) \<and>
      (buildEntry env rs = None \<longrightarrow>
         (\<exists>t. snd (loadRoutes env (modules env) (routeTable w)) = Inr t \<and>
              rs = filter (isBuildRequired env) (getRoutes env t) \<and>
              inPhase Compile (fst (build env w)) = [EvCompile (getRoutes env t)]))"
  proof (intro allI impI)
    fix rs assume m: "EvBuildEntry rs \<in> set (fst (build env w))"
    show "(\<exists>t. snd (loadRoutes env (modules env) (routeTable w)) = Inr t \<and>
           rs = filter (isBuildRequired env) (getRoutes env t)) \<and>
      (\<forall>e. buildEntry env rs = Some e \<longrightarrow>
           snd (build env w) = Uncaught e \<and> inPhase Compile (fst (build env w)) = []) \<and>
      (buildEntry env rs = None \<longrightarrow>
         (\<exists>t. snd (loadRoutes env (modules env) (routeTable w)) = Inr t \<and>
              rs = filter (isBuildRequired env) (getRoutes env t) \<and>
              inPhase Compile (fst (build env w)) = [EvCompile (getRoutes env t)]))"
      by (rule conjI [OF buildEntry_event [OF m] entry_call_result [OF m]])
  qed
  have comp: "\<forall>rs. EvCompile rs \<in> set (fst (build env w)) \<longrightarrow>
      (\<exists>t. snd (loadRoutes env (modules env) (routeTable w)) = Inr t \<and>
           rs = getRoutes env t \<and>
           EvBuildEntry (filter (isBuildRequired env) rs) \<in> set (fst (build env w))) \<and>
      buildEntry env (filter (isBuildRequired env) rs) = None \<and>
      (\<forall>e. compile env rs = Some e \<longrightarrow> snd (build env w) = Uncaught e) \<and>
      (compile env rs = None \<longrightarrow>
         (\<exists>w'. snd (build env w) = Completed w' \<and> getRoutes env (routeTable w') = rs))"
  proof (intro allI impI)
    fix rs assume m: "EvCompile rs \<in> set (fst (build env w))"
    show "(\<exists>t. snd (loadRoutes env (modules env) (routeTable w)) = Inr t \<and>
           rs = getRoutes env t \<and>
           EvBuildEntry (filter (isBuildRequired env) rs) \<in> set (fst (build env w))) \<and>
      buildEntry env (filter (isBuildRequired env) rs) = None \<and>
      (\<forall>e. compile env rs = Some e \<longrightarrow> snd (build env w) = Uncaught e) \<and>
      (compile env rs = None \<longrightarrow>
         (\<exists>w'. snd (build env w) = Completed w' \<and> getRoutes env (routeTable w') = rs))"
      by (rule conjI [OF compile_event [OF m] compile_call_result [OF m]])
  qed
  have forward: "loadRoutes env (modules env) (routeTable w) = (evs1, Inr t) \<and>
    cleanBuildDir env = (evs2, None) \<and>
    loadBootstraps env (modules env) (kernel w) = (evs3, Inr k) \<and>
    validateConfiguration env (lockKernel k) = None \<longrightarrow>
      (\<forall>e. buildEntry env (filter (isBuildRequired env) (getRoutes env t)) = Some e \<longrightarrow>
         build env w =
           (routeTrace (modules env) @ evs2 @ bootstrapTrace (modules env) @ lockTrace @
            gateTrace (getRoutes env t) @
            [EvBuildEntry (filter (isBuildRequired env) (getRoutes env t))],
            Uncaught e)) \<and>
      (\<forall>e. buildEntry env (filter (isBuildRequired env) (getRoutes env t)) = None \<and>
           compile env (getRoutes env t) = Some e \<longrightarrow>
         build env w =
           (routeTrace (modules env) @ evs2 @ bootstrapTrace (modules env) @ lockTrace @
            gateTrace (getRoutes env t) @
            [EvBuildEntry (filter (isBuildRequired env) (getRoutes env t)),
             EvCompile (getRoutes env t)],
            Uncaught e)) \<and>
      (buildEntry env (filter (isBuildRequired env) (getRoutes env t)) = None \<and>
       compile env (getRoutes env t) = None \<longrightarrow>
         build env w =
           (routeTrace (modules env) @ evs2 @ bootstrapTrace (modules env) @ lockTrace @
            gateTrace (getRoutes env t) @
            [EvBuildEntry (filter (isBuildRequired env) (getRoutes env t)),
             EvCompile (getRoutes env t)],
            Completed (w\<lparr> routeTable := t, kernel := lockKernel k,
                         ALLOW_CONFIG_MUTATIONS := Some ''false'' \<rparr>)))"
  proof (rule impI)
    assume h: "loadRoutes env (modules env) (routeTable w) = (evs1, Inr t) \<and>
      cleanBuildDir env = (evs2, None) \<and>
      loadBootstraps env (modules env) (kernel w) = (evs3, Inr k) \<and>
      validateConfiguration env (lockKernel k) = None"
    note lr = h [THEN conjunct1]
      and cb = h [THEN conjunct2, THEN conjunct1]
      and lb = h [THEN conjunct2, THEN conjunct2, THEN conjunct1]
      and v = h [THEN conjunct2, THEN conjunct2, THEN conjunct2]
    show "(\<forall>e. buildEntry env (filter (isBuildRequired env) (getRoutes env t)) = Some e \<longrightarrow>
         build env w =
           (routeTrace (modules env) @ evs2 @ bootstrapTrace (modules env) @ lockTrace @
            gateTrace (getRoutes env t) @
            [EvBuildEntry (filter (isBuildRequired env) (getRoutes env t))],
            Uncaught e)) \<and>
      (\<forall>e. buildEntry env (filter (isBuildRequired env) (getRoutes env t)) = None \<and>
           compile env (getRoutes env t) = Some e \<longrightarrow>
         build env w =
           (routeTrace (modules env) @ evs2 @ bootstrapTrace (modules env) @ lockTrace @
            gateTrace (getRoutes env t) @
            [EvBuildEntry (filter (isBuildRequired env) (getRoutes env t)),
             EvCompile (getRoutes env t)],
            Uncaught e)) \<and>
      (buildEntry env (filter (isBuildRequired env) (getRoutes env t)) = None \<and>
       compile env (getRoutes env t) = None \<longrightarrow>
         build env w =
           (routeTrace (modules env) @ evs2 @ bootstrapTrace (modules env) @ lockTrace @
            gateTrace (getRoutes env t) @
            [EvBuildEntry (filter (isBuildRequired env) (getRoutes env t)),
             EvCompile (getRoutes env t)],
            Completed (w\<lparr> routeTable := t, kernel := lockKernel k,
                         ALLOW_CONFIG_MUTATIONS := Some ''false'' \<rparr>)))"
      by (intro conjI) (rule build_after_validation [OF lr cb lb v])+
  qed
  show ?thesis
    by (rule conjI [OF completed conjI [OF entry conjI [OF comp forward]]])
qed

theorem buildEntry_required_compile_all_witness:
  "inPhase EntryGeneration (fst (build demoBuildEnv demoWorld)) =
     [EvBuildEntry [''/app/modules/checkout'']] \<and>
   inPhase Compile (fst (build demoBuildEnv demoWorld)) =
     [EvCompile [''/app/modules/checkout'', ''/app/extensions/sample'']] \<and>
   buildEntry demoBuildEnv [''/app/modules/checkout''] = None \<and>
   compile demoBuildEnv [''/app/modules/checkout'', ''/app/extensions/sample''] = None \<and>
   \<not> isBuildRequired demoBuildEnv ''/app/extensions/sample'' \<and>
   build (demoBuildEnv\<lparr> buildEntry :=
            (\<lambda>rs. if rs = [''/app/modules/checkout''] then Some (Thrown ''entry failed'')
                   else None) \<rparr>) demoWorld =
     ([EvLoadModuleRoutes ''/app/modules/checkout'', EvLoadModuleRoutes ''/app/extensions/sample'',
       EvExistsSync, EvRmSync, EvMkdirSync False,
       EvBootstrapStart checkoutModule, EvBootstrapSettled checkoutModule,
       EvBootstrapStart sampleExtension, EvBootstrapSettled sampleExtension,
       EvLockHooks, EvLockRegistry, EvValidateConfiguration,
       EvSetEnv, EvGetRoutes,
       EvIsBuildRequired ''/app/modules/checkout'', EvIsBuildRequired ''/app/extensions/sample'',
       EvBuildEntry [''/app/modules/checkout'']],
      Uncaught (Thrown ''entry failed''))"
proof -
  let ?f = "\<lambda>rs. if rs = [''/app/modules/checkout''] then Some (Thrown ''entry failed'')
                   else None"
  let ?env = "demoBuildEnv\<lparr> buildEntry := ?f \<rparr>"
  let ?t = "[''/app/modules/checkout'', ''/app/extensions/sample'']"
  have c: "snd (build demoBuildEnv demoWorld) =
      Completed (demoWorld\<lparr> routeTable := ?t,
                            kernel := lockKernel demoKernel,
                            ALLOW_CONFIG_MUTATIONS := Some ''false'' \<rparr>)"
    by (simp add: demo_build)
  have ok: "inPhase EntryGeneration (fst (build demoBuildEnv demoWorld)) =
     [EvBuildEntry [''/app/modules/checkout'']] \<and>
   inPhase Compile (fst (build demoBuildEnv demoWorld)) =
     [EvCompile [''/app/modules/checkout'', ''/app/extensions/sample'']] \<and>
   buildEntry demoBuildEnv [''/app/modules/checkout''] = None \<and>
   compile demoBuildEnv [''/app/modules/checkout'', ''/app/extensions/sample''] = None \<and>
   \<not> isBuildRequired demoBuildEnv ''/app/extensions/sample''"
    using buildEntry_required_compile_all [where env = demoBuildEnv and w = demoWorld,
      THEN conjunct1, THEN spec, THEN mp, OF c]
    by (simp add: demoBuildEnv_def)
  have ms: "modules ?env = [checkoutModule, sampleExtension]"
    by (simp add: modules_def demoBuildEnv_def)
  have rt: "routeTable demoWorld = []"
    by (simp add: demoWorld_def)
  have lr: "loadRoutes ?env (modules ?env) (routeTable demoWorld) =
      (routeTrace [checkoutModule, sampleExtension], Inr ?t)"
    by (simp only: ms rt loadRoutes_buildEntry_update demo_loadRoutes)
  have cb: "cleanBuildDir ?env = ([EvExistsSync, EvRmSync, EvMkdirSync False], None)"
    by (simp add: cleanBuildDir_def demoBuildEnv_def)
  have lb: "loadBootstraps ?env (modules ?env) (kernel demoWorld) =
      (bootstrapTrace [checkoutModule, sampleExtension], Inr demoKernel)"
    by (simp only: ms loadBootstraps_buildEntry_update demo_loadBootstraps)
  have v: "validateConfiguration ?env (lockKernel demoKernel) = None"
    by (simp add: demoBuildEnv_def)
  have hyp: "loadRoutes ?env (modules ?env) (routeTable demoWorld) =
      (routeTrace [checkoutModule, sampleExtension], Inr ?t) \<and>
    cleanBuildDir ?env = ([EvExistsSync, EvRmSync, EvMkdirSync False], None) \<and>
    loadBootstraps ?env (modules ?env) (kernel demoWorld) =
      (bootstrapTrace [checkoutModule, sampleExtension], Inr demoKernel) \<and>
    validateConfiguration ?env (lockKernel demoKernel) = None"
    by (intro conjI) (rule lr cb lb v)+
  have req: "filter (isBuildRequired ?env) (getRoutes ?env ?t) = [''/app/modules/checkout'']"
    by (simp add: demoBuildEnv_def)
  have gr: "getRoutes ?env ?t = ?t"
    by (simp add: demoBuildEnv_def)
  have req': "filter (isBuildRequired ?env) ?t = [''/app/modules/checkout'']"
    by (simp add: demoBuildEnv_def)
  have be: "buildEntry ?env (filter (isBuildRequired ?env) (getRoutes ?env ?t)) =
      Some (Thrown ''entry failed'')"
    by (simp only: req) simp
  have failed: "build ?env demoWorld =
     ([EvLoadModuleRoutes ''/app/modules/checkout'', EvLoadModuleRoutes ''/app/extensions/sample'',
       EvExistsSync, EvRmSync, EvMkdirSync False,
       EvBootstrapStart checkoutModule, EvBootstrapSettled checkoutModule,
       EvBootstrapStart sampleExtension, EvBootstrapSettled sampleExtension,
       EvLockHooks, EvLockRegistry, EvValidateConfiguration,
       EvSetEnv, EvGetRoutes,
       EvIsBuildRequired ''/app/modules/checkout'', EvIsBuildRequired ''/app/extensions/sample'',
       EvBuildEntry [''/app/modules/checkout'']],
      Uncaught (Thrown ''entry failed''))"
    using buildEntry_required_compile_all [where env = ?env and w = demoWorld
        and ?evs1.0 = "routeTrace [checkoutModule, sampleExtension]" and t = ?t
        and ?evs2.0 = "[EvExistsSync, EvRmSync, EvMkdirSync False]"
        and ?evs3.0 = "bootstrapTrace [checkoutModule, sampleExtension]" and k = demoKernel,
        THEN conjunct2, THEN conjunct2, THEN conjunct2, THEN mp, OF hyp,
        THEN conjunct1, THEN spec, THEN mp, OF be]
    by (simp only: ms gr req')
      (simp add: routeTrace_def bootstrapTrace_def lockTrace_def gateTrace_def
        checkoutModule_def sampleExtension_def)
  show ?thesis
    by (rule conjI [OF ok [THEN conjunct1] conjI [OF ok [THEN conjunct2, THEN conjunct1]
        conjI [OF ok [THEN conjunct2, THEN conjunct2, THEN conjunct1]
        conjI [OF ok [THEN conjunct2, THEN conjunct2, THEN conjunct2, THEN conjunct1]
        conjI [OF ok [THEN conjunct2, THEN conjunct2, THEN conjunct2, THEN conjunct2] failed]]]]])
qed

end
